(* ===== verification/Prelude.thy ===== *)
theory Prelude
  imports Complex_Main "HOL-Library.Word"
begin

text \<open>
  What every component theory shares: byte strings and their integer readings
  (\<^verbatim>\<open>int.from_bytes\<close>, \<^verbatim>\<open>int.to_bytes\<close>, \<^verbatim>\<open>struct.pack\<close>), Python slices, lower-case hex,
  UTF-8 of the strings the model carries, results as sums with a bind, and two
  generic interfaces: \<open>prefix_code\<close> (an encoding that can be read back from the front of
  a longer string, the law behind every length-delimited format of the program) and
  \<open>invariant_system\<close> (a step relation with an invariant).

  Conventions of the whole development: \<^verbatim>\<open>bytes\<close> is a list of \<open>8 word\<close>; \<^verbatim>\<open>str\<close> is
  a \<open>string\<close>, whose characters are the code points U+0000 to U+00FF; an unbounded
  Python \<^verbatim>\<open>int\<close> is an \<open>int\<close> (or a \<open>nat\<close> where the code has already refused negative
  values); a \<^verbatim>\<open>float\<close> of seconds is a \<open>rat\<close>, so rounding is not modelled; a datetime
  is the \<open>int\<close> number of microseconds or seconds since the epoch, in UTC; an exception
  is an \<open>Inl\<close>.  Arguments are modelled at their annotated type, so an
  \<^verbatim>\<open>isinstance\<close> guard against an ill-typed argument has no branch of its own.
\<close>

section \<open>Collections\<close>

named_theorems wf_intros \<open>rules that establish a well-formedness invariant\<close>
named_theorems step_simps \<open>equations that unfold one operation of a component\<close>

section \<open>Bytes, slices and integers\<close>

type_synonym byte = "8 word"
type_synonym bytes = "8 word list"
type_synonym seconds = rat

definition slice :: "nat \<Rightarrow> nat \<Rightarrow> 'a list \<Rightarrow> 'a list" where
  "slice i j xs = take (j - i) (drop i xs)"

lemma length_slice [simp]: "length (slice i j xs) = min (j - i) (length xs - i)"
  by (simp add: slice_def min.commute)

lemma slice_append_slice: "i \<le> j \<Longrightarrow> j \<le> k \<Longrightarrow> slice i j xs @ slice j k xs = slice i k xs"
proof -
  assume a: "i \<le> j" "j \<le> k"
  then have k: "k - i = (j - i) + (k - j)" and j: "j - i + i = j" by simp_all
  show ?thesis unfolding slice_def k take_add by (simp add: j)
qed

lemma slice_all [simp]: "length xs \<le> j \<Longrightarrow> slice 0 j xs = xs"
  by (simp add: slice_def)

lemma slice_slice: "slice i j (slice a b xs) = slice (a + i) (min (a + j) b) xs"
  by (simp add: slice_def drop_take take_take min_def add.commute)

lemma slice_append_left [simp]: "j \<le> length xs \<Longrightarrow> slice i j (xs @ ys) = slice i j xs"
  by (simp add: slice_def)

lemma slice_append_right:
  "length xs \<le> i \<Longrightarrow> slice i j (xs @ ys) = slice (i - length xs) (j - length xs) ys"
  by (simp add: slice_def)

lemma take_slice_drop: "i \<le> j \<Longrightarrow> take i xs @ slice i j xs @ drop j xs = xs"
proof -
  assume "i \<le> j"
  then have "drop j xs = drop (j - i) (drop i xs)" by simp
  then show ?thesis by (simp only: slice_def append_take_drop_id)
qed

lemma nth_slice: "n < j - i \<Longrightarrow> i + n < length xs \<Longrightarrow> slice i j xs ! n = xs ! (i + n)"
  by (simp add: slice_def)

lemma nth_list_update_any: "xs[i := x] ! j = (if i = j \<and> i < length xs then x else xs ! j)"
  by (cases "i < length xs") (auto simp: nth_list_update list_update_beyond)

fun nat_of_le :: "bytes \<Rightarrow> nat" where
  "nat_of_le [] = 0"
| "nat_of_le (b # bs) = unat b + 256 * nat_of_le bs"

definition nat_of_be :: "bytes \<Rightarrow> nat" where
  "nat_of_be bs = nat_of_le (rev bs)"

fun le_bytes :: "nat \<Rightarrow> nat \<Rightarrow> bytes" where
  "le_bytes 0 n = []"
| "le_bytes (Suc k) n = of_nat (n mod 256) # le_bytes k (n div 256)"

definition be_bytes :: "nat \<Rightarrow> nat \<Rightarrow> bytes" where
  "be_bytes k n = rev (le_bytes k n)"

lemma length_le_bytes [simp]: "length (le_bytes k n) = k"
  by (induction k arbitrary: n) auto

lemma length_be_bytes [simp]: "length (be_bytes k n) = k"
  by (simp add: be_bytes_def)

lemma unat_byte_less [simp]: "unat (b :: byte) < 256"
  using unsigned_less [of b, where 'a = nat] by simp

lemma unat_of_nat_byte [simp]: "unat (of_nat n :: byte) = n mod 256"
  by (simp add: unat_of_nat)

lemma of_nat_unat_byte [simp]: "(of_nat (unat b) :: byte) = b"
  by simp

lemma nat_of_le_less: "nat_of_le bs < 256 ^ length bs"
proof (induction bs)
  case Nil
  then show ?case by simp
next
  case (Cons b bs)
  have "unat b + 256 * nat_of_le bs \<le> 255 + 256 * (256 ^ length bs - 1)"
    using Cons.IH unat_byte_less [of b] by (intro add_mono mult_le_mono) linarith+
  also have "\<dots> < 256 * 256 ^ length bs"
  proof -
    have "(1::nat) \<le> 256 ^ length bs" by simp
    then show ?thesis by (simp add: diff_mult_distrib2)
  qed
  finally show ?case by simp
qed

lemma nat_of_be_less: "nat_of_be bs < 256 ^ length bs"
  using nat_of_le_less [of "rev bs"] by (simp add: nat_of_be_def)

lemma nat_of_le_le_bytes [simp]: "nat_of_le (le_bytes k n) = n mod 256 ^ k"
proof (induction k arbitrary: n)
  case 0
  then show ?case by simp
next
  case (Suc k)
  have "n mod 256 + 256 * (n div 256 mod 256 ^ k) = n mod (256 * 256 ^ k)"
    by (simp add: mod_mult2_eq)
  with Suc show ?case by simp
qed

lemma le_bytes_nat_of_le [simp]: "le_bytes (length bs) (nat_of_le bs) = bs"
  by (induction bs) (simp_all add: unat_byte_less)

lemma nat_of_be_be_bytes [simp]: "nat_of_be (be_bytes k n) = n mod 256 ^ k"
  by (simp add: nat_of_be_def be_bytes_def)

lemma be_bytes_nat_of_be [simp]: "be_bytes (length bs) (nat_of_be bs) = bs"
  using le_bytes_nat_of_le [of "rev bs"] by (simp add: nat_of_be_def be_bytes_def)

lemma be_bytes_inject:
  "m < 256 ^ k \<Longrightarrow> n < 256 ^ k \<Longrightarrow> be_bytes k m = be_bytes k n \<longleftrightarrow> m = n"
  by (metis mod_less nat_of_be_be_bytes)

lemma nat_of_le_append: "nat_of_le (xs @ ys) = nat_of_le xs + 256 ^ length xs * nat_of_le ys"
  by (induction xs) (simp_all add: algebra_simps)

lemma nat_of_be_Cons: "nat_of_be (x # xs) = nat_of_be xs + 256 ^ length xs * unat x"
  by (simp add: nat_of_be_def nat_of_le_append)

lemma nat_of_be_small_iff: "nat_of_be (x # xs) < 256 ^ length xs \<longleftrightarrow> x = 0"
proof
  assume lt: "nat_of_be (x # xs) < 256 ^ length xs"
  show "x = 0"
  proof (rule ccontr)
    assume "x \<noteq> 0"
    then have "1 \<le> unat x" by (simp add: unat_gt_0 Suc_le_eq)
    then have "256 ^ length xs * 1 \<le> 256 ^ length xs * unat x" by (rule mult_le_mono2)
    with lt show False by (simp add: nat_of_be_Cons)
  qed
qed (simp add: nat_of_be_Cons nat_of_be_less)

definition all_zero :: "bytes \<Rightarrow> bool" where
  "all_zero bs \<longleftrightarrow> list_all (\<lambda>b. b = 0) bs"

lemma all_zero_replicate [simp]: "all_zero (replicate n 0)"
  by (simp add: all_zero_def list_all_iff)

lemma all_zero_eq: "all_zero bs \<longleftrightarrow> bs = replicate (length bs) 0"
  unfolding all_zero_def by (induction bs) auto

section \<open>Text\<close>

definition hex_digit :: "nat \<Rightarrow> char" where
  "hex_digit n = (if n < 10 then char_of (48 + n) else char_of (87 + n))"

definition hex_value :: "char \<Rightarrow> nat option" where
  "hex_value c = (let n = of_char c :: nat in
     if 48 \<le> n \<and> n \<le> 57 then Some (n - 48)
     else if 97 \<le> n \<and> n \<le> 102 then Some (n - 87) else None)"

definition is_lower_hex :: "string \<Rightarrow> bool" where
  "is_lower_hex s \<longleftrightarrow> list_all (\<lambda>c. hex_value c \<noteq> None) s"

fun hex_of :: "bytes \<Rightarrow> string" where
  "hex_of [] = []"
| "hex_of (b # bs) = hex_digit (unat b div 16) # hex_digit (unat b mod 16) # hex_of bs"

fun unhex :: "string \<Rightarrow> bytes option" where
  "unhex [] = Some []"
| "unhex [c] = None"
| "unhex (c # d # cs) =
     (case hex_value c of None \<Rightarrow> None
      | Some h \<Rightarrow> (case hex_value d of None \<Rightarrow> None
        | Some l \<Rightarrow> map_option (Cons (of_nat (16 * h + l))) (unhex cs)))"

lemma hex_value_digit [simp]: "n < 16 \<Longrightarrow> hex_value (hex_digit n) = Some n"
  by (auto simp: hex_value_def hex_digit_def Let_def of_char_of)

lemma unhex_hex_of [simp]: "unhex (hex_of bs) = Some bs"
proof (induction bs)
  case Nil
  then show ?case by simp
next
  case (Cons b bs)
  have "unat b div 16 < 16" "unat b mod 16 < 16"
    using unat_byte_less [of b] by linarith+
  then show ?case using Cons by simp
qed

lemma hex_of_inject [simp]: "hex_of xs = hex_of ys \<longleftrightarrow> xs = ys"
  by (metis option.inject unhex_hex_of)

lemma length_hex_of [simp]: "length (hex_of bs) = 2 * length bs"
  by (induction bs) auto

lemma is_lower_hex_hex_of [simp]: "is_lower_hex (hex_of bs)"
proof (induction bs)
  case Nil
  then show ?case by (simp add: is_lower_hex_def)
next
  case (Cons b bs)
  have "unat b div 16 < 16" "unat b mod 16 < 16"
    using unat_byte_less [of b] by linarith+
  with Cons show ?case by (simp add: is_lower_hex_def)
qed

definition starts_with :: "'a list \<Rightarrow> 'a list \<Rightarrow> bool" where
  "starts_with p s \<longleftrightarrow> take (length p) s = p"

lemma starts_with_append [simp]: "starts_with p (p @ s)"
  by (simp add: starts_with_def)

lemma starts_withD: "starts_with p s \<Longrightarrow> s = p @ drop (length p) s"
  by (metis append_take_drop_id starts_with_def)

definition char_in_range :: "nat \<Rightarrow> nat \<Rightarrow> char \<Rightarrow> bool" where
  "char_in_range lo hi c \<longleftrightarrow> lo \<le> (of_char c :: nat) \<and> (of_char c :: nat) \<le> hi"

definition is_alnum :: "char \<Rightarrow> bool" where
  "is_alnum c \<longleftrightarrow> char_in_range 48 57 c \<or> char_in_range 65 90 c \<or> char_in_range 97 122 c"

text \<open>\<^verbatim>\<open>str.encode("ascii")\<close>, for the literals of the program.\<close>

definition ascii :: "string \<Rightarrow> bytes" where
  "ascii s = map of_char s"

lemma unat_of_char [simp]: "unat (of_char c :: byte) = of_char c"
  by (simp add: of_nat_of_char [symmetric, where 'a = byte])

lemma ascii_inject [simp]: "ascii s = ascii t \<longleftrightarrow> s = t"
proof -
  have "inj (of_char :: char \<Rightarrow> byte)"
    by (rule injI) (metis of_char_eq_iff unat_of_char)
  then show ?thesis by (simp add: ascii_def inj_map_eq_map)
qed

lemma length_ascii [simp]: "length (ascii s) = length s"
  by (simp add: ascii_def)

section \<open>Results\<close>

text \<open>
  A computation that may raise: \<open>Inl\<close> is the exception, \<open>Inr\<close> the value.  The built-in
  exceptions carry their message; a component that has exceptions of its own declares
  them beside its operations.
\<close>

datatype exn = ValueError string | OverflowError string | KeyError string | TypeError string | AssertionError

primrec bindE :: "'e + 'a \<Rightarrow> ('a \<Rightarrow> 'e + 'b) \<Rightarrow> 'e + 'b" where
  "bindE (Inl e) f = Inl e"
| "bindE (Inr x) f = f x"

definition ensure :: "bool \<Rightarrow> 'e \<Rightarrow> 'e + unit" where
  "ensure c e = (if c then Inr () else Inl e)"

definition of_option :: "'e \<Rightarrow> 'a option \<Rightarrow> 'e + 'a" where
  "of_option e m = (case m of None \<Rightarrow> Inl e | Some x \<Rightarrow> Inr x)"

definition is_ok :: "'e + 'a \<Rightarrow> bool" where
  "is_ok m = (case m of Inl _ \<Rightarrow> False | Inr _ \<Rightarrow> True)"

lemma bindE_Inr_iff [simp]: "bindE m f = Inr y \<longleftrightarrow> (\<exists>x. m = Inr x \<and> f x = Inr y)"
  by (cases m) auto

lemma bindE_Inl_iff: "bindE m f = Inl e \<longleftrightarrow> m = Inl e \<or> (\<exists>x. m = Inr x \<and> f x = Inl e)"
  by (cases m) auto

lemma ensure_Inr_iff [simp]: "ensure c e = Inr u \<longleftrightarrow> c"
  by (simp add: ensure_def)

lemma ensure_Inl_iff [simp]: "ensure c e = Inl e' \<longleftrightarrow> \<not> c \<and> e' = e"
  by (auto simp: ensure_def)

lemma of_option_Inr_iff [simp]: "of_option e m = Inr x \<longleftrightarrow> m = Some x"
  by (auto simp: of_option_def split: option.splits)

lemma of_option_Inl_iff [simp]: "of_option e m = Inl e' \<longleftrightarrow> m = None \<and> e' = e"
  by (auto simp: of_option_def split: option.splits)

lemma is_ok_iff: "is_ok m \<longleftrightarrow> (\<exists>x. m = Inr x)"
  by (auto simp: is_ok_def split: sum.splits)

section \<open>Encodings that can be read back from the front\<close>

text \<open>
  The law of a length-delimited or self-delimiting encoding: decoding what was encoded
  gives the value and leaves exactly what followed it.  Two strings made of such fields
  are equal only when the fields are.
\<close>

locale prefix_code =
  fixes enc :: "'a \<Rightarrow> 'b list"
    and dec :: "'b list \<Rightarrow> ('a \<times> 'b list) option"
    and ok :: "'a \<Rightarrow> bool"
  assumes dec_enc: "ok x \<Longrightarrow> dec (enc x @ r) = Some (x, r)"
begin

lemma enc_append_inject:
  assumes "ok x" "ok y" "enc x @ r = enc y @ s"
  shows "x = y \<and> r = s"
proof -
  have "Some (x, r) = Some (y, s)"
    by (simp only: dec_enc [OF assms(1), of r, symmetric] dec_enc [OF assms(2), of s, symmetric] assms(3))
  then show ?thesis by simp
qed

lemma enc_inject: "ok x \<Longrightarrow> ok y \<Longrightarrow> enc x = enc y \<Longrightarrow> x = y"
  by (metis append_Nil2 enc_append_inject)

lemma concat_inject:
  assumes "list_all ok xs" "list_all ok ys" "length xs = length ys"
    and "concat (map enc xs) @ r = concat (map enc ys) @ s"
  shows "xs = ys \<and> r = s"
  using assms(3,1,2,4)
proof (induction xs ys rule: list_induct2)
  case Nil
  then show ?case by simp
next
  case (Cons x xs y ys)
  have "x = y \<and> concat (map enc xs) @ r = concat (map enc ys) @ s"
    by (rule enc_append_inject) (use Cons.prems in simp_all)
  moreover have "list_all ok xs" "list_all ok ys" using Cons.prems by simp_all
  ultimately show ?case using Cons.IH by blast
qed

lemma concat_inject_nonempty:
  assumes "list_all ok xs" "list_all ok ys" "\<And>x. ok x \<Longrightarrow> enc x \<noteq> []"
    and "concat (map enc xs) = concat (map enc ys)"
  shows "xs = ys"
  using assms(1,2,4)
proof (induction xs arbitrary: ys)
  case Nil
  show ?case
  proof (cases ys)
    case (Cons y ys')
    with Nil.prems have "ok y" "enc y = []" by simp_all
    with assms(3) show ?thesis by blast
  qed simp
next
  case (Cons x xs)
  have "ok x" using Cons.prems(1) by simp
  then have "enc x \<noteq> []" by (rule assms(3))
  with Cons.prems(3) obtain y ys' where ys: "ys = y # ys'"
    by (cases ys) simp_all
  have "x = y \<and> concat (map enc xs) = concat (map enc ys')"
    by (rule enc_append_inject) (use Cons.prems ys in simp_all)
  moreover from this have "xs = ys'"
    by (intro Cons.IH) (use Cons.prems ys in simp_all)
  ultimately show ?case using ys by simp
qed

end

text \<open>\<^verbatim>\<open>str.encode("utf-8")\<close>: one byte below U+0080, two up to U+00FF.\<close>

definition utf8_char :: "char \<Rightarrow> bytes" where
  "utf8_char c = (let n = of_char c :: nat in
     if n < 128 then [word_of_nat n] else [word_of_nat (192 + n div 64), word_of_nat (128 + n mod 64)])"

definition utf8 :: "string \<Rightarrow> bytes" where
  "utf8 s = concat (map utf8_char s)"

fun utf8_dec :: "bytes \<Rightarrow> (char \<times> bytes) option" where
  "utf8_dec [] = None"
| "utf8_dec (b # bs) =
     (if unat b < 128 then Some (char_of (unat b), bs)
      else case bs of [] \<Rightarrow> None
           | c # cs \<Rightarrow> Some (char_of ((unat b - 192) * 64 + (unat c - 128)), cs))"

lemma utf8_dec_char: "utf8_dec (utf8_char c @ r) = Some (c, r)"
proof (cases "(of_char c :: nat) < 128")
  case True
  then show ?thesis by (simp add: utf8_char_def)
next
  case False
  have lt: "(of_char c :: nat) < 256"
    using mod_less_divisor [of 256 "of_char c"] by (simp only: of_char_mod_256)
  define p q :: byte where "p = word_of_nat (192 + of_char c div 64)"
    and "q = word_of_nat (128 + of_char c mod 64)"
  have u: "unat p = 192 + of_char c div 64" "unat q = 128 + of_char c mod 64"
    unfolding p_def q_def unat_of_nat_byte by (rule mod_less, use lt in linarith)+
  have "utf8_char c = [p, q]"
    using False by (simp only: utf8_char_def Let_def p_def q_def if_False)
  moreover have "(of_char c div 64) * 64 + of_char c mod 64 = (of_char c :: nat)"
    by (rule div_mult_mod_eq)
  ultimately show ?thesis by (simp add: u)
qed

interpretation utf8_code: prefix_code utf8_char utf8_dec "\<lambda>_. True"
  by unfold_locales (simp add: utf8_dec_char)

lemma utf8_inject [simp]: "utf8 s = utf8 t \<longleftrightarrow> s = t"
proof
  assume eq: "utf8 s = utf8 t"
  have ne: "\<And>c. True \<Longrightarrow> utf8_char c \<noteq> []" by (simp add: utf8_char_def Let_def)
  show "s = t"
    by (rule utf8_code.concat_inject_nonempty [OF _ _ ne])
       (use eq in \<open>simp_all add: list_all_iff utf8_def\<close>)
qed simp

text \<open>Big-endian unsigned integers of a fixed width (\<^verbatim>\<open>struct.pack(">H", n)\<close> is width 2).\<close>

definition be_dec :: "nat \<Rightarrow> bytes \<Rightarrow> (nat \<times> bytes) option" where
  "be_dec k bs = (if length bs < k then None else Some (nat_of_be (take k bs), drop k bs))"

interpretation u16_code: prefix_code "be_bytes 2" "be_dec 2" "\<lambda>n. n < 65536"
  by unfold_locales (simp add: be_dec_def)

section \<open>Step relations and invariants\<close>

inductive reach :: "('s \<Rightarrow> bool) \<Rightarrow> ('s \<Rightarrow> 's \<Rightarrow> bool) \<Rightarrow> 's \<Rightarrow> bool"
  for start :: "'s \<Rightarrow> bool" and step :: "'s \<Rightarrow> 's \<Rightarrow> bool" where
  reach_start: "start s \<Longrightarrow> reach start step s"
| reach_step: "reach start step s \<Longrightarrow> step s t \<Longrightarrow> reach start step t"

locale invariant_system =
  fixes start :: "'s \<Rightarrow> bool"
    and step :: "'s \<Rightarrow> 's \<Rightarrow> bool"
    and inv :: "'s \<Rightarrow> bool"
  assumes inv_start: "start s \<Longrightarrow> inv s"
    and inv_step: "inv s \<Longrightarrow> step s t \<Longrightarrow> inv t"
begin

lemma reach_inv: "reach start step s \<Longrightarrow> inv s"
  by (induction rule: reach.induct) (auto intro: inv_start inv_step)

lemma run_inv: "rtranclp step s t \<Longrightarrow> inv s \<Longrightarrow> inv t"
  by (induction rule: rtranclp_induct) (auto intro: inv_step)

end

end
