(* ===== verification/Sha2.thy ===== *)
theory Sha2
  imports Prelude
begin

text \<open>
  SHA-256, SHA-384 and SHA-512 of \<^verbatim>\<open>hashlib\<close> (FIPS 180-4), which nearly every component of
  \<^verbatim>\<open>cathedral\<close> uses for identities, bindings and register extends.

  A machine word is the list of its bits, least significant first, so that a digest of a
  concrete message is computed by the simplifier; \<^verbatim>\<open>bits_val_addb\<close> relates the ripple
  adder to addition modulo \<open>2 ^ w\<close>.  The functions \<^verbatim>\<open>sha256\<close>, \<^verbatim>\<open>sha384\<close> and \<^verbatim>\<open>sha512\<close>
  take and give byte strings; \<^verbatim>\<open>length_sha256\<close> and its siblings give the digest lengths,
  and \<^verbatim>\<open>Sha2_Vectors\<close> evaluates test vectors of the standard.
\<close>

section \<open>Words as bit lists\<close>

type_synonym bits = "bool list"

primrec int_bits :: "nat \<Rightarrow> int \<Rightarrow> bits" where
  "int_bits 0 n = []"
| "int_bits (Suc k) n = (n mod 2 = 1) # int_bits k (n div 2)"

primrec bits_val :: "bits \<Rightarrow> nat" where
  "bits_val [] = 0"
| "bits_val (b # bs) = (if b then 1 else 0) + 2 * bits_val bs"

fun xorb :: "bits \<Rightarrow> bits \<Rightarrow> bits" where
  "xorb (x # xs) (y # ys) = (x \<noteq> y) # xorb xs ys"
| "xorb _ _ = []"

fun andb :: "bits \<Rightarrow> bits \<Rightarrow> bits" where
  "andb (x # xs) (y # ys) = (x \<and> y) # andb xs ys"
| "andb _ _ = []"

fun addc :: "bool \<Rightarrow> bits \<Rightarrow> bits \<Rightarrow> bits" where
  "addc c (x # xs) (y # ys) = (x \<noteq> (y \<noteq> c)) # addc (if x then y \<or> c else y \<and> c) xs ys"
| "addc c _ _ = []"

definition addb :: "bits \<Rightarrow> bits \<Rightarrow> bits" where
  "addb = addc False"

definition rotr :: "nat \<Rightarrow> bits \<Rightarrow> bits" where
  "rotr n x = drop n x @ take n x"

definition shr :: "nat \<Rightarrow> bits \<Rightarrow> bits" where
  "shr n x = drop n x @ replicate n False"

definition ch :: "bits \<Rightarrow> bits \<Rightarrow> bits \<Rightarrow> bits" where
  "ch x y z = xorb (andb x y) (andb (map Not x) z)"

definition maj :: "bits \<Rightarrow> bits \<Rightarrow> bits \<Rightarrow> bits" where
  "maj x y z = xorb (andb x y) (xorb (andb x z) (andb y z))"

definition rot3 :: "nat \<Rightarrow> nat \<Rightarrow> nat \<Rightarrow> bits \<Rightarrow> bits" where
  "rot3 i j k x = xorb (rotr i x) (xorb (rotr j x) (rotr k x))"

definition rot2s :: "nat \<Rightarrow> nat \<Rightarrow> nat \<Rightarrow> bits \<Rightarrow> bits" where
  "rot2s i j k x = xorb (rotr i x) (xorb (rotr j x) (shr k x))"

section \<open>The compression function\<close>

datatype hash_state = HS bits bits bits bits bits bits bits bits

text \<open>The variant: word width in bits, the four sigma functions, the round constants.\<close>

datatype variant = Variant nat "bits \<Rightarrow> bits" "bits \<Rightarrow> bits" "bits \<Rightarrow> bits" "bits \<Rightarrow> bits" "bits list"

fun next_window :: "(bits \<Rightarrow> bits) \<Rightarrow> (bits \<Rightarrow> bits) \<Rightarrow> bits list \<Rightarrow> bits list" where
  "next_window s0 s1 [w0,w1,w2,w3,w4,w5,w6,w7,w8,w9,w10,w11,w12,w13,w14,w15] =
     [w1,w2,w3,w4,w5,w6,w7,w8,w9,w10,w11,w12,w13,w14,w15,
      addb (s1 w14) (addb w9 (addb (s0 w1) w0))]"
| "next_window s0 s1 ws = ws"

fun temp1 :: "(bits \<Rightarrow> bits) \<Rightarrow> bits \<Rightarrow> bits \<Rightarrow> hash_state \<Rightarrow> bits" where
  "temp1 S1 k w (HS a b c d e f g h) = addb h (addb (S1 e) (addb (ch e f g) (addb k w)))"

fun temp2 :: "(bits \<Rightarrow> bits) \<Rightarrow> hash_state \<Rightarrow> bits" where
  "temp2 S0 (HS a b c d e f g h) = addb (S0 a) (maj a b c)"

fun round_update :: "bits \<Rightarrow> bits \<Rightarrow> hash_state \<Rightarrow> hash_state" where
  "round_update t1 t2 (HS a b c d e f g h) = HS (addb t1 t2) a b c (addb d t1) e f g"

fun rounds :: "variant \<Rightarrow> bits list \<Rightarrow> bits list \<Rightarrow> hash_state \<Rightarrow> hash_state" where
  "rounds v [] w s = s"
| "rounds (Variant n s0 s1 S0 S1 kk) (k # ks) w s =
     rounds (Variant n s0 s1 S0 S1 kk) ks (next_window s0 s1 w)
       (round_update (temp1 S1 k (hd w) s) (temp2 S0 s) s)"

fun add_state :: "hash_state \<Rightarrow> hash_state \<Rightarrow> hash_state" where
  "add_state (HS a b c d e f g h) (HS a' b' c' d' e' f' g' h') =
     HS (addb a a') (addb b b') (addb c c') (addb d d') (addb e e') (addb f f') (addb g g') (addb h h')"

section \<open>Padding, blocks and digests\<close>

function chunks :: "nat \<Rightarrow> 'a list \<Rightarrow> 'a list list" where
  "chunks n xs = (if n = 0 \<or> xs = [] then [] else take n xs # chunks n (drop n xs))"
  by auto
termination by (relation "measure (length \<circ> snd)") auto

declare chunks.simps [simp del]

definition byte_bits :: "byte \<Rightarrow> bits" where
  "byte_bits b = int_bits 8 (uint b)"

definition word_bits :: "bytes \<Rightarrow> bits" where
  "word_bits bs = concat (map byte_bits (rev bs))"

definition bits_bytes :: "bits \<Rightarrow> bytes" where
  "bits_bytes w = rev (map (\<lambda>c. of_nat (bits_val c)) (chunks 8 w))"

definition sha_pad :: "nat \<Rightarrow> nat \<Rightarrow> bytes \<Rightarrow> bytes" where
  "sha_pad blk len m =
     m @ [0x80] @ replicate ((2 * blk - 1 - len - length m mod blk) mod blk) 0
       @ be_bytes len (8 * length m)"

fun process :: "variant \<Rightarrow> bytes list \<Rightarrow> hash_state \<Rightarrow> hash_state" where
  "process v [] s = s"
| "process (Variant n s0 s1 S0 S1 kk) (b # bs) s =
     process (Variant n s0 s1 S0 S1 kk) bs
       (add_state s (rounds (Variant n s0 s1 S0 S1 kk) kk (map word_bits (chunks (n div 8) b)) s))"

fun state_words :: "hash_state \<Rightarrow> bits list" where
  "state_words (HS a b c d e f g h) = [a, b, c, d, e, f, g, h]"

fun state_of :: "bits list \<Rightarrow> hash_state" where
  "state_of [a, b, c, d, e, f, g, h] = HS a b c d e f g h"
| "state_of _ = HS [] [] [] [] [] [] [] []"

definition digest_bytes :: "hash_state \<Rightarrow> bytes" where
  "digest_bytes s = concat (map bits_bytes (state_words s))"

section \<open>SHA-256\<close>

definition K256 :: "bits list" where
  "K256 = map (int_bits 32)
     [1116352408, 1899447441, 3049323471, 3921009573, 961987163, 1508970993, 2453635748, 2870763221,
      3624381080, 310598401, 607225278, 1426881987, 1925078388, 2162078206, 2614888103, 3248222580,
      3835390401, 4022224774, 264347078, 604807628, 770255983, 1249150122, 1555081692, 1996064986,
      2554220882, 2821834349, 2952996808, 3210313671, 3336571891, 3584528711, 113926993, 338241895,
      666307205, 773529912, 1294757372, 1396182291, 1695183700, 1986661051, 2177026350, 2456956037,
      2730485921, 2820302411, 3259730800, 3345764771, 3516065817, 3600352804, 4094571909, 275423344,
      430227734, 506948616, 659060556, 883997877, 958139571, 1322822218, 1537002063, 1747873779,
      1955562222, 2024104815, 2227730452, 2361852424, 2428436474, 2756734187, 3204031479, 3329325298]"

definition I256 :: hash_state where
  "I256 = state_of (map (int_bits 32)
     [1779033703, 3144134277, 1013904242, 2773480762, 1359893119, 2600822924, 528734635, 1541459225])"

definition V256 :: variant where
  "V256 = Variant 32 (rot2s 7 18 3) (rot2s 17 19 10) (rot3 2 13 22) (rot3 6 11 25) K256"

definition sha256 :: "bytes \<Rightarrow> bytes" where
  "sha256 m = digest_bytes (process V256 (chunks 64 (sha_pad 64 8 m)) I256)"

section \<open>SHA-384\<close>

definition K512 :: "bits list" where
  "K512 = map (int_bits 64)
     [4794697086780616226, 8158064640168781261, 13096744586834688815, 16840607885511220156,
      4131703408338449720, 6480981068601479193, 10538285296894168987, 12329834152419229976,
      15566598209576043074, 1334009975649890238, 2608012711638119052, 6128411473006802146,
      8268148722764581231, 9286055187155687089, 11230858885718282805, 13951009754708518548,
      16472876342353939154, 17275323862435702243, 1135362057144423861, 2597628984639134821,
      3308224258029322869, 5365058923640841347, 6679025012923562964, 8573033837759648693,
      10970295158949994411, 12119686244451234320, 12683024718118986047, 13788192230050041572,
      14330467153632333762, 15395433587784984357, 489312712824947311, 1452737877330783856,
      2861767655752347644, 3322285676063803686, 5560940570517711597, 5996557281743188959,
      7280758554555802590, 8532644243296465576, 9350256976987008742, 10552545826968843579,
      11727347734174303076, 12113106623233404929, 14000437183269869457, 14369950271660146224,
      15101387698204529176, 15463397548674623760, 17586052441742319658, 1182934255886127544,
      1847814050463011016, 2177327727835720531, 2830643537854262169, 3796741975233480872,
      4115178125766777443, 5681478168544905931, 6601373596472566643, 7507060721942968483,
      8399075790359081724, 8693463985226723168, 9568029438360202098, 10144078919501101548,
      10430055236837252648, 11840083180663258601, 13761210420658862357, 14299343276471374635,
      14566680578165727644, 15097957966210449927, 16922976911328602910, 17689382322260857208,
      500013540394364858, 748580250866718886, 1242879168328830382, 1977374033974150939,
      2944078676154940804, 3659926193048069267, 4368137639120453308, 4836135668995329356,
      5532061633213252278, 6448918945643986474, 6902733635092675308, 7801388544844847127]"

definition I384 :: hash_state where
  "I384 = state_of (map (int_bits 64)
     [14680500436340154072, 7105036623409894663, 10473403895298186519, 1526699215303891257,
      7436329637833083697, 10282925794625328401, 15784041429090275239, 5167115440072839076])"

definition V512 :: variant where
  "V512 = Variant 64 (rot2s 1 8 7) (rot2s 19 61 6) (rot3 28 34 39) (rot3 14 18 41) K512"

definition sha384 :: "bytes \<Rightarrow> bytes" where
  "sha384 m = take 48 (digest_bytes (process V512 (chunks 128 (sha_pad 128 16 m)) I384))"

definition I512 :: hash_state where
  "I512 = state_of (map (int_bits 64)
     [7640891576956012808, 13503953896175478587, 4354685564936845355, 11912009170470909681,
      5840696475078001361, 11170449401992604703, 2270897969802886507, 6620516959819538809])"

definition sha512 :: "bytes \<Rightarrow> bytes" where
  "sha512 m = digest_bytes (process V512 (chunks 128 (sha_pad 128 16 m)) I512)"

section \<open>The adder adds\<close>

lemma length_addc [simp]: "length (addc c x y) = min (length x) (length y)"
  by (induction c x y rule: addc.induct) auto

lemma bits_val_less: "bits_val x < 2 ^ length x"
  by (induction x) auto

lemma bits_val_addc:
  "length x = length y \<Longrightarrow>
     bits_val (addc c x y) = (bits_val x + bits_val y + (if c then 1 else 0)) mod 2 ^ length x"
proof (induction c x y rule: addc.induct)
  case (1 c x xs y ys)
  define k where "k = (if x then y \<or> c else y \<and> c)"
  define M where "M = (2 :: nat) ^ length xs"
  define v where "v = bits_val xs + bits_val ys + (if k then 1 else 0)"
  define d where "d = (if x \<noteq> (y \<noteq> c) then 1 else 0 :: nat)"
  have IH: "bits_val (addc k xs ys) = v mod M"
    using 1 by (simp add: k_def v_def M_def)
  have sum: "bits_val (x # xs) + bits_val (y # ys) + (if c then 1 else 0) = d + 2 * v"
    by (auto simp: k_def v_def d_def)
  have "bits_val (addc c (x # xs) (y # ys)) = d + 2 * (v mod M)"
    using IH by (simp add: k_def d_def)
  also have "\<dots> = (d + 2 * v) mod (2 * M)"
  proof -
    have "d + 2 * (v mod M) < 2 * M"
    proof -
      have "v mod M < M" by (simp add: M_def)
      then show ?thesis by (auto simp: d_def)
    qed
    moreover have "(d + 2 * v) mod (2 * M) = (d + 2 * (v mod M)) mod (2 * M)"
      by (metis mod_add_right_eq mult_mod_right)
    ultimately show ?thesis by simp
  qed
  finally show ?case by (simp only: sum M_def length_Cons power_Suc)
qed auto

lemma bits_val_addb:
  "length x = length y \<Longrightarrow> bits_val (addb x y) = (bits_val x + bits_val y) mod 2 ^ length x"
  by (simp add: addb_def bits_val_addc)

section \<open>Digest lengths\<close>

lemma length_addb [simp]: "length (addb x y) = min (length x) (length y)"
  by (simp add: addb_def)

lemma length_xorb [simp]: "length (xorb x y) = min (length x) (length y)"
  by (induction x y rule: xorb.induct) auto

lemma length_andb [simp]: "length (andb x y) = min (length x) (length y)"
  by (induction x y rule: andb.induct) auto

lemma length_int_bits [simp]: "length (int_bits k n) = k"
  by (induction k arbitrary: n) auto

lemma length_rotr [simp]: "length (rotr n x) = length x"
  by (simp add: rotr_def)

lemma length_ch [simp]: "length (ch x y z) = min (length x) (min (length y) (length z))"
  by (simp add: ch_def)

lemma length_maj [simp]: "length (maj x y z) = min (length x) (min (length y) (length z))"
  by (simp add: maj_def)

lemma length_rot3 [simp]: "length (rot3 i j k x) = length x"
  by (simp add: rot3_def)

lemma length_rot2s [simp]: "k \<le> length x \<Longrightarrow> length (rot2s i j k x) = length x"
  by (simp add: rot2s_def shr_def)

lemma length_word_bits [simp]: "length (word_bits bs) = 8 * length bs"
  by (induction bs) (simp_all add: word_bits_def byte_bits_def)

lemma chunks_Nil [simp]: "chunks n [] = []"
  by (subst chunks.simps) simp

lemma chunks_length:
  assumes "0 < n" "n dvd length xs"
  shows "length (chunks n xs) = length xs div n \<and> (\<forall>c \<in> set (chunks n xs). length c = n)"
  using assms
proof (induction n xs rule: chunks.induct)
  case (1 n xs)
  show ?case
  proof (cases "xs = []")
    case True
    then show ?thesis by simp
  next
    case False
    with "1.prems" have le: "n \<le> length xs" by (simp add: dvd_imp_le)
    then have "n dvd length (drop n xs)" using "1.prems" by (simp add: dvd_diff_nat)
    then have IH: "length (chunks n (drop n xs)) = length (drop n xs) div n \<and>
        (\<forall>c \<in> set (chunks n (drop n xs)). length c = n)"
      using "1.prems" False by (intro "1.IH") simp_all
    have dv: "length xs div n = Suc (length (drop n xs) div n)"
      using le "1.prems" by (simp add: le_div_geq)
    have ch: "chunks n xs = take n xs # chunks n (drop n xs)"
      using "1.prems"(1) False by (subst chunks.simps) simp
    have "length (chunks n xs) = length xs div n"
      by (simp only: ch length_Cons conjunct1 [OF IH] dv)
    moreover have "\<forall>c \<in> set (chunks n xs). length c = n"
    proof
      fix c assume "c \<in> set (chunks n xs)"
      then consider "c = take n xs" | "c \<in> set (chunks n (drop n xs))"
        by (simp only: ch list.set insert_iff) blast
      then show "length c = n"
        by cases (simp add: le, rule bspec [OF conjunct2 [OF IH]])
    qed
    ultimately show ?thesis ..
  qed
qed

lemma sha_pad_dvd:
  assumes "0 < blk" "len < blk"
  shows "blk dvd length (sha_pad blk len m)"
proof -
  define r where "r = length m mod blk"
  have r: "r < blk" using assms by (simp add: r_def)
  define z where "z = (2 * blk - 1 - len - r) mod blk"
  have "(r + 1 + len + z) mod blk = (r + 1 + len + (2 * blk - 1 - len - r)) mod blk"
    unfolding z_def by (rule mod_add_right_eq)
  also have "r + 1 + len + (2 * blk - 1 - len - r) = 2 * blk"
    using r assms by simp
  finally have "(r + 1 + len + z) mod blk = 0" by simp
  moreover have "length (sha_pad blk len m) = blk * (length m div blk) + (r + 1 + len + z)"
    by (simp add: sha_pad_def r_def z_def)
  ultimately show ?thesis by (simp add: dvd_eq_mod_eq_0 mod_add_eq)
qed

definition wf_state :: "nat \<Rightarrow> hash_state \<Rightarrow> bool" where
  "wf_state n s = list_all (\<lambda>w. length w = n) (state_words s)"

definition wf_window :: "nat \<Rightarrow> bits list \<Rightarrow> bool" where
  "wf_window n ws = (length ws = 16 \<and> list_all (\<lambda>w. length w = n) ws)"

definition wf_variant :: "variant \<Rightarrow> bool" where
  "wf_variant v = (case v of Variant n s0 s1 S0 S1 kk \<Rightarrow>
     8 \<le> n \<and> 8 dvd n \<and> list_all (\<lambda>k. length k = n) kk \<and>
     (\<forall>w. length w = n \<longrightarrow> length (s0 w) = n \<and> length (s1 w) = n \<and> length (S0 w) = n \<and> length (S1 w) = n))"

lemma wf_next_window:
  assumes "wf_variant (Variant n s0 s1 S0 S1 kk)" "wf_window n ws"
  shows "wf_window n (next_window s0 s1 ws)"
  using assms
  by (cases "(s0, s1, ws)" rule: next_window.cases) (auto simp: wf_variant_def wf_window_def)

lemma wf_rounds:
  "wf_variant v \<Longrightarrow> v = Variant n s0 s1 S0 S1 kk \<Longrightarrow> list_all (\<lambda>k. length k = n) ks \<Longrightarrow>
   wf_window n w \<Longrightarrow> wf_state n s \<Longrightarrow> wf_state n (rounds v ks w s)"
proof (induction v ks w s rule: rounds.induct)
  case (2 n' s0' s1' S0' S1' kk' k ks w s)
  have v: "n' = n" "s0' = s0" "s1' = s1" "S0' = S0" "S1' = S1" "kk' = kk"
    using "2.prems"(2) by simp_all
  have S: "\<And>w. length w = n \<Longrightarrow> length (S0 w) = n" "\<And>w. length w = n \<Longrightarrow> length (S1 w) = n"
    using "2.prems"(1) by (simp_all add: v wf_variant_def)
  have "length (hd w) = n" "length k = n"
    using "2.prems"(3,4) by (cases w; simp add: wf_window_def)+
  then have st: "wf_state n (round_update (temp1 S1 k (hd w) s) (temp2 S0 s) s)"
    using "2.prems"(5) by (cases s) (simp add: wf_state_def S)
  have win: "wf_window n (next_window s0 s1 w)"
    using "2.prems"(1,4) by (simp only: v) (rule wf_next_window)
  have "wf_state n (rounds (Variant n s0 s1 S0 S1 kk) ks (next_window s0 s1 w)
      (round_update (temp1 S1 k (hd w) s) (temp2 S0 s) s))"
    using "2.IH" [unfolded v, OF _ refl _ win st] "2.prems"(1,3) by (simp add: v)
  then show ?case by (simp add: v)
qed simp

lemma wf_add_state: "wf_state n s \<Longrightarrow> wf_state n t \<Longrightarrow> wf_state n (add_state s t)"
  by (cases s; cases t) (auto simp: wf_state_def)

lemma wf_process:
  "wf_variant v \<Longrightarrow> v = Variant n s0 s1 S0 S1 kk \<Longrightarrow> \<forall>b \<in> set bs. length b = 2 * n \<Longrightarrow>
   wf_state n s \<Longrightarrow> wf_state n (process v bs s)"
proof (induction v bs s rule: process.induct)
  case (2 n' s0' s1' S0' S1' kk' b bs s)
  have n: "0 < n div 8" "n = 8 * (n div 8)" using 2 by (auto simp: wf_variant_def)
  have b: "length b = 16 * (n div 8)" using 2 n(2) by simp
  have "length (chunks (n div 8) b) = 16 \<and> (\<forall>c \<in> set (chunks (n div 8) b). length c = n div 8)"
    using chunks_length [of "n div 8" b] n(1) b by simp
  then have w: "wf_window n (map word_bits (chunks (n div 8) b))"
    using n by (auto simp: wf_window_def list_all_iff)
  have "wf_state n (add_state s (rounds (Variant n s0 s1 S0 S1 kk) kk (map word_bits (chunks (n div 8) b)) s))"
    using 2 w by (intro wf_add_state wf_rounds) (auto simp: wf_variant_def)
  with 2 show ?case by simp
qed simp

lemma length_bits_bytes: "8 dvd length w \<Longrightarrow> length (bits_bytes w) = length w div 8"
  using chunks_length [of 8 w] by (simp add: bits_bytes_def)

lemma length_digest_bytes: "wf_state n s \<Longrightarrow> 8 dvd n \<Longrightarrow> length (digest_bytes s) = n"
  by (cases s) (auto simp: digest_bytes_def wf_state_def length_bits_bytes)

lemma wf_V256: "wf_variant V256"
  by (simp add: V256_def wf_variant_def K256_def)

lemma wf_V512: "wf_variant V512"
  by (simp add: V512_def wf_variant_def K512_def)

lemma length_sha256 [simp]: "length (sha256 m) = 32"
proof -
  have "wf_state 32 I256" by (simp add: I256_def wf_state_def)
  moreover have "\<forall>b \<in> set (chunks 64 (sha_pad 64 8 m)). length b = 2 * 32"
    using chunks_length [OF _ sha_pad_dvd, of 64 8 m] by simp
  ultimately have "wf_state 32 (process V256 (chunks 64 (sha_pad 64 8 m)) I256)"
    by (intro wf_process [OF wf_V256]) (simp_all add: V256_def)
  then show ?thesis unfolding sha256_def by (rule length_digest_bytes) simp
qed

lemma length_digest_512:
  assumes "wf_state 64 i"
  shows "length (digest_bytes (process V512 (chunks 128 (sha_pad 128 16 m)) i)) = 64"
proof -
  have "\<forall>b \<in> set (chunks 128 (sha_pad 128 16 m)). length b = 2 * 64"
    using chunks_length [OF _ sha_pad_dvd, of 128 16 m] by simp
  with assms have "wf_state 64 (process V512 (chunks 128 (sha_pad 128 16 m)) i)"
    by (intro wf_process [OF wf_V512]) (simp_all add: V512_def)
  then show ?thesis by (rule length_digest_bytes) simp
qed

lemma length_sha384 [simp]: "length (sha384 m) = 48"
  by (simp add: sha384_def length_digest_512 I384_def wf_state_def)

lemma length_sha512 [simp]: "length (sha512 m) = 64"
  by (simp add: sha512_def length_digest_512 I512_def wf_state_def)

end
