(* ===== verification/Sha2_Vectors.thy ===== *)
theory Sha2_Vectors
  imports Sha2
begin

text \<open>Test vectors of FIPS 180-4, evaluated on the model of \<^verbatim>\<open>Sha2\<close>.\<close>

lemma sha256_abc:
  "hex_of (sha256 (ascii ''abc'')) = ''ba7816bf8f01cfea414140de5dae2223b00361a396177a9cb410ff61f20015ad''"
  by code_simp

lemma sha384_abc:
  "hex_of (sha384 (ascii ''abc'')) =
     ''cb00753f45a35e8bb5a03d699ac65007272c32ab0eded1631a8b605a43ff5bed8086072ba1e7cc2358baeca134c825a7''"
  by code_simp

end
