(* ===== verification/Pytext.thy ===== *)
theory Pytext
  imports Prelude
begin

text \<open>
  Text the program prints and reads: decimal integers (\<^verbatim>\<open>str(n)\<close>, f-strings), fixed-width
  decimal fields (\<^verbatim>\<open>strftime\<close>), runs of digits (\<^verbatim>\<open>strptime\<close>) and the NUL-separated texts that
  are hashed.  The lemmas give the length, the alphabet and the injectivity of the renderings.
\<close>

section \<open>Decimal digits\<close>

definition digit :: "nat \<Rightarrow> char" where
  "digit n = char_of (48 + n)"

definition is_digit :: "char \<Rightarrow> bool" where
  "is_digit c = char_in_range 48 57 c"

definition digit_value :: "char \<Rightarrow> nat" where
  "digit_value c = of_char c - 48"

definition read_nat :: "string \<Rightarrow> nat" where
  "read_nat s = foldl (\<lambda>a c. 10 * a + digit_value c) 0 s"

function show_nat :: "nat \<Rightarrow> string" where
  "show_nat n = (if n < 10 then [digit n] else show_nat (n div 10) @ [digit (n mod 10)])"
  by auto
termination by (relation "measure id") auto

declare show_nat.simps [simp del]

definition show_int :: "int \<Rightarrow> string" where
  "show_int i = (if i < 0 then CHR ''-'' # show_nat (nat (- i)) else show_nat (nat i))"

primrec pad_nat :: "nat \<Rightarrow> nat \<Rightarrow> string" where
  "pad_nat 0 n = []"
| "pad_nat (Suc k) n = pad_nat k (n div 10) @ [digit (n mod 10)]"

text \<open>\<^verbatim>\<open>str.strip()\<close>.\<close>

definition is_space :: "char \<Rightarrow> bool" where
  "is_space c = (let n = of_char c :: nat in (9 \<le> n \<and> n \<le> 13) \<or> (28 \<le> n \<and> n \<le> 32) \<or> n = 133 \<or> n = 160)"

definition py_strip :: "string \<Rightarrow> string" where
  "py_strip s = rev (dropWhile is_space (rev (dropWhile is_space s)))"

text \<open>\<^verbatim>\<open>needle in text\<close> on strings.\<close>

fun occurs_in :: "'a list \<Rightarrow> 'a list \<Rightarrow> bool" where
  "occurs_in p [] = (p = [])"
| "occurs_in p (x # s) = (starts_with p (x # s) \<or> occurs_in p s)"

text \<open>The lines of a text file, each with its terminator.\<close>

fun py_lines :: "string \<Rightarrow> string list" where
  "py_lines [] = []"
| "py_lines (c # cs) = (if c = CHR 0x0A then [c] # py_lines cs
     else case py_lines cs of [] \<Rightarrow> [[c]] | l # ls \<Rightarrow> (c # l) # ls)"

section \<open>Lemmas\<close>

lemma digit_props [simp]:
  assumes "n < 10"
  shows "is_digit (digit n)" "digit_value (digit n) = n"
  using assms by (auto simp: is_digit_def char_in_range_def digit_def digit_value_def of_char_of)

lemma read_nat_Nil [simp]: "read_nat [] = 0"
  by (simp add: read_nat_def)

lemma read_nat_snoc [simp]: "read_nat (s @ [c]) = 10 * read_nat s + digit_value c"
  by (simp add: read_nat_def)

lemma show_nat_digits: "list_all is_digit (show_nat n) \<and> show_nat n \<noteq> []"
  by (induction n rule: show_nat.induct) (subst (1 2) show_nat.simps, simp)

lemma read_show_nat [simp]: "read_nat (show_nat n) = n"
proof (induction n rule: show_nat.induct)
  case (1 n)
  show ?case
  proof (cases "n < 10")
    case True
    then show ?thesis using read_nat_snoc [of "[]" "digit n"] by (simp add: show_nat.simps [of n])
  next
    case False
    with 1 have "read_nat (show_nat (n div 10)) = n div 10" by blast
    moreover have "show_nat n = show_nat (n div 10) @ [digit (n mod 10)]"
      using False by (simp add: show_nat.simps [of n])
    ultimately have "read_nat (show_nat n) = 10 * (n div 10) + n mod 10" by simp
    then show ?thesis by simp
  qed
qed

lemma show_nat_inject [simp]: "show_nat m = show_nat n \<longleftrightarrow> m = n"
  by (metis read_show_nat)

lemma length_show_nat: "10 ^ k \<le> n \<Longrightarrow> n < 10 ^ Suc k \<Longrightarrow> length (show_nat n) = Suc k"
proof (induction k arbitrary: n)
  case 0
  then show ?case by (simp add: show_nat.simps [of n])
next
  case (Suc k)
  have "(1 :: nat) \<le> 10 ^ k" by simp
  with Suc.prems(1) have "\<not> n < 10" unfolding power_Suc by linarith
  then have "show_nat n = show_nat (n div 10) @ [digit (n mod 10)]" by (simp add: show_nat.simps [of n])
  moreover have "10 ^ k \<le> n div 10" "n div 10 < 10 ^ Suc k"
    using Suc.prems by (simp_all add: less_eq_div_iff_mult_less_eq div_less_iff_less_mult mult.commute)
  ultimately show ?case using Suc.IH by simp
qed

lemma is_digit_neq: "\<not> is_digit c \<Longrightarrow> is_digit d \<Longrightarrow> c \<noteq> d"
  by auto

lemma length_pad_nat [simp]: "length (pad_nat k n) = k"
  by (induction k arbitrary: n) auto

lemma pad_nat_digits: "list_all is_digit (pad_nat k n)"
  by (induction k arbitrary: n) auto

lemma read_pad_nat [simp]: "read_nat (pad_nat k n) = n mod 10 ^ k"
proof (induction k arbitrary: n)
  case (Suc k)
  have "10 * (n div 10 mod 10 ^ k) + n mod 10 = n mod (10 * 10 ^ k)"
    by (simp add: mod_mult2_eq)
  with Suc show ?case by simp
qed simp

text \<open>
  Fields separated by a character that none of them contains: the front field is what
  precedes the first separator.
\<close>

lemma takeWhile_field: "c \<notin> set a \<Longrightarrow> takeWhile (\<lambda>x. x \<noteq> c) (a @ c # r) = a"
  by (induction a) auto

lemma separated_inject:
  assumes "c \<notin> set a" "c \<notin> set b" "a @ c # r = b @ c # s"
  shows "a = b \<and> r = s"
proof -
  have "a = b" using takeWhile_field [OF assms(1), of r] takeWhile_field [OF assms(2), of s] assms(3) by simp
  with assms(3) show ?thesis by simp
qed

lemma digits_no_sep: "list_all is_digit s \<Longrightarrow> \<not> is_digit c \<Longrightarrow> c \<notin> set s"
  by (auto simp: list_all_iff)

lemma show_nat_no_sep: "\<not> is_digit c \<Longrightarrow> c \<notin> set (show_nat n)"
  using show_nat_digits [of n] by (auto simp: list_all_iff)

section \<open>Elements of a bracketed text\<close>

lemma delimiter_not_digit:
  "\<not> is_digit (CHR ''-'')" "\<not> is_digit (CHR '','')" "\<not> is_digit (CHR '']'')" "\<not> is_digit (CHR ''}'')"
  by (simp_all add: is_digit_def char_in_range_def)

lemma show_int_chars: "c \<in> set (show_int i) \<Longrightarrow> is_digit c \<or> c = CHR ''-''"
  using show_nat_digits by (auto simp: show_int_def list_all_iff split: if_splits)

lemma show_int_inject: "show_int i = show_int j \<Longrightarrow> i = j"
proof -
  assume e: "show_int i = show_int j"
  have h: "CHR ''-'' # q \<noteq> show_nat n" for q n
    using show_nat_no_sep [OF delimiter_not_digit(1), of n] by (metis list.set_intros(1))
  have h': "show_nat n \<noteq> CHR ''-'' # q" for q n using h [of q n] by simp
  have "i < 0 \<longleftrightarrow> j < 0" using e by (cases "i < 0"; cases "j < 0") (simp_all add: show_int_def h h')
  then show "i = j" using e by (cases "i < 0") (simp_all add: show_int_def)
qed

text \<open>An element text that ends where a comma, a closing bracket or a closing brace begins.\<close>

definition delimited :: "('a \<Rightarrow> string) \<Rightarrow> bool" where
  "delimited f = (\<forall>x y c r d s. c \<in> set '',]}'' \<longrightarrow> d \<in> set '',]}'' \<longrightarrow> f x @ c # r = f y @ d # s \<longrightarrow> x = y \<and> c # r = d # s)"

lemma delimitedD:
  "delimited f \<Longrightarrow> c \<in> set '',]}'' \<Longrightarrow> d \<in> set '',]}'' \<Longrightarrow> f x @ c # r = f y @ d # s \<Longrightarrow> x = y \<and> c # r = d # s"
  unfolding delimited_def by blast

lemma stop_char:
  assumes "P c" "P d" "\<forall>x \<in> set a. \<not> P x" "\<forall>x \<in> set b. \<not> P x" "a @ c # r = b @ d # s"
  shows "a = b \<and> c # r = d # s"
proof -
  have "takeWhile (\<lambda>x. \<not> P x) (a @ c # r) = a" "takeWhile (\<lambda>x. \<not> P x) (b @ d # s) = b"
    using assms(1-4) by (simp_all add: takeWhile_append2)
  with assms(5) show ?thesis by simp
qed

lemma delimited_int: "delimited show_int"
  unfolding delimited_def
proof (intro allI impI)
  fix x y c r d s assume c: "c \<in> set '',]}''" and d: "d \<in> set '',]}''" and e: "show_int x @ c # r = show_int y @ d # s"
  have n: "\<forall>z \<in> set (show_int i). z \<notin> set '',]}''" for i
    using delimiter_not_digit by (auto dest!: show_int_chars)
  have "show_int x = show_int y \<and> c # r = d # s"
    by (rule stop_char [where P = "\<lambda>z. z \<in> set '',]}''", OF c d n n e])
  then show "x = y \<and> c # r = d # s" using show_int_inject by blast
qed

end
