(* ===== verification/Common.thy ===== *)
theory Common
  imports Sha2
begin

text \<open>
  \<^verbatim>\<open>src/cathedral/common.py\<close>: the bounds of the evidence envelope, the routability guard,
  the attestation data types, the two REPORT_DATA bindings, and the verifier policy.

  An IP address is its integer value, as in \<^verbatim>\<open>ipaddress\<close>; \<^verbatim>\<open>is_global4\<close> and \<^verbatim>\<open>is_global6\<close>
  are that module's \<^verbatim>\<open>is_global\<close> with the address blocks of CPython 3.12.  The lemmas show
  that the v2 REPORT_DATA payload can be read back field by field, so that equal report
  data means equal nonce, hotkey and channel key unless SHA-512 collides on the two payloads.
\<close>

section \<open>Evidence bounds\<close>

definition MAX_EVIDENCE_COMPONENTS :: nat where "MAX_EVIDENCE_COMPONENTS = 2"
definition MAX_EVIDENCE_QUOTE_BYTES :: nat where "MAX_EVIDENCE_QUOTE_BYTES = 1 * 1024 * 1024"
definition MAX_EVIDENCE_CERTIFICATES :: nat where "MAX_EVIDENCE_CERTIFICATES = 8"
definition MAX_EVIDENCE_CERTIFICATE_BYTES :: nat where "MAX_EVIDENCE_CERTIFICATE_BYTES = 256 * 1024"
definition MAX_COMPOSITE_JWT_BYTES :: nat where "MAX_COMPOSITE_JWT_BYTES = 32 * 1024"
definition MAX_EVIDENCE_COMPONENT_JSON_OVERHEAD :: nat where
  "MAX_EVIDENCE_COMPONENT_JSON_OVERHEAD = 64 * 1024"

definition MAX_EVIDENCE_RESPONSE_BODY :: nat where
  "MAX_EVIDENCE_RESPONSE_BODY = MAX_EVIDENCE_COMPONENTS *
     (2 * MAX_EVIDENCE_QUOTE_BYTES
      + MAX_EVIDENCE_CERTIFICATES * 2 * MAX_EVIDENCE_CERTIFICATE_BYTES
      + MAX_COMPOSITE_JWT_BYTES
      + MAX_EVIDENCE_COMPONENT_JSON_OVERHEAD)"

definition MAX_GPU_EVIDENCE_IN_FLIGHT_BYTES :: nat where
  "MAX_GPU_EVIDENCE_IN_FLIGHT_BYTES = 64 * 1024 * 1024"

definition base64_encoded_bound :: "nat \<Rightarrow> nat" where
  "base64_encoded_bound n = 4 * ((n + 2) div 3)"

definition MAX_GPU_EVIDENCE_DECODED_BYTES :: nat where
  "MAX_GPU_EVIDENCE_DECODED_BYTES = MAX_EVIDENCE_COMPONENTS *
     (MAX_EVIDENCE_QUOTE_BYTES
      + MAX_EVIDENCE_CERTIFICATES * MAX_EVIDENCE_CERTIFICATE_BYTES
      + MAX_COMPOSITE_JWT_BYTES)"

definition MAX_GPU_VERIFIER_REQUEST_BYTES :: nat where
  "MAX_GPU_VERIFIER_REQUEST_BYTES =
     MAX_EVIDENCE_COMPONENTS *
       (base64_encoded_bound MAX_EVIDENCE_QUOTE_BYTES
        + MAX_EVIDENCE_CERTIFICATES * base64_encoded_bound MAX_EVIDENCE_CERTIFICATE_BYTES)
     + MAX_COMPOSITE_JWT_BYTES
     + MAX_EVIDENCE_COMPONENTS * MAX_EVIDENCE_COMPONENT_JSON_OVERHEAD"

definition MAX_GPU_EVIDENCE_WORKING_SET_BYTES :: nat where
  "MAX_GPU_EVIDENCE_WORKING_SET_BYTES = max
     (2 * MAX_EVIDENCE_RESPONSE_BODY + MAX_GPU_EVIDENCE_DECODED_BYTES)
     (MAX_GPU_EVIDENCE_DECODED_BYTES + 3 * MAX_GPU_VERIFIER_REQUEST_BYTES)"

definition MAX_GPU_EVIDENCE_RESERVATION_BYTES :: nat where
  "MAX_GPU_EVIDENCE_RESERVATION_BYTES = MAX_GPU_EVIDENCE_WORKING_SET_BYTES + 8 * 1024 * 1024"

definition MAX_GPU_EVIDENCE_CONCURRENCY :: nat where
  "MAX_GPU_EVIDENCE_CONCURRENCY =
     MAX_GPU_EVIDENCE_IN_FLIGHT_BYTES div MAX_GPU_EVIDENCE_RESERVATION_BYTES"

section \<open>Routability\<close>

datatype ip_address = IPv4Address nat | IPv6Address nat

definition ipv4 :: "nat \<Rightarrow> nat \<Rightarrow> nat \<Rightarrow> nat \<Rightarrow> nat" where
  "ipv4 a b c d = ((a * 256 + b) * 256 + c) * 256 + d"

definition in_network :: "nat \<Rightarrow> nat \<Rightarrow> nat \<times> nat \<Rightarrow> bool" where
  "in_network width ip net = (ip div 2 ^ (width - snd net) = fst net div 2 ^ (width - snd net))"

definition private_networks4 :: "(nat \<times> nat) list" where
  "private_networks4 =
     [(ipv4 0 0 0 0, 8), (ipv4 10 0 0 0, 8), (ipv4 127 0 0 0, 8), (ipv4 169 254 0 0, 16),
      (ipv4 172 16 0 0, 12), (ipv4 192 0 0 0, 24), (ipv4 192 0 0 170, 31), (ipv4 192 0 2 0, 24),
      (ipv4 192 168 0 0, 16), (ipv4 198 18 0 0, 15), (ipv4 198 51 100 0, 24),
      (ipv4 203 0 113 0, 24), (ipv4 240 0 0 0, 4), (ipv4 255 255 255 255, 32)]"

definition private_exceptions4 :: "(nat \<times> nat) list" where
  "private_exceptions4 = [(ipv4 192 0 0 9, 32), (ipv4 192 0 0 10, 32)]"

definition is_private4 :: "nat \<Rightarrow> bool" where
  "is_private4 ip = (list_ex (in_network 32 ip) private_networks4 \<and>
     list_all (\<lambda>net. \<not> in_network 32 ip net) private_exceptions4)"

definition is_global4 :: "nat \<Rightarrow> bool" where
  "is_global4 ip = (\<not> in_network 32 ip (ipv4 100 64 0 0, 10) \<and> \<not> is_private4 ip)"

definition private_networks6 :: "(nat \<times> nat) list" where
  "private_networks6 =
     [(1, 128), (0, 128), (0xFFFF * 2 ^ 32, 96), (0x64FF9B0001 * 2 ^ 80, 48), (0x0100 * 2 ^ 112, 64),
      (0x2001 * 2 ^ 112, 23), (0x20010DB8 * 2 ^ 96, 32), (0x2002 * 2 ^ 112, 16),
      (0xFC00 * 2 ^ 112, 7), (0xFE80 * 2 ^ 112, 10)]"

definition private_exceptions6 :: "(nat \<times> nat) list" where
  "private_exceptions6 =
     [(0x20010001 * 2 ^ 96 + 1, 128), (0x20010001 * 2 ^ 96 + 2, 128), (0x20010003 * 2 ^ 96, 32),
      (0x200100040112 * 2 ^ 80, 48), (0x20010020 * 2 ^ 96, 28), (0x20010030 * 2 ^ 96, 28)]"

definition ipv4_mapped :: "nat \<Rightarrow> nat option" where
  "ipv4_mapped ip = (if ip div 2 ^ 32 = 0xFFFF then Some (ip mod 2 ^ 32) else None)"

definition sixtofour :: "nat \<Rightarrow> nat option" where
  "sixtofour ip = (if ip div 2 ^ 112 = 0x2002 then Some (ip div 2 ^ 80 mod 2 ^ 32) else None)"

definition is_private6 :: "nat \<Rightarrow> bool" where
  "is_private6 ip = (case ipv4_mapped ip of
      Some v4 \<Rightarrow> is_private4 v4
    | None \<Rightarrow> list_ex (in_network 128 ip) private_networks6 \<and>
        list_all (\<lambda>net. \<not> in_network 128 ip net) private_exceptions6)"

definition is_global6 :: "nat \<Rightarrow> bool" where
  "is_global6 ip = (\<not> is_private6 ip)"

definition NAT64_WELL_KNOWN_PREFIX :: "nat \<times> nat" where
  "NAT64_WELL_KNOWN_PREFIX = (0x64FF9B * 2 ^ 96, 96)"

definition IPV4_COMPATIBLE_PREFIX :: "nat \<times> nat" where
  "IPV4_COMPATIBLE_PREFIX = (0, 96)"

definition embedded_ipv4 :: "nat \<Rightarrow> nat option" where
  "embedded_ipv4 ip =
     (if ipv4_mapped ip \<noteq> None then ipv4_mapped ip
      else if sixtofour ip \<noteq> None then sixtofour ip
      else if in_network 128 ip NAT64_WELL_KNOWN_PREFIX then Some (ip mod 2 ^ 32)
      else if in_network 128 ip IPV4_COMPATIBLE_PREFIX \<and> 1 < ip then Some (ip mod 2 ^ 32)
      else None)"

fun is_globally_routable :: "ip_address \<Rightarrow> bool" where
  "is_globally_routable (IPv4Address ip) = is_global4 ip"
| "is_globally_routable (IPv6Address ip) =
     (case embedded_ipv4 ip of
        Some v4 \<Rightarrow> if \<not> is_global4 v4 then False else is_global6 ip
      | None \<Rightarrow> is_global6 ip)"

section \<open>Attestation data\<close>

datatype Tier = CC_CPU_SNP | CC_CPU_TDX | CC_GPU

datatype EvidenceKind = SEV_SNP | TDX | GPU_CC

datatype ChannelBindingType = TLS_SPKI_SHA256 | APPLICATION_KEY_SHA256

fun binding_type_value :: "ChannelBindingType \<Rightarrow> string" where
  "binding_type_value TLS_SPKI_SHA256 = ''tls_spki_sha256''"
| "binding_type_value APPLICATION_KEY_SHA256 = ''application_key_sha256''"

record ChannelBinding =
  binding_type :: ChannelBindingType
  cb_digest :: bytes

definition wf_binding :: "ChannelBinding \<Rightarrow> bool" where
  "wf_binding b = (length (cb_digest b) = 32)"

definition mk_ChannelBinding :: "ChannelBindingType \<Rightarrow> bytes \<Rightarrow> exn + ChannelBinding" where
  "mk_ChannelBinding t d =
     (if length d \<noteq> 32 then Inl (ValueError ''channel binding digest must be exactly 32 bytes'')
      else Inr \<lparr>binding_type = t, cb_digest = d\<rparr>)"

definition binding_prefix :: bytes where
  "binding_prefix = ascii ''cathedral.channel-binding'' @ [0]"

definition canonical_bytes :: "ChannelBinding \<Rightarrow> bytes" where
  "canonical_bytes b = (let name = ascii (binding_type_value (binding_type b)) in
     binding_prefix @ be_bytes 2 (length name) @ name @ cb_digest b)"

record Evidence =
  ev_kind :: EvidenceKind
  ev_quote :: bytes
  ev_nonce :: bytes
  ev_miner_hotkey :: string
  ev_cert_chain :: "bytes list"
  ev_ssh_host_key :: "bytes option"
  ev_composite_jwt :: "string option"
  report_data_version :: int
  channel_binding :: "ChannelBinding option"

definition check_Evidence :: "Evidence \<Rightarrow> exn + Evidence" where
  "check_Evidence e =
     (if report_data_version e \<notin> {1, 2} then Inl (ValueError ''unsupported report data version'')
      else if report_data_version e = 1 \<and> channel_binding e \<noteq> None
        then Inl (ValueError ''legacy report data cannot carry a v2 channel binding'')
      else if report_data_version e = 2 \<and> channel_binding e = None
        then Inl (ValueError ''report data v2 requires a channel binding'')
      else Inr e)"

section \<open>REPORT\_DATA\<close>

definition report_data :: "bytes \<Rightarrow> string \<Rightarrow> bytes option \<Rightarrow> bytes" where
  "report_data n hotkey ssh =
     sha512 (n @ utf8 hotkey @ (case ssh of None \<Rightarrow> [] | Some k \<Rightarrow> k))"

definition REPORT_DATA_V2_DOMAIN :: bytes where
  "REPORT_DATA_V2_DOMAIN = ascii ''cathedral.report-data'' @ [0]"

definition REPORT_DATA_V2_VERSION :: nat where "REPORT_DATA_V2_VERSION = 2"

definition MAX_REPORT_HOTKEY_BYTES :: nat where "MAX_REPORT_HOTKEY_BYTES = 512"

definition report_field :: "nat \<Rightarrow> bytes \<Rightarrow> exn + bytes" where
  "report_field tag v =
     (if 255 < tag \<or> 65535 < length v then Inl (ValueError ''report data field is out of bounds'')
      else Inr (of_nat tag # be_bytes 2 (length v) @ v))"

definition report_data_v2_payload :: "bytes \<Rightarrow> string \<Rightarrow> ChannelBinding \<Rightarrow> exn + bytes" where
  "report_data_v2_payload n miner_hotkey b = (let hotkey = utf8 miner_hotkey in
     if length n \<noteq> 32 then Inl (ValueError ''report data v2 nonce must be exactly 32 bytes'')
     else if hotkey = [] \<or> MAX_REPORT_HOTKEY_BYTES < length hotkey
       then Inl (ValueError ''report data v2 hotkey is out of bounds'')
     else bindE (report_field 1 n) (\<lambda>f1.
       bindE (report_field 2 hotkey) (\<lambda>f2.
       bindE (report_field 3 (ascii (binding_type_value (binding_type b)))) (\<lambda>f3.
       bindE (report_field 4 (cb_digest b)) (\<lambda>f4.
       Inr (REPORT_DATA_V2_DOMAIN @ be_bytes 2 REPORT_DATA_V2_VERSION @ f1 @ f2 @ f3 @ f4))))))"

definition report_data_v2 :: "bytes \<Rightarrow> string \<Rightarrow> ChannelBinding \<Rightarrow> exn + bytes" where
  "report_data_v2 n hotkey b = bindE (report_data_v2_payload n hotkey b) (\<lambda>payload. Inr (sha512 payload))"

definition evidence_report_data :: "Evidence \<Rightarrow> bytes \<Rightarrow> exn + bytes" where
  "evidence_report_data e n =
     (if report_data_version e = 2
      then (case channel_binding e of
              None \<Rightarrow> Inl AssertionError
            | Some b \<Rightarrow> report_data_v2 n (ev_miner_hotkey e) b)
      else Inr (report_data n (ev_miner_hotkey e) (ev_ssh_host_key e)))"

section \<open>Policy\<close>

text \<open>A datetime: without a zone, or with its UTC offset and the instant it denotes.\<close>

datatype datetime = Naive int | Aware int int

definition TDX_TCB_STATUSES :: "string set" where
  "TDX_TCB_STATUSES = {''UpToDate'', ''OutOfDate'', ''ConfigurationNeeded'',
     ''OutOfDateConfigurationNeeded'', ''SWHardeningNeeded'',
     ''ConfigurationAndSWHardeningNeeded'', ''Revoked''}"

definition MAX_SQLITE_INTEGER :: int where "MAX_SQLITE_INTEGER = 2 ^ 63 - 1"

fun tdx_policy_token :: "string \<Rightarrow> bool" where
  "tdx_policy_token [] = False"
| "tdx_policy_token (c # cs) = (is_alnum c \<and> length cs \<le> 127 \<and>
     list_all (\<lambda>d. is_alnum d \<or> d \<in> set ''._:-'') cs)"

definition is_sha256_label :: "string \<Rightarrow> bool" where
  "is_sha256_label s = (starts_with ''sha256:'' s \<and> length s = 71 \<and> is_lower_hex (drop 7 s))"

record Policy =
  allowed_measurements :: "string set"
  min_tcb :: int
  allowed_firmware :: "string set"
  tdx_strict :: bool
  tdx_allowed_tcb_statuses :: "string set"
  tdx_allowed_advisories :: "string set"
  registry_release :: "int option"
  registry_digest :: "string option"
  registry_profile_ids :: "string list"
  registry_verified :: bool
  registry_valid_from :: "int option"
  registry_valid_until :: "int option"

fun production_ready_at :: "Policy \<Rightarrow> datetime \<Rightarrow> bool" where
  "production_ready_at p (Naive t) = False"
| "production_ready_at p (Aware off t) =
     (off = 0 \<and> tdx_strict p \<and> allowed_measurements p \<noteq> {} \<and> registry_verified p
      \<and> registry_release p \<noteq> None \<and> registry_digest p \<noteq> None \<and> registry_profile_ids p \<noteq> []
      \<and> (case (registry_valid_from p, registry_valid_until p) of
           (Some f, Some u) \<Rightarrow> f \<le> t \<and> t < u
         | _ \<Rightarrow> False))"

definition registry_authority_identity where
  "registry_authority_identity p =
     (registry_release p, registry_digest p, registry_profile_ids p, allowed_measurements p,
      min_tcb p, allowed_firmware p, tdx_strict p, tdx_allowed_tcb_statuses p,
      tdx_allowed_advisories p, registry_verified p, registry_valid_from p, registry_valid_until p)"

definition check_Policy :: "Policy \<Rightarrow> exn + Policy" where
  "check_Policy p =
     (if \<exists>v \<in> tdx_allowed_tcb_statuses p. \<not> tdx_policy_token v
        then Inl (ValueError ''tdx_allowed_tcb_statuses must be a set of bounded policy tokens'')
      else if \<exists>v \<in> tdx_allowed_advisories p. \<not> tdx_policy_token v
        then Inl (ValueError ''tdx_allowed_advisories must be a set of bounded policy tokens'')
      else if tdx_allowed_tcb_statuses p - TDX_TCB_STATUSES \<noteq> {}
        then Inl (ValueError ''tdx_allowed_tcb_statuses contains an unknown TCB status'')
      else if ''Revoked'' \<in> tdx_allowed_tcb_statuses p
        then Inl (ValueError ''Revoked TDX platforms cannot be allowlisted'')
      else if tdx_strict p \<and> tdx_allowed_tcb_statuses p = {}
        then Inl (ValueError ''strict TDX policy requires at least one allowed TCB status'')
      else if (registry_release p = None) \<noteq> (registry_digest p = None)
        then Inl (ValueError ''registry release and digest must be supplied together'')
      else if (case (registry_release p, registry_digest p) of
            (Some r, Some d) \<Rightarrow> \<not> (0 < r \<and> r \<le> MAX_SQLITE_INTEGER) \<or> \<not> is_sha256_label d
          | _ \<Rightarrow> False)
        then Inl (ValueError ''registry policy metadata is invalid'')
      else if \<not> distinct (registry_profile_ids p) \<or> [] \<in> set (registry_profile_ids p)
        then Inl (ValueError ''registry profile ids must be unique strings'')
      else Inr p)"

section \<open>Bounds\<close>

lemmas evidence_bounds =
  MAX_EVIDENCE_COMPONENTS_def MAX_EVIDENCE_QUOTE_BYTES_def MAX_EVIDENCE_CERTIFICATES_def
  MAX_EVIDENCE_CERTIFICATE_BYTES_def MAX_COMPOSITE_JWT_BYTES_def
  MAX_EVIDENCE_COMPONENT_JSON_OVERHEAD_def MAX_EVIDENCE_RESPONSE_BODY_def
  MAX_GPU_EVIDENCE_IN_FLIGHT_BYTES_def base64_encoded_bound_def MAX_GPU_EVIDENCE_DECODED_BYTES_def
  MAX_GPU_VERIFIER_REQUEST_BYTES_def MAX_GPU_EVIDENCE_WORKING_SET_BYTES_def
  MAX_GPU_EVIDENCE_RESERVATION_BYTES_def MAX_GPU_EVIDENCE_CONCURRENCY_def

text \<open>
  The module reserves memory for exactly one maximum composite (GPU) evidence admission:
  the validator-wide budget of 64 MiB divided by the reservation of one admission is 1, so the
  import-time check that it is at least 1 passes.
\<close>

lemma gpu_evidence_concurrency: "MAX_GPU_EVIDENCE_CONCURRENCY = 1"
  by (simp add: evidence_bounds)

section \<open>Routability of transition addresses\<close>

lemma low32:
  assumes "a < 2 ^ 32"
  shows "(k * 2 ^ 32 + a) div 2 ^ 32 = (k :: nat)" "(k * 2 ^ 32 + a) mod 2 ^ 32 = a"
    "(k * 2 ^ 32 + a) div 2 ^ 112 = k div 2 ^ 80" "(k * 2 ^ 32 + a) div 2 ^ 80 = k div 2 ^ 48"
proof -
  show d: "(k * 2 ^ 32 + a) div 2 ^ 32 = k" using assms by simp
  show "(k * 2 ^ 32 + a) mod 2 ^ 32 = a" using assms by simp
  have "(k * 2 ^ 32 + a) div (2 ^ 32 * 2 ^ 80) = k div 2 ^ 80"
    unfolding div_mult2_eq d ..
  then show "(k * 2 ^ 32 + a) div 2 ^ 112 = k div 2 ^ 80" by simp
  have "(k * 2 ^ 32 + a) div (2 ^ 32 * 2 ^ 48) = k div 2 ^ 48"
    unfolding div_mult2_eq d ..
  then show "(k * 2 ^ 32 + a) div 2 ^ 80 = k div 2 ^ 48" by simp
qed

lemma embedded_ipv4_prefix:
  assumes "a < 2 ^ 32"
  shows "embedded_ipv4 (k * 2 ^ 32 + a) =
    (if k = 0xFFFF then Some a
     else if k div 2 ^ 80 = 0x2002 then Some (k div 2 ^ 48 mod 2 ^ 32)
     else if k = 0x64FF9B * 2 ^ 64 then Some a
     else if k = 0 \<and> 1 < a then Some a else None)"
proof -
  have "in_network 128 (k * 2 ^ 32 + a) NAT64_WELL_KNOWN_PREFIX = (k = 0x64FF9B * 2 ^ 64)"
    "in_network 128 (k * 2 ^ 32 + a) IPV4_COMPATIBLE_PREFIX = (k = 0)"
    using low32(1) [OF assms, of k]
    by (simp_all add: in_network_def NAT64_WELL_KNOWN_PREFIX_def IPV4_COMPATIBLE_PREFIX_def)
  then show ?thesis
    unfolding embedded_ipv4_def ipv4_mapped_def sixtofour_def low32 [OF assms] by auto
qed

lemma embedded_mapped:
  assumes "a < 2 ^ 32"
  shows "embedded_ipv4 (0xFFFF * 2 ^ 32 + a) = Some a"
  unfolding embedded_ipv4_prefix [OF assms] by simp

lemma embedded_6to4:
  assumes "a < 2 ^ 32" "w < 2 ^ 80"
  shows "embedded_ipv4 (0x2002 * 2 ^ 112 + a * 2 ^ 80 + w) = Some a"
proof -
  define k where "k = (0x2002 * 2 ^ 32 + a) * 2 ^ 48 + w div 2 ^ 32"
  have w: "w div 2 ^ 32 < 2 ^ 48" using assms(2) by simp
  have d48: "k div 2 ^ 48 = 0x2002 * 2 ^ 32 + a" unfolding k_def using w by simp
  have "k div (2 ^ 48 * 2 ^ 32) = 0x2002"
    unfolding div_mult2_eq d48 using assms(1) by simp
  then have d80: "k div 2 ^ 80 = 0x2002" by simp
  have "k \<noteq> 0xFFFF" using d80 by auto
  moreover have "(0x2002 * 2 ^ 32 + a) mod 2 ^ 32 = a" by (rule low32(2) [OF assms(1)])
  ultimately have "embedded_ipv4 (k * 2 ^ 32 + w mod 2 ^ 32) = Some a"
    by (subst embedded_ipv4_prefix) (simp_all only: d80 d48 if_True if_False refl, simp)
  moreover have "k * 2 ^ 32 + w mod 2 ^ 32 = 0x2002 * 2 ^ 112 + a * 2 ^ 80 + w"
    using div_mult_mod_eq [of w "2 ^ 32"] by (simp add: k_def algebra_simps)
  ultimately show ?thesis by simp
qed

lemma embedded_nat64:
  assumes "a < 2 ^ 32"
  shows "embedded_ipv4 (0x64FF9B * 2 ^ 96 + a) = Some a"
proof -
  have "embedded_ipv4 ((0x64FF9B * 2 ^ 64) * 2 ^ 32 + a) = Some a"
    unfolding embedded_ipv4_prefix [OF assms] by simp
  then show ?thesis by simp
qed

lemma embedded_compatible:
  "a < 2 ^ 32 \<Longrightarrow> 1 < a \<Longrightarrow> embedded_ipv4 a = Some a"
  using embedded_ipv4_prefix [of a 0] by simp

lemma unspecified_and_loopback_not_routable:
  "\<not> is_globally_routable (IPv6Address 0)" "\<not> is_globally_routable (IPv6Address 1)"
  by (simp_all add: embedded_ipv4_def ipv4_mapped_def sixtofour_def in_network_def
        NAT64_WELL_KNOWN_PREFIX_def IPV4_COMPATIBLE_PREFIX_def is_global6_def is_private6_def
        private_networks6_def private_exceptions6_def)

text \<open>
  C33: no IPv6 transition form of a non-global IPv4 address is reported routable: for every IPv4
  address that is not global, its IPv4-mapped, 6to4 (with any interface bits), NAT64 and
  IPv4-compatible spellings are all refused.
\<close>

theorem transition_addresses_refused:
  assumes "a < 2 ^ 32" "\<not> is_global4 a" "w < 2 ^ 80"
  shows "\<not> is_globally_routable (IPv6Address (0xFFFF * 2 ^ 32 + a)) \<and>
    \<not> is_globally_routable (IPv6Address (0x2002 * 2 ^ 112 + a * 2 ^ 80 + w)) \<and>
    \<not> is_globally_routable (IPv6Address (0x64FF9B * 2 ^ 96 + a)) \<and>
    \<not> is_globally_routable (IPv6Address a)"
proof -
  have "\<not> is_globally_routable (IPv6Address a)"
  proof (cases "1 < a")
    case True
    then show ?thesis using assms embedded_compatible [of a] by simp
  next
    case False
    then have "a = 0 \<or> a = 1" by linarith
    then show ?thesis using unspecified_and_loopback_not_routable by (elim disjE) simp_all
  qed
  moreover have "\<not> is_globally_routable (IPv6Address (0xFFFF * 2 ^ 32 + a))"
    unfolding is_globally_routable.simps embedded_mapped [OF assms(1)] using assms(2) by simp
  moreover have "\<not> is_globally_routable (IPv6Address (0x2002 * 2 ^ 112 + a * 2 ^ 80 + w))"
    unfolding is_globally_routable.simps embedded_6to4 [OF assms(1,3)] using assms(2) by simp
  moreover have "\<not> is_globally_routable (IPv6Address (0x64FF9B * 2 ^ 96 + a))"
    unfolding is_globally_routable.simps embedded_nat64 [OF assms(1)] using assms(2) by simp
  ultimately show ?thesis by blast
qed

theorem transition_addresses_refused_witness:
  "\<not> is_globally_routable (IPv6Address (0x64FF9B * 2 ^ 96 + ipv4 127 0 0 1)) \<and>
   \<not> is_globally_routable (IPv6Address (0x2002 * 2 ^ 112 + ipv4 127 0 0 1 * 2 ^ 80 + 7)) \<and>
   is_globally_routable (IPv6Address (0x64FF9B * 2 ^ 96 + ipv4 8 8 8 8))"
proof -
  have g: "\<not> is_global4 (ipv4 127 0 0 1)"
    by (simp add: is_global4_def is_private4_def private_networks4_def private_exceptions4_def
          in_network_def ipv4_def)
  have b: "ipv4 127 0 0 1 < 2 ^ 32" by (simp add: ipv4_def)
  have "is_globally_routable (IPv6Address (0x64FF9B * 2 ^ 96 + ipv4 8 8 8 8))"
    by (simp add: embedded_ipv4_def ipv4_mapped_def sixtofour_def in_network_def ipv4_def
          NAT64_WELL_KNOWN_PREFIX_def IPV4_COMPATIBLE_PREFIX_def is_global6_def is_private6_def
          is_global4_def is_private4_def private_networks4_def private_exceptions4_def
          private_networks6_def private_exceptions6_def)
  moreover have "(7 :: nat) < 2 ^ 80" by simp
  ultimately show ?thesis using transition_addresses_refused [OF b g, of 7] by blast
qed

section \<open>Reading the v2 payload back\<close>

text \<open>A tagged field, its decoder, and the front-readability law.\<close>

definition field_bytes :: "nat \<times> bytes \<Rightarrow> bytes" where
  "field_bytes f = of_nat (fst f) # be_bytes 2 (length (snd f)) @ snd f"

definition field_ok :: "nat \<times> bytes \<Rightarrow> bool" where
  "field_ok f = (fst f \<le> 255 \<and> length (snd f) \<le> 65535)"

fun field_dec :: "bytes \<Rightarrow> ((nat \<times> bytes) \<times> bytes) option" where
  "field_dec [] = None"
| "field_dec (t # bs) = (case be_dec 2 bs of None \<Rightarrow> None
     | Some (n, r) \<Rightarrow> if length r < n then None else Some ((unat t, take n r), drop n r))"

interpretation field_code: prefix_code field_bytes field_dec field_ok
proof
  fix f r assume "field_ok f"
  then have "fst f < 256" "length (snd f) < 65536" by (simp_all add: field_ok_def)
  then show "field_dec (field_bytes f @ r) = Some (f, r)"
    by (simp add: field_bytes_def u16_code.dec_enc)
qed

lemma report_field_eq:
  "report_field t v = (if field_ok (t, v) then Inr (field_bytes (t, v))
     else Inl (ValueError ''report data field is out of bounds''))"
  by (auto simp: report_field_def field_ok_def field_bytes_def)

lemma binding_type_value_inject [simp]:
  "binding_type_value t = binding_type_value t' \<longleftrightarrow> t = t'"
  by (cases t; cases t') simp_all

lemma length_binding_type_value: "length (binding_type_value t) \<le> 22"
  by (cases t) simp_all

definition v2_fields :: "bytes \<Rightarrow> string \<Rightarrow> ChannelBinding \<Rightarrow> (nat \<times> bytes) list" where
  "v2_fields n hotkey b =
     [(1, n), (2, utf8 hotkey), (3, ascii (binding_type_value (binding_type b))), (4, cb_digest b)]"

lemma report_data_v2_payload_fields:
  assumes "report_data_v2_payload n h b = Inr p"
  shows "p = REPORT_DATA_V2_DOMAIN @ be_bytes 2 REPORT_DATA_V2_VERSION @ concat (map field_bytes (v2_fields n h b))
    \<and> list_all field_ok (v2_fields n h b)"
  using assms
  by (auto simp: report_data_v2_payload_def Let_def report_field_eq v2_fields_def split: if_splits)

lemma v2_fields_inject: "v2_fields n h b = v2_fields n' h' b' \<longleftrightarrow> n = n' \<and> h = h' \<and> b = b'"
  by (auto simp: v2_fields_def)

lemma report_data_v2_payload_inject:
  assumes "report_data_v2_payload n h b = Inr p" "report_data_v2_payload n' h' b' = Inr p"
  shows "n = n' \<and> h = h' \<and> b = b'"
proof -
  let ?f = "v2_fields n h b" and ?g = "v2_fields n' h' b'"
  have "concat (map field_bytes ?f) @ [] = concat (map field_bytes ?g) @ []"
    using report_data_v2_payload_fields [OF assms(1)] report_data_v2_payload_fields [OF assms(2)] by simp
  moreover have "list_all field_ok ?f" "list_all field_ok ?g"
    using report_data_v2_payload_fields [OF assms(1)] report_data_v2_payload_fields [OF assms(2)] by simp_all
  moreover have "length ?f = length ?g" by (simp add: v2_fields_def)
  ultimately have "?f = ?g" using field_code.concat_inject by blast
  then show ?thesis by (simp add: v2_fields_inject)
qed

text \<open>
  C13: the v2 REPORT_DATA binds freshness, identity and channel key unambiguously.  Two calls that
  return the same 64 bytes were given the same nonce, the same hotkey and the same channel
  binding, or the two payloads they hashed are a SHA-512 collision.
\<close>

theorem report_data_v2_binds:
  assumes "report_data_v2 n h b = Inr d" "report_data_v2 n' h' b' = Inr d"
  shows "length d = 64 \<and>
    ((n = n' \<and> h = h' \<and> b = b') \<or>
     (\<exists>p p'. report_data_v2_payload n h b = Inr p \<and> report_data_v2_payload n' h' b' = Inr p' \<and>
        p \<noteq> p' \<and> sha512 p = sha512 p'))"
proof -
  obtain p p' where p: "report_data_v2_payload n h b = Inr p" "d = sha512 p"
    and p': "report_data_v2_payload n' h' b' = Inr p'" "d = sha512 p'"
    using assms by (auto simp: report_data_v2_def)
  have "p = p' \<Longrightarrow> n = n' \<and> h = h' \<and> b = b'"
    using report_data_v2_payload_inject p(1) p'(1) by blast
  then show ?thesis using p p' by auto
qed

text \<open>When the v2 report data exists: the bounds on nonce and hotkey are the only way to fail.\<close>

lemma report_data_v2_total:
  assumes "length n = 32" "h \<noteq> []" "length (utf8 h) \<le> 512" "wf_binding b"
  shows "report_data_v2 n h b = Inr (sha512 (REPORT_DATA_V2_DOMAIN @
    be_bytes 2 REPORT_DATA_V2_VERSION @ concat (map field_bytes (v2_fields n h b))))"
proof -
  have "utf8 h \<noteq> []" using assms(2) utf8_inject [of h "[]"] by (simp add: utf8_def)
  moreover have "field_ok (3, ascii (binding_type_value (binding_type b)))"
    using length_binding_type_value [of "binding_type b"] by (simp add: field_ok_def)
  ultimately show ?thesis
    using assms
    by (simp add: report_data_v2_def report_data_v2_payload_def Let_def report_field_eq
          v2_fields_def MAX_REPORT_HOTKEY_BYTES_def wf_binding_def)
       (simp add: field_ok_def)
qed

theorem report_data_v2_binds_witness:
  "\<exists>d. report_data_v2 (replicate 32 1) ''5F'' \<lparr>binding_type = TLS_SPKI_SHA256, cb_digest = replicate 32 7\<rparr> = Inr d
     \<and> length d = 64"
proof -
  let ?n = "replicate 32 (1 :: byte)"
    and ?b = "\<lparr>binding_type = TLS_SPKI_SHA256, cb_digest = replicate 32 7\<rparr>"
  have "length (utf8 ''5F'') \<le> 512" by (simp add: utf8_def utf8_char_def)
  then obtain d where d: "report_data_v2 ?n ''5F'' ?b = Inr d"
    using report_data_v2_total [of ?n "''5F''" ?b] by (auto simp: wf_binding_def)
  with report_data_v2_binds [OF d d] show ?thesis by blast
qed

section \<open>Policy\<close>

definition wf_policy :: "Policy \<Rightarrow> bool" where
  "wf_policy p = (tdx_allowed_tcb_statuses p \<subseteq> TDX_TCB_STATUSES - {''Revoked''} \<and>
     (tdx_strict p \<longrightarrow> tdx_allowed_tcb_statuses p \<noteq> {}) \<and>
     (\<forall>r. registry_release p = Some r \<longrightarrow> 0 < r \<and> r \<le> MAX_SQLITE_INTEGER) \<and>
     (\<forall>d. registry_digest p = Some d \<longrightarrow> is_sha256_label d) \<and>
     (registry_release p = None \<longleftrightarrow> registry_digest p = None) \<and>
     distinct (registry_profile_ids p))"



text \<open>
  The registry authority identity pins the whole effective policy.  Two policies with the same
  identity are equal field by field, so work verified under one cannot commit under a different one,
  and they are production ready at the same instants.
\<close>

lemma registry_identity_pins_policy:
  assumes "registry_authority_identity p = registry_authority_identity q"
  shows "p = q \<and> production_ready_at p w = production_ready_at q w"
proof -
  have "p = q" using assms by (simp add: registry_authority_identity_def)
  then show ?thesis by simp
qed

end
