(* ===== verification/Lifecycle.thy ===== *)
theory Lifecycle
  imports Pytext Common
begin

text \<open>
  \<^verbatim>\<open>src/cathedral/lifecycle.py\<close>: the worker lifecycle table and its reasons, the snapshot with
  its construction checks, the deterministic retry delay, and the single-flight refresh control.

  A datetime is its civil components with the UTC offset of its zone (\<open>None\<close> without one);
  two UTC values are compared through \<^verbatim>\<open>dt_key\<close>, the mixed-radix number of the components,
  which orders valid values as their tuples are ordered.  The single-flight control is a step
  relation whose steps are the sections the code runs under its lock and the steps of the
  executor's threads; the operation a flight runs is arbitrary, so it may end with any outcome.
\<close>

section \<open>States, reasons and tables\<close>

datatype LifecycleError = LifecycleError string

datatype WorkerLifecycleState = PENDING | ATTESTED | STALE | FAILED | RETIRING | RETIRED | REVOKED

datatype LifecycleReason =
  ENROLLED | ENDPOINT_CHANGED | REENROLLED | ATTESTATION_VERIFIED | REFRESH_SCHEDULED | REFRESH_RETRY
| EVIDENCE_EXPIRED | VERIFICATION_FAILED | RETRY_EXHAUSTED | POLICY_REVOKED | IDENTITY_CONFLICT
| OPERATOR_RETIRING | OPERATOR_RETIRED | WORKER_REMOVED | REFRESH_CANCELLED | BACKFILL_PENDING
| BACKFILL_STALE

definition TERMINAL_STATES :: "WorkerLifecycleState set" where
  "TERMINAL_STATES = {RETIRED, REVOKED}"

definition NETWORK_ELIGIBLE_STATES :: "WorkerLifecycleState set" where
  "NETWORK_ELIGIBLE_STATES = {PENDING, ATTESTED, STALE}"

definition CAPACITY_CONSUMING_STATES :: "WorkerLifecycleState set" where
  "CAPACITY_CONSUMING_STATES = NETWORK_ELIGIBLE_STATES \<union> {RETIRING, REVOKED}"

fun ALLOWED_TRANSITIONS :: "WorkerLifecycleState \<Rightarrow> WorkerLifecycleState set" where
  "ALLOWED_TRANSITIONS PENDING = {PENDING, ATTESTED, FAILED, RETIRING, REVOKED}"
| "ALLOWED_TRANSITIONS ATTESTED = {ATTESTED, STALE, FAILED, RETIRING, REVOKED}"
| "ALLOWED_TRANSITIONS STALE = {STALE, ATTESTED, FAILED, RETIRING, REVOKED}"
| "ALLOWED_TRANSITIONS FAILED = {FAILED, RETIRING, REVOKED}"
| "ALLOWED_TRANSITIONS RETIRING = {RETIRING, RETIRED, REVOKED}"
| "ALLOWED_TRANSITIONS RETIRED = {RETIRED}"
| "ALLOWED_TRANSITIONS REVOKED = {REVOKED}"

text \<open>A reason without an entry has the empty target set (\<^verbatim>\<open>dict.get(reason, frozenset())\<close>).\<close>

fun REASON_TARGETS :: "LifecycleReason \<Rightarrow> WorkerLifecycleState set" where
  "REASON_TARGETS ATTESTATION_VERIFIED = {ATTESTED}"
| "REASON_TARGETS REFRESH_SCHEDULED = {PENDING, ATTESTED, STALE}"
| "REASON_TARGETS REFRESH_RETRY = {PENDING, ATTESTED, STALE}"
| "REASON_TARGETS REFRESH_CANCELLED = {PENDING, ATTESTED, STALE}"
| "REASON_TARGETS EVIDENCE_EXPIRED = {STALE}"
| "REASON_TARGETS VERIFICATION_FAILED = {FAILED}"
| "REASON_TARGETS RETRY_EXHAUSTED = {FAILED}"
| "REASON_TARGETS POLICY_REVOKED = {REVOKED}"
| "REASON_TARGETS IDENTITY_CONFLICT = {REVOKED}"
| "REASON_TARGETS OPERATOR_RETIRING = {RETIRING}"
| "REASON_TARGETS OPERATOR_RETIRED = {RETIRED}"
| "REASON_TARGETS WORKER_REMOVED = {RETIRED}"
| "REASON_TARGETS _ = {}"

fun SNAPSHOT_REASON_TARGETS :: "LifecycleReason \<Rightarrow> WorkerLifecycleState set" where
  "SNAPSHOT_REASON_TARGETS ENROLLED = {PENDING}"
| "SNAPSHOT_REASON_TARGETS ENDPOINT_CHANGED = {PENDING}"
| "SNAPSHOT_REASON_TARGETS REENROLLED = {PENDING}"
| "SNAPSHOT_REASON_TARGETS BACKFILL_PENDING = {PENDING}"
| "SNAPSHOT_REASON_TARGETS BACKFILL_STALE = {STALE}"
| "SNAPSHOT_REASON_TARGETS r = REASON_TARGETS r"

definition require_transition ::
  "WorkerLifecycleState \<Rightarrow> WorkerLifecycleState \<Rightarrow> LifecycleError + unit" where
  "require_transition current target =
     (if target \<notin> ALLOWED_TRANSITIONS current
      then Inl (LifecycleError ''illegal worker lifecycle transition'') else Inr ())"

definition require_transition_reason ::
  "WorkerLifecycleState \<Rightarrow> LifecycleReason \<Rightarrow> LifecycleError + unit" where
  "require_transition_reason target reason =
     (if target \<notin> REASON_TARGETS reason
      then Inl (LifecycleError ''worker lifecycle reason is invalid'') else Inr ())"

definition require_snapshot_reason ::
  "WorkerLifecycleState \<Rightarrow> LifecycleReason \<Rightarrow> LifecycleError + unit" where
  "require_snapshot_reason state reason =
     (if state \<notin> SNAPSHOT_REASON_TARGETS reason
      then Inl (LifecycleError ''worker lifecycle reason is invalid'') else Inr ())"

section \<open>Times\<close>

record civil =
  c_year :: nat
  c_month :: nat
  c_day :: nat
  c_hour :: nat
  c_minute :: nat
  c_second :: nat
  c_microsecond :: nat
  utc_offset :: "int option"

definition is_leap :: "nat \<Rightarrow> bool" where
  "is_leap y = (y mod 4 = 0 \<and> (y mod 100 \<noteq> 0 \<or> y mod 400 = 0))"

definition days_in_month :: "nat \<Rightarrow> nat \<Rightarrow> nat" where
  "days_in_month y m = (if m = 2 then (if is_leap y then 29 else 28)
     else if m \<in> {4, 6, 9, 11} then 30 else 31)"

text \<open>What the \<^verbatim>\<open>datetime\<close> constructor accepts.\<close>

definition valid_civil :: "civil \<Rightarrow> bool" where
  "valid_civil d = (1 \<le> c_year d \<and> c_year d \<le> 9999 \<and> 1 \<le> c_month d \<and> c_month d \<le> 12 \<and>
     1 \<le> c_day d \<and> c_day d \<le> days_in_month (c_year d) (c_month d) \<and>
     c_hour d < 24 \<and> c_minute d < 60 \<and> c_second d < 60 \<and> c_microsecond d < 1000000)"

definition dt_key :: "civil \<Rightarrow> nat" where
  "dt_key d = (((((c_year d * 13 + c_month d) * 32 + c_day d) * 24 + c_hour d) * 60 + c_minute d) * 60
     + c_second d) * 1000000 + c_microsecond d"

text \<open>\<^verbatim>\<open>strftime("%Y-%m-%dT%H:%M:%S.%fZ")\<close>; \<^verbatim>\<open>%Y\<close> is not padded, the other fields are.\<close>

definition canonical_utc :: "civil \<Rightarrow> LifecycleError + string" where
  "canonical_utc d =
     (if utc_offset d \<noteq> Some 0 then Inl (LifecycleError ''worker lifecycle time must be UTC'')
      else Inr (show_nat (c_year d) @ ''-'' @ pad_nat 2 (c_month d) @ ''-'' @ pad_nat 2 (c_day d) @ ''T'' @
        pad_nat 2 (c_hour d) @ '':'' @ pad_nat 2 (c_minute d) @ '':'' @ pad_nat 2 (c_second d) @ ''.'' @
        pad_nat 6 (c_microsecond d) @ ''Z''))"

text \<open>
  \<^verbatim>\<open>strptime\<close> with the same format.  Its pattern is case-insensitive, takes a four-digit year,
  one or two digits for the other fields (the day may instead be a space and a digit) and one to
  six digits of fraction, which are padded on the right.  \<^verbatim>\<open>field\<close> reads the digits before a
  separator.
\<close>

definition field :: "char list \<Rightarrow> string \<Rightarrow> (string \<times> string) option" where
  "field sep s = (case dropWhile is_digit s of
      [] \<Rightarrow> None
    | c # r \<Rightarrow> if c \<in> set sep then Some (takeWhile is_digit s, r) else None)"

definition two_digits :: "nat \<Rightarrow> nat \<Rightarrow> string \<Rightarrow> bool" where
  "two_digits lo hi t = ((length t = 1 \<or> length t = 2) \<and> lo \<le> read_nat t \<and> read_nat t \<le> hi)"

definition day_field :: "string \<Rightarrow> (string \<times> string) option" where
  "day_field s = (case s of
      c # r \<Rightarrow> if c = CHR '' '' then (case field ''Tt'' r of
           Some (t, r') \<Rightarrow> if length t = 1 then Some (t, r') else None | None \<Rightarrow> None)
         else field ''Tt'' s
    | [] \<Rightarrow> None)"

definition parse_utc :: "string \<Rightarrow> LifecycleError + civil" where
  "parse_utc s = of_option (LifecycleError ''persisted worker lifecycle time is invalid'')
     (Option.bind (field ''-'' s) (\<lambda>(y, s).
      Option.bind (field ''-'' s) (\<lambda>(mo, s).
      Option.bind (day_field s) (\<lambda>(d, s).
      Option.bind (field '':'' s) (\<lambda>(h, s).
      Option.bind (field '':'' s) (\<lambda>(mi, s).
      Option.bind (field ''.'' s) (\<lambda>(sec, s).
      Option.bind (field ''Zz'' s) (\<lambda>(f, s).
        let v = \<lparr>c_year = read_nat y, c_month = read_nat mo, c_day = read_nat d, c_hour = read_nat h,
                 c_minute = read_nat mi, c_second = read_nat sec,
                 c_microsecond = read_nat (f @ replicate (6 - length f) (CHR ''0'')), utc_offset = Some 0\<rparr> in
        if s = [] \<and> length y = 4 \<and> two_digits 1 12 mo \<and> two_digits 1 31 d \<and> two_digits 0 23 h \<and>
           two_digits 0 59 mi \<and> two_digits 0 61 sec \<and> 1 \<le> length f \<and> length f \<le> 6 \<and> valid_civil v
        then Some v else None))))))))"

section \<open>Snapshots\<close>

record LifecycleSnapshot =
  ls_hotkey :: string
  ls_state :: WorkerLifecycleState
  ls_generation :: int
  ls_revision :: int
  ls_event_id :: int
  ls_reason :: LifecycleReason
  ls_state_changed_at :: civil
  ls_evidence_verified_at :: "civil option"
  ls_evidence_expires_at :: "civil option"
  ls_measurement :: "string option"
  ls_evidence_digest :: "string option"
  ls_policy_digest :: "string option"
  ls_policy_registry_release :: "int option"
  ls_policy_registry_digest :: "string option"
  ls_retry_count :: int
  ls_next_retry_at :: "civil option"

definition positive_int64 :: "int \<Rightarrow> bool" where
  "positive_int64 v = (0 < v \<and> v \<le> 2 ^ 63 - 1)"

definition nonempty_text :: "string option \<Rightarrow> bool" where
  "nonempty_text t = (case t of None \<Rightarrow> False | Some s \<Rightarrow> s \<noteq> [])"

definition check_time :: "civil option \<Rightarrow> LifecycleError + unit" where
  "check_time t = (case t of None \<Rightarrow> Inr () | Some d \<Rightarrow> bindE (canonical_utc d) (\<lambda>_. Inr ()))"

definition attested_complete :: "LifecycleSnapshot \<Rightarrow> bool" where
  "attested_complete s = (
     (case (ls_evidence_verified_at s, ls_evidence_expires_at s) of
        (Some v, Some e) \<Rightarrow> dt_key v \<le> dt_key (ls_state_changed_at s) \<and> dt_key (ls_state_changed_at s) < dt_key e
      | _ \<Rightarrow> False) \<and>
     nonempty_text (ls_measurement s) \<and> nonempty_text (ls_evidence_digest s) \<and> nonempty_text (ls_policy_digest s))"

definition check_snapshot :: "LifecycleSnapshot \<Rightarrow> LifecycleError + LifecycleSnapshot" where
  "check_snapshot s =
     bindE (ensure (ls_hotkey s \<noteq> [] \<and> length (ls_hotkey s) \<le> 512 \<and> positive_int64 (ls_generation s) \<and>
         positive_int64 (ls_revision s) \<and> positive_int64 (ls_event_id s) \<and> 0 \<le> ls_retry_count s)
       (LifecycleError ''worker lifecycle snapshot is invalid'')) (\<lambda>_.
     bindE (canonical_utc (ls_state_changed_at s)) (\<lambda>_.
     bindE (require_snapshot_reason (ls_state s) (ls_reason s)) (\<lambda>_.
     bindE (check_time (ls_evidence_verified_at s)) (\<lambda>_.
     bindE (check_time (ls_evidence_expires_at s)) (\<lambda>_.
     bindE (check_time (ls_next_retry_at s)) (\<lambda>_.
     bindE (ensure (case (ls_evidence_verified_at s, ls_evidence_expires_at s) of
         (Some v, Some e) \<Rightarrow> dt_key v < dt_key e | _ \<Rightarrow> True)
       (LifecycleError ''worker lifecycle evidence window is invalid'')) (\<lambda>_.
     bindE (ensure (ls_state s = ATTESTED \<longrightarrow> attested_complete s)
       (LifecycleError ''attested worker lifecycle snapshot is incomplete'')) (\<lambda>_.
     bindE (ensure ((ls_policy_registry_release s = None) = (ls_policy_registry_digest s = None))
       (LifecycleError ''worker lifecycle policy registry reference is invalid'')) (\<lambda>_.
     bindE (ensure (case (ls_policy_registry_release s, ls_policy_registry_digest s) of
         (Some r, Some d) \<Rightarrow> positive_int64 r \<and> is_sha256_label d | _ \<Rightarrow> True)
       (LifecycleError ''worker lifecycle policy registry reference is invalid'')) (\<lambda>_.
     Inr s))))))))))"

definition eligible_at :: "LifecycleSnapshot \<Rightarrow> civil \<Rightarrow> LifecycleError + bool" where
  "eligible_at s w = bindE (canonical_utc w) (\<lambda>_.
     Inr (ls_state s = ATTESTED \<and>
       (case ls_evidence_expires_at s of None \<Rightarrow> False | Some e \<Rightarrow> dt_key w < dt_key e)))"

section \<open>Retry delay\<close>

definition retry_delay_seconds ::
  "string \<Rightarrow> nat \<Rightarrow> nat \<Rightarrow> nat \<Rightarrow> nat \<Rightarrow> nat \<Rightarrow> LifecycleError + nat" where
  "retry_delay_seconds hk gen attempt base_seconds maximum_seconds jitter_seconds =
     (if hk = [] \<or> gen = 0 \<or> attempt = 0 \<or>
         \<not> (1 \<le> base_seconds \<and> base_seconds \<le> maximum_seconds \<and> maximum_seconds \<le> 86400) \<or>
         \<not> jitter_seconds \<le> maximum_seconds
      then Inl (LifecycleError ''worker lifecycle retry policy is invalid'')
      else let exponential = min maximum_seconds (base_seconds * 2 ^ min (attempt - 1) 30);
               material = utf8 (hk @ [CHR 0x00] @ show_nat gen @ [CHR 0x00] @ show_nat attempt);
               jitter = (if jitter_seconds \<noteq> 0
                         then nat_of_be (take 8 (sha256 material)) mod (jitter_seconds + 1) else 0)
           in Inr (min maximum_seconds (exponential + jitter)))"

section \<open>Single-flight refresh\<close>

datatype flight_error = Lifecycle LifecycleError | RuntimeError string

datatype 'r future_status = Queued | Running | Cancelled | Finished "flight_error + 'r"

record 'r flight =
  fl_hotkey :: string
  fl_generation :: int
  fl_cancel :: bool
  fl_status :: "'r future_status"

record 'r reattestor =
  futures :: "'r flight list"
  flights :: "string \<Rightarrow> nat option"
  closed :: bool

definition new_reattestor :: "int \<Rightarrow> exn + 'r reattestor" where
  "new_reattestor max_workers =
     (if \<not> (1 \<le> max_workers \<and> max_workers \<le> 64) then Inl (ValueError ''max_workers must be between 1 and 64'')
      else Inr \<lparr>futures = [], flights = Map.empty, closed = False\<rparr>)"

fun is_done :: "'r future_status \<Rightarrow> bool" where
  "is_done Queued = False"
| "is_done Running = False"
| "is_done _ = True"

definition set_cancel :: "nat \<Rightarrow> 'r reattestor \<Rightarrow> 'r reattestor" where
  "set_cancel i st = st\<lparr>futures := (futures st)[i := (futures st ! i)\<lparr>fl_cancel := True\<rparr>]\<rparr>"

definition set_status :: "nat \<Rightarrow> 'r future_status \<Rightarrow> 'r reattestor \<Rightarrow> 'r reattestor" where
  "set_status i v st = st\<lparr>futures := (futures st)[i := (futures st ! i)\<lparr>fl_status := v\<rparr>]\<rparr>"

text \<open>The section of \<^verbatim>\<open>run\<close> under the lock: the flight to wait for, or an error.\<close>

definition run_submit ::
  "string \<Rightarrow> int \<Rightarrow> seconds \<Rightarrow> 'r reattestor \<Rightarrow> (flight_error + nat) \<times> 'r reattestor" where
  "run_submit hk gen timeout st =
     (if hk = [] then (Inl (Lifecycle (LifecycleError ''refresh hotkey is invalid'')), st)
      else if gen \<le> 0 then (Inl (Lifecycle (LifecycleError ''refresh generation is invalid'')), st)
      else if timeout \<le> 0 then (Inl (Lifecycle (LifecycleError ''refresh timeout must be positive'')), st)
      else let fresh =
          (if closed st then (Inl (RuntimeError ''cannot schedule new futures after shutdown''), st)
           else let i = length (futures st) in
             (Inr i, st\<lparr>futures := futures st @
                 [\<lparr>fl_hotkey = hk, fl_generation = gen, fl_cancel = False, fl_status = Queued\<rparr>],
               flights := (flights st)(hk \<mapsto> i)\<rparr>))
        in case flights st hk of
            None \<Rightarrow> fresh
          | Some i \<Rightarrow>
              if \<not> is_done (fl_status (futures st ! i)) then
                if fl_generation (futures st ! i) \<noteq> gen
                then (Inl (Lifecycle (LifecycleError ''worker generation changed during refresh'')), set_cancel i st)
                else (Inr i, st)
              else fresh)"

text \<open>The end of \<^verbatim>\<open>run\<close>: the wait for the flight either times out or has its outcome.\<close>

definition run_wait :: "bool \<Rightarrow> nat \<Rightarrow> 'r reattestor \<Rightarrow> (flight_error + 'r) option \<times> 'r reattestor" where
  "run_wait timed_out i st =
     (case fl_status (futures st ! i) of
        Finished r \<Rightarrow> (Some r, st)
      | Cancelled \<Rightarrow> (Some (Inl (RuntimeError ''cancelled'')), st)
      | _ \<Rightarrow> if timed_out
           then (Some (Inl (Lifecycle (LifecycleError ''worker re-attestation timed out''))), set_cancel i st)
           else (None, st))"

definition cancelled_error :: "flight_error + 'r" where
  "cancelled_error = Inl (Lifecycle (LifecycleError ''worker re-attestation was cancelled''))"

text \<open>\<^verbatim>\<open>_invoke\<close> on an executor thread: the check before the operation, and the one after it.\<close>

definition invoke_start :: "nat \<Rightarrow> 'r reattestor \<Rightarrow> 'r reattestor" where
  "invoke_start i st =
     (if fl_cancel (futures st ! i) then set_status i (Finished cancelled_error) st
      else set_status i Running st)"

definition invoke_finish :: "nat \<Rightarrow> flight_error + 'r \<Rightarrow> 'r reattestor \<Rightarrow> 'r reattestor" where
  "invoke_finish i outcome st =
     (case outcome of
        Inl e \<Rightarrow> set_status i (Finished (Inl e)) st
      | Inr r \<Rightarrow> if fl_cancel (futures st ! i) then set_status i (Finished cancelled_error) st
               else set_status i (Finished (Inr r)) st)"

definition completed :: "string \<Rightarrow> nat \<Rightarrow> 'r reattestor \<Rightarrow> 'r reattestor" where
  "completed hk i st = (if flights st hk = Some i then st\<lparr>flights := (flights st)(hk := None)\<rparr> else st)"

definition cancel :: "string \<Rightarrow> 'r reattestor \<Rightarrow> bool \<times> 'r reattestor" where
  "cancel hk st = (case flights st hk of
      None \<Rightarrow> (False, st)
    | Some i \<Rightarrow> if is_done (fl_status (futures st ! i)) then (False, st)
        else let st1 = set_cancel i st in
          (True, if fl_status (futures st ! i) = Queued then set_status i Cancelled st1 else st1))"

definition active_count :: "'r reattestor \<Rightarrow> nat" where
  "active_count st = card {hk. case flights st hk of None \<Rightarrow> False
     | Some i \<Rightarrow> \<not> is_done (fl_status (futures st ! i))}"

text \<open>\<^verbatim>\<open>close\<close>: every registered flight is cancelled, then the queue is dropped by \<^verbatim>\<open>shutdown\<close>.\<close>

definition close :: "'r reattestor \<Rightarrow> 'r reattestor" where
  "close st = st\<lparr>
     futures := map (\<lambda>i. let f = futures st ! i;
           f1 = (if flights st (fl_hotkey f) = Some i then f\<lparr>fl_cancel := True\<rparr> else f)
         in if fl_status f1 = Queued then f1\<lparr>fl_status := Cancelled\<rparr> else f1) [0..<length (futures st)],
     closed := True\<rparr>"

inductive sf_step :: "'r reattestor \<Rightarrow> 'r reattestor \<Rightarrow> bool" where
  sf_submit: "run_submit hk gen t st = (r, st') \<Longrightarrow> sf_step st st'"
| sf_wait: "i < length (futures st) \<Longrightarrow> run_wait b i st = (r, st') \<Longrightarrow> sf_step st st'"
| sf_start: "i < length (futures st) \<Longrightarrow> fl_status (futures st ! i) = Queued \<Longrightarrow> sf_step st (invoke_start i st)"
| sf_finish: "i < length (futures st) \<Longrightarrow> fl_status (futures st ! i) = Running \<Longrightarrow>
    sf_step st (invoke_finish i out st)"
| sf_completed: "i < length (futures st) \<Longrightarrow> is_done (fl_status (futures st ! i)) \<Longrightarrow>
    sf_step st (completed (fl_hotkey (futures st ! i)) i st)"
| sf_cancel: "cancel hk st = (r, st') \<Longrightarrow> sf_step st st'"
| sf_close: "sf_step st (close st)"

definition sf_start_state :: "'r reattestor \<Rightarrow> bool" where
  "sf_start_state st = (\<exists>n. new_reattestor n = Inr st)"

section \<open>The transition table\<close>

text \<open>One recorded transition: the pair of checks that guard a lifecycle write.\<close>

definition lifecycle_step :: "WorkerLifecycleState \<Rightarrow> WorkerLifecycleState \<Rightarrow> bool" where
  "lifecycle_step s t = (\<exists>r. require_transition s t = Inr () \<and> require_transition_reason t r = Inr ())"

lemma lifecycle_step_allowed: "lifecycle_step s t \<Longrightarrow> t \<in> ALLOWED_TRANSITIONS s"
  by (auto simp: lifecycle_step_def require_transition_def split: if_splits)

definition withdrawn :: "WorkerLifecycleState \<Rightarrow> bool" where
  "withdrawn s = (s \<in> {FAILED, RETIRING, RETIRED, REVOKED})"

interpretation withdrawn_run: invariant_system "\<lambda>s. s = FAILED \<or> s = RETIRING" lifecycle_step withdrawn
proof
  fix s t assume w: "withdrawn s" and st: "lifecycle_step s t"
  from lifecycle_step_allowed [OF st] w show "withdrawn t"
    by (cases s) (auto simp: withdrawn_def)
qed (auto simp: withdrawn_def)

interpretation terminal_run: invariant_system "\<lambda>s. s \<in> TERMINAL_STATES" lifecycle_step "\<lambda>s. s \<in> TERMINAL_STATES"
proof
  fix s t assume w: "s \<in> TERMINAL_STATES" and st: "lifecycle_step s t"
  from lifecycle_step_allowed [OF st] w show "t \<in> TERMINAL_STATES"
    by (cases s) (auto simp: TERMINAL_STATES_def)
qed simp

lemma terminal_fixed: "lifecycle_step s t \<Longrightarrow> s \<in> TERMINAL_STATES \<Longrightarrow> t = s"
  using lifecycle_step_allowed [of s t] by (cases s) (auto simp: TERMINAL_STATES_def)

lemma terminal_run_fixed: "rtranclp lifecycle_step s t \<Longrightarrow> s \<in> TERMINAL_STATES \<Longrightarrow> t = s"
  by (induction rule: rtranclp_induct) (auto dest: terminal_fixed)



text \<open>Every accepted change of state into \<open>ATTESTED\<close> has a reason that names an attestation or a refresh.\<close>

lemma attested_reason:
  "require_transition_reason ATTESTED r = Inr () \<Longrightarrow>
     r \<in> {ATTESTATION_VERIFIED, REFRESH_SCHEDULED, REFRESH_RETRY, REFRESH_CANCELLED}"
  by (cases r) (auto simp: require_transition_reason_def split: if_splits)

lemma snapshot_targets_extend: "REASON_TARGETS r \<subseteq> SNAPSHOT_REASON_TARGETS r"
  by (cases r) auto

section \<open>Times and snapshots\<close>

lemma field_digits:
  assumes "list_all is_digit t" "c \<in> set sep" "\<not> is_digit c"
  shows "field sep (t @ c # r) = Some (t, r)"
proof -
  have "dropWhile is_digit (t @ c # r) = c # r" "takeWhile is_digit (t @ c # r) = t"
    using assms(1,3) by (induction t) auto
  then show ?thesis using assms(2) by (simp add: field_def)
qed

lemma nondigits: "\<not> is_digit (CHR ''-'')" "\<not> is_digit (CHR ''T'')" "\<not> is_digit (CHR '':'')"
    "\<not> is_digit (CHR ''.'')" "\<not> is_digit (CHR ''Z'')" "\<not> is_digit (CHR '' '')"
  by (simp_all add: is_digit_def char_in_range_def)

lemma show_nat_year: "1000 \<le> y \<Longrightarrow> y \<le> 9999 \<Longrightarrow> length (show_nat y) = 4"
  using length_show_nat [of 3 y] by simp

lemma two_digits_pad: "lo \<le> n \<Longrightarrow> n \<le> hi \<Longrightarrow> n < 100 \<Longrightarrow> two_digits lo hi (pad_nat 2 n)"
  by (simp add: two_digits_def)

lemma day_field_pad:
  "day_field (pad_nat 2 n @ CHR ''T'' # r) = Some (pad_nat 2 n, r)"
proof -
  obtain a b where ab: "pad_nat 2 n = [a, b]"
    by (simp add: numeral_2_eq_2)
  have "is_digit a" using pad_nat_digits [of 2 n] by (simp add: ab)
  then have "a \<noteq> CHR '' ''" using nondigits(6) by auto
  then show ?thesis
    using field_digits [OF pad_nat_digits, of "CHR ''T''" "''Tt''" 2 n r] nondigits(2)
    by (simp add: day_field_def ab)
qed

text \<open>
  The persisted time format round-trips.  Every valid UTC datetime from year 1000 on is rendered
  to text that the strict reader accepts and reads back to the same datetime.
\<close>

lemma utc_roundtrip:
  assumes "valid_civil d" "utc_offset d = Some 0" "1000 \<le> c_year d"
  shows "bindE (canonical_utc d) parse_utc = Inr d"
proof -
  have v: "c_month d < 100" "c_day d < 100" "c_hour d < 100" "c_minute d < 100" "c_second d < 100"
      "c_microsecond d < 1000000" "c_year d \<le> 9999" "c_day d \<le> 31"
    using assms(1) by (auto simp: valid_civil_def days_in_month_def split: if_splits)
  have tw: "two_digits 1 12 (pad_nat 2 (c_month d))" "two_digits 1 31 (pad_nat 2 (c_day d))"
      "two_digits 0 23 (pad_nat 2 (c_hour d))" "two_digits 0 59 (pad_nat 2 (c_minute d))"
      "two_digits 0 61 (pad_nat 2 (c_second d))"
    using assms(1) v by (auto simp: valid_civil_def intro!: two_digits_pad)
  note f = field_digits [OF conjunct1 [OF show_nat_digits]] field_digits [OF pad_nat_digits]
  have yl: "length (show_nat (c_year d)) = 4" using show_nat_year assms(3) v(7) by blast
  obtain y m dd h mi sec us off where d: "d = \<lparr>c_year = y, c_month = m, c_day = dd, c_hour = h,
      c_minute = mi, c_second = sec, c_microsecond = us, utc_offset = off\<rparr>" by (cases d)
  show ?thesis
    using assms v tw yl nondigits unfolding d
    by (simp add: canonical_utc_def parse_utc_def f day_field_pad)
qed

lemma utc_roundtrip_witness:
  "bindE (canonical_utc \<lparr>c_year = 2026, c_month = 2, c_day = 28, c_hour = 23, c_minute = 59,
      c_second = 7, c_microsecond = 90, utc_offset = Some 0\<rparr>) parse_utc =
   Inr \<lparr>c_year = 2026, c_month = 2, c_day = 28, c_hour = 23, c_minute = 59,
      c_second = 7, c_microsecond = 90, utc_offset = Some 0\<rparr>"
  by (rule utc_roundtrip) (simp_all add: valid_civil_def days_in_month_def is_leap_def)

text \<open>
  An eligible worker has live evidence.  If a snapshot passed its construction checks and is
  eligible at an instant, then its state is attested, its evidence was verified no later than the
  state change, expires after both the state change and that instant, and its measurement, evidence
  digest and policy digest are present.
\<close>

lemma eligible_snapshot_evidence:
  assumes "check_snapshot s = Inr s'" "eligible_at s' w = Inr True"
  shows "s' = s \<and> ls_state s = ATTESTED \<and>
    (\<exists>v e m ed pd. ls_evidence_verified_at s = Some v \<and> ls_evidence_expires_at s = Some e \<and>
       dt_key v \<le> dt_key (ls_state_changed_at s) \<and> dt_key (ls_state_changed_at s) < dt_key e \<and>
       dt_key w < dt_key e \<and> utc_offset w = Some 0 \<and>
       ls_measurement s = Some m \<and> m \<noteq> [] \<and> ls_evidence_digest s = Some ed \<and> ed \<noteq> [] \<and>
       ls_policy_digest s = Some pd \<and> pd \<noteq> [])"
proof -
  have s': "s' = s" using assms(1) by (auto simp: check_snapshot_def)
  have el: "ls_state s = ATTESTED" "\<exists>e. ls_evidence_expires_at s = Some e \<and> dt_key w < dt_key e"
      "utc_offset w = Some 0"
    using assms(2) by (auto simp: s' eligible_at_def canonical_utc_def split: option.splits if_splits)
  then have "attested_complete s" using assms(1) by (auto simp: check_snapshot_def)
  with el s' show ?thesis
    by (auto simp: attested_complete_def nonempty_text_def split: option.splits)
qed

definition sample_time :: "nat \<Rightarrow> civil" where
  "sample_time h = \<lparr>c_year = 2026, c_month = 1, c_day = 2, c_hour = h, c_minute = 0, c_second = 0,
     c_microsecond = 0, utc_offset = Some 0\<rparr>"

definition sample_snapshot :: LifecycleSnapshot where
  "sample_snapshot = \<lparr>ls_hotkey = ''5F'', ls_state = ATTESTED, ls_generation = 1, ls_revision = 1,
     ls_event_id = 1, ls_reason = ATTESTATION_VERIFIED, ls_state_changed_at = sample_time 2,
     ls_evidence_verified_at = Some (sample_time 1), ls_evidence_expires_at = Some (sample_time 9),
     ls_measurement = Some ''m'', ls_evidence_digest = Some ''e'', ls_policy_digest = Some ''p'',
     ls_policy_registry_release = None, ls_policy_registry_digest = None, ls_retry_count = 0,
     ls_next_retry_at = None\<rparr>"

lemma eligible_snapshot_evidence_witness:
  "check_snapshot sample_snapshot = Inr sample_snapshot \<and>
   eligible_at sample_snapshot (sample_time 5) = Inr True \<and> ls_state sample_snapshot = ATTESTED"
proof -
  have c: "check_snapshot sample_snapshot = Inr sample_snapshot"
    by (simp add: check_snapshot_def sample_snapshot_def sample_time_def canonical_utc_def check_time_def
          require_snapshot_reason_def positive_int64_def attested_complete_def nonempty_text_def dt_key_def
          ensure_def)
  have e: "eligible_at sample_snapshot (sample_time 5) = Inr True"
    by (simp add: eligible_at_def sample_snapshot_def sample_time_def canonical_utc_def dt_key_def)
  show ?thesis using eligible_snapshot_evidence [OF c e] c e by blast
qed

section \<open>Retry delay\<close>

lemma min_shift_saturates:
  fixes b m :: nat
  assumes "1 \<le> b" "m \<le> 86400" "17 \<le> k"
  shows "min m (b * 2 ^ k) = m"
proof -
  have "(2 :: nat) ^ 17 \<le> 2 ^ k" using assms(3) by (rule power_increasing) simp
  also have "\<dots> \<le> b * 2 ^ k" using assms(1) by simp
  finally show ?thesis using assms(2) by simp
qed

text \<open>
  The retry delay is bounded and saturates.  Whenever the policy is accepted the delay lies between
  the base and the maximum, is at least the exponential step, and from the eighteenth attempt on it
  is exactly the maximum, whatever the jitter.
\<close>

lemma retry_delay_bounds:
  assumes "retry_delay_seconds hk gen attempt base maxs jit = Inr d"
  shows "base \<le> d \<and> d \<le> maxs \<and> maxs \<le> 86400 \<and>
    min maxs (base * 2 ^ min (attempt - 1) 30) \<le> d \<and> (18 \<le> attempt \<longrightarrow> d = maxs)"
proof -
  have g: "1 \<le> base" "base \<le> maxs" "maxs \<le> 86400" "1 \<le> attempt"
    using assms by (auto simp: retry_delay_seconds_def split: if_splits)
  define e where "e = min maxs (base * 2 ^ min (attempt - 1) 30)"
  define j where "j = (if jit \<noteq> 0 then nat_of_be (take 8 (sha256 (utf8
      (hk @ [CHR 0x00] @ show_nat gen @ [CHR 0x00] @ show_nat attempt)))) mod (jit + 1) else 0)"
  have d: "d = min maxs (e + j)"
    using assms unfolding retry_delay_seconds_def Let_def e_def [symmetric] j_def [symmetric]
    by (simp split: if_splits)
  have "base * 1 \<le> base * 2 ^ min (attempt - 1) 30" by (intro mult_le_mono2) simp
  then have "base \<le> e" using g(2) by (simp add: e_def)
  moreover have "18 \<le> attempt \<Longrightarrow> e = maxs"
    unfolding e_def using g by (intro min_shift_saturates) simp_all
  moreover have "e \<le> maxs" by (simp add: e_def)
  ultimately show ?thesis using g d unfolding e_def [symmetric] by auto
qed

lemma retry_delay_bounds_witness:
  "\<exists>d. retry_delay_seconds ''5F'' 1 20 5 600 0 = Inr d \<and> d = 600"
proof -
  have r: "\<exists>d. retry_delay_seconds ''5F'' 1 20 5 600 0 = Inr d"
    by (simp add: retry_delay_seconds_def Let_def)
  then obtain d where d: "retry_delay_seconds ''5F'' 1 20 5 600 0 = Inr d" ..
  with retry_delay_bounds [OF d] show ?thesis by simp
qed

section \<open>Single flight\<close>

text \<open>Every future that is not done is the registered flight of its hotkey.\<close>

definition sf_inv :: "'r reattestor \<Rightarrow> bool" where
  "sf_inv st = ((\<forall>i < length (futures st). \<not> is_done (fl_status (futures st ! i)) \<longrightarrow>
       flights st (fl_hotkey (futures st ! i)) = Some i) \<and>
     (\<forall>hk i. flights st hk = Some i \<longrightarrow> i < length (futures st) \<and> fl_hotkey (futures st ! i) = hk))"

text \<open>A change of one future that keeps its hotkey and does not revive it keeps the invariant.\<close>

lemma sf_inv_update:
  assumes "sf_inv st" "fl_hotkey f = fl_hotkey (futures st ! i)"
    "is_done (fl_status (futures st ! i)) \<longrightarrow> is_done (fl_status f)"
  shows "sf_inv (st\<lparr>futures := (futures st)[i := f]\<rparr>)"
  using assms unfolding sf_inv_def
  by (auto simp: nth_list_update_any)

lemma sf_inv_set_cancel: "sf_inv st \<Longrightarrow> sf_inv (set_cancel i st)"
  by (simp add: set_cancel_def sf_inv_update)

lemma sf_inv_set_status:
  "sf_inv st \<Longrightarrow> is_done (fl_status (futures st ! i)) \<longrightarrow> is_done v \<Longrightarrow> sf_inv (set_status i v st)"
  by (simp add: set_status_def sf_inv_update)

lemma sf_inv_fresh:
  assumes "sf_inv st" "flights st hk = None \<or> (\<exists>i. flights st hk = Some i \<and> is_done (fl_status (futures st ! i)))"
    and "fl_hotkey f = hk"
  shows "sf_inv (st\<lparr>futures := futures st @ [f], flights := (flights st)(hk \<mapsto> length (futures st))\<rparr>)"
proof -
  let ?n = "length (futures st)"
  have u: "\<And>i. i < ?n \<Longrightarrow> \<not> is_done (fl_status (futures st ! i)) \<Longrightarrow> flights st (fl_hotkey (futures st ! i)) = Some i"
    and r: "\<And>k i. flights st k = Some i \<Longrightarrow> i < ?n \<and> fl_hotkey (futures st ! i) = k"
    using assms(1) by (auto simp: sf_inv_def)
  have "fl_hotkey (futures st ! i) \<noteq> hk" if "i < ?n" "\<not> is_done (fl_status (futures st ! i))" for i
    using u [OF that] assms(2) that by auto
  then show ?thesis
    unfolding sf_inv_def using u r assms(3) by (auto simp: nth_append less_Suc_eq)
qed

lemma sf_inv_submit:
  assumes "sf_inv st" "run_submit hk gen t st = (r, st')"
  shows "sf_inv st'"
proof -
  have f: "sf_inv (st\<lparr>futures := futures st @ [\<lparr>fl_hotkey = hk, fl_generation = gen, fl_cancel = False, fl_status = Queued\<rparr>],
      flights := (flights st)(hk \<mapsto> length (futures st))\<rparr>)"
    if "flights st hk = None \<or> (\<exists>i. flights st hk = Some i \<and> is_done (fl_status (futures st ! i)))"
    by (rule sf_inv_fresh [OF assms(1) that]) simp
  show ?thesis
    using assms f unfolding run_submit_def Let_def
    by (auto split: if_splits option.splits intro: sf_inv_set_cancel)
qed

lemma sf_inv_wait: "sf_inv st \<Longrightarrow> run_wait b i st = (r, st') \<Longrightarrow> sf_inv st'"
  by (auto simp: run_wait_def split: future_status.splits if_splits intro: sf_inv_set_cancel)

lemma sf_inv_cancel: "sf_inv st \<Longrightarrow> cancel hk st = (r, st') \<Longrightarrow> sf_inv st'"
  by (auto simp: cancel_def Let_def split: option.splits if_splits
        intro!: sf_inv_set_cancel sf_inv_set_status)

lemma sf_inv_completed:
  assumes "sf_inv st" "is_done (fl_status (futures st ! i))"
  shows "sf_inv (completed hk i st)"
proof (cases "flights st hk = Some i")
  case True
  let ?f = "(flights st)(hk := None)"
  have "?f (fl_hotkey (futures st ! j)) = Some j"
    if "j < length (futures st)" "\<not> is_done (fl_status (futures st ! j))" for j
  proof -
    have "flights st (fl_hotkey (futures st ! j)) = Some j" using assms(1) that by (simp add: sf_inv_def)
    moreover have "j \<noteq> i" using assms(2) that(2) by blast
    ultimately show ?thesis using True by (cases "fl_hotkey (futures st ! j) = hk") simp_all
  qed
  moreover have "\<forall>k j. ?f k = Some j \<longrightarrow> j < length (futures st) \<and> fl_hotkey (futures st ! j) = k"
    using assms(1) by (simp add: sf_inv_def)
  ultimately show ?thesis using True by (simp add: completed_def sf_inv_def)
qed (use assms in \<open>simp add: completed_def\<close>)

definition close_flight :: "'r reattestor \<Rightarrow> nat \<Rightarrow> 'r flight" where
  "close_flight st i = (let f = futures st ! i;
       f1 = (if flights st (fl_hotkey f) = Some i then f\<lparr>fl_cancel := True\<rparr> else f)
     in if fl_status f1 = Queued then f1\<lparr>fl_status := Cancelled\<rparr> else f1)"

lemma close_eq: "close st = st\<lparr>futures := map (close_flight st) [0..<length (futures st)], closed := True\<rparr>"
  by (simp add: close_def close_flight_def)

lemma close_flight_props:
  "fl_hotkey (close_flight st i) = fl_hotkey (futures st ! i)"
  "\<not> is_done (fl_status (close_flight st i)) \<Longrightarrow> \<not> is_done (fl_status (futures st ! i))"
  "fl_cancel (futures st ! i) \<Longrightarrow> fl_cancel (close_flight st i)"
  "fl_status (close_flight st i) = Finished x \<Longrightarrow> fl_status (futures st ! i) = Finished x"
  by (auto simp: close_flight_def Let_def split: if_splits)

lemma close_simps [simp]:
  "length (futures (close st)) = length (futures st)" "flights (close st) = flights st"
  "i < length (futures st) \<Longrightarrow> futures (close st) ! i = close_flight st i"
  by (simp_all add: close_eq)

lemma sf_inv_close: "sf_inv st \<Longrightarrow> sf_inv (close st)"
  unfolding sf_inv_def by (auto simp: close_flight_props(1) dest: close_flight_props(2))

lemma sf_inv_step: "sf_step st st' \<Longrightarrow> sf_inv st \<Longrightarrow> sf_inv st'"
proof (induction rule: sf_step.induct)
  case (sf_start i st)
  then show ?case by (simp add: invoke_start_def sf_inv_set_status)
next
  case (sf_finish i st out)
  then show ?case by (auto simp: invoke_finish_def split: sum.splits intro!: sf_inv_set_status)
qed (auto intro: sf_inv_submit sf_inv_wait sf_inv_cancel sf_inv_completed sf_inv_close)

interpretation single_flight: invariant_system sf_start_state sf_step sf_inv
proof
  fix st :: "'r reattestor" assume "sf_start_state st"
  then show "sf_inv st" by (auto simp: sf_start_state_def new_reattestor_def sf_inv_def split: if_splits)
qed (rule sf_inv_step)

text \<open>
  C20: refreshes are single-flight.  In every state the control can reach, two refreshes of the same
  worker that are not finished are the same refresh, whatever the interleaving of callers, executor
  threads, timeouts, cancellations and shutdown.
\<close>

theorem single_flight_per_hotkey:
  assumes "reach sf_start_state sf_step st" "i < length (futures st)" "j < length (futures st)"
    and "\<not> is_done (fl_status (futures st ! i))" "\<not> is_done (fl_status (futures st ! j))"
    and "fl_hotkey (futures st ! i) = fl_hotkey (futures st ! j)"
  shows "i = j"
  using single_flight.reach_inv [OF assms(1)] assms(2-) unfolding sf_inv_def by (metis option.inject)

definition sample_reattestor :: "nat reattestor" where
  "sample_reattestor = \<lparr>futures = [\<lparr>fl_hotkey = ''5F'', fl_generation = 1, fl_cancel = False, fl_status = Queued\<rparr>],
     flights = [''5F'' \<mapsto> 0], closed = False\<rparr>"

lemma sample_reattestor_reach: "reach sf_start_state sf_step sample_reattestor"
proof -
  let ?s = "\<lparr>futures = [], flights = Map.empty, closed = False\<rparr> :: nat reattestor"
  have "new_reattestor 8 = Inr ?s" by (simp add: new_reattestor_def)
  then have r: "reach sf_start_state sf_step ?s"
    by (intro reach_start) (auto simp: sf_start_state_def)
  have "run_submit ''5F'' 1 10 ?s = (Inr 0, sample_reattestor)"
    by (simp add: run_submit_def sample_reattestor_def)
  then show ?thesis using reach_step [OF r] sf_submit by blast
qed

theorem single_flight_per_hotkey_witness:
  "\<exists>st :: nat reattestor. reach sf_start_state sf_step st \<and> 0 < length (futures st) \<and>
     \<not> is_done (fl_status (futures st ! 0)) \<and> (0 :: nat) = 0"
proof -
  have "0 < length (futures sample_reattestor)" "\<not> is_done (fl_status (futures sample_reattestor ! 0))"
    by (simp_all add: sample_reattestor_def)
  with single_flight_per_hotkey [OF sample_reattestor_reach, of 0 0] sample_reattestor_reach
  show ?thesis by blast
qed

text \<open>A flight whose cancel flag is set while it is not done never delivers a result.\<close>

definition doomed :: "nat \<Rightarrow> 'r reattestor \<Rightarrow> bool" where
  "doomed i st = (i < length (futures st) \<and> fl_cancel (futures st ! i) \<and>
     (\<forall>r. fl_status (futures st ! i) \<noteq> Finished (Inr r)))"

lemma doomed_set_cancel: "doomed i st \<Longrightarrow> doomed i (set_cancel j st)"
  by (auto simp: doomed_def set_cancel_def nth_list_update_any)

lemma doomed_set_status:
  "doomed i st \<Longrightarrow> (i = j \<Longrightarrow> \<forall>r. v \<noteq> Finished (Inr r)) \<Longrightarrow> doomed i (set_status j v st)"
  by (auto simp: doomed_def set_status_def nth_list_update_any)

lemma doomed_submit: "doomed i st \<Longrightarrow> run_submit hk gen t st = (r, st') \<Longrightarrow> doomed i st'"
  unfolding run_submit_def Let_def
  by (auto split: if_splits option.splits intro: doomed_set_cancel) (auto simp: doomed_def nth_append)

lemma doomed_close: "doomed i st \<Longrightarrow> doomed i (close st)"
  unfolding doomed_def by (auto simp: close_flight_props(3) dest: close_flight_props(4))

lemma doomed_step: "sf_step st st' \<Longrightarrow> doomed i st \<Longrightarrow> doomed i st'"
proof (induction rule: sf_step.induct)
  case (sf_start j st)
  then show ?case by (auto simp: invoke_start_def cancelled_error_def intro!: doomed_set_status)
next
  case (sf_finish j st out)
  then have "fl_cancel (futures st ! i)" by (simp add: doomed_def)
  with sf_finish show ?case
    by (auto simp: invoke_finish_def cancelled_error_def split: sum.splits intro!: doomed_set_status)
next
  case (sf_wait j st b r st')
  then show ?case
    by (auto simp: run_wait_def split: future_status.splits if_splits intro: doomed_set_cancel)
next
  case (sf_cancel hk st r st')
  then show ?case
    by (auto simp: cancel_def Let_def split: option.splits if_splits
          intro!: doomed_set_cancel doomed_set_status)
next
  case (sf_completed j st)
  then show ?case by (simp add: completed_def doomed_def)
qed (auto intro: doomed_submit doomed_close)

interpretation doomed_flight: invariant_system "doomed i" sf_step "doomed i" for i
  by unfold_locales (auto intro: doomed_step)

text \<open>
  A cancelled refresh never succeeds.  If the cancel flag of a refresh is set before it is done
  (by a generation change, a timeout, a cancellation or shutdown), then in no later state does that
  refresh hold a result.
\<close>

lemma cancelled_refresh_never_succeeds:
  assumes "rtranclp sf_step st st'" "i < length (futures st)"
    and "fl_cancel (futures st ! i)" "\<not> is_done (fl_status (futures st ! i))"
  shows "fl_status (futures st' ! i) \<noteq> Finished (Inr r)"
proof -
  have "doomed i st" using assms(2-) by (auto simp: doomed_def)
  then have "doomed i st'" by (rule doomed_flight.run_inv [OF assms(1)])
  then show ?thesis by (simp add: doomed_def)
qed

lemma cancelled_refresh_never_succeeds_witness:
  "fl_status (futures (invoke_start 0 (set_cancel 0 sample_reattestor)) ! 0) \<noteq> Finished (Inr 3)"
proof (rule cancelled_refresh_never_succeeds)
  let ?s = "set_cancel 0 sample_reattestor"
  show "rtranclp sf_step ?s (invoke_start 0 ?s)"
    by (intro r_into_rtranclp sf_start) (simp_all add: sample_reattestor_def set_cancel_def)
qed (simp_all add: sample_reattestor_def set_cancel_def)

end
