(* ===== verification/Relaunch.thy ===== *)
theory Relaunch
  imports Lifecycle
begin

text \<open>
  \<^verbatim>\<open>src/cathedral/tee_box/relaunch.py\<close>: the control plane's relaunch state machine.  Each pure
  transition is a function to \<open>RelaunchError\<close> or the next state; a time is the
  datetime in UTC.  The invariant shows that a box is ready only on a boot other than the one
  that was released, with a pinned key.
\<close>

datatype RelaunchPhase = IDLE | DRAINED_NEEDS_RELAUNCH | RELAUNCH_REQUESTED | WAITING_FRESH_BOOT | ADMITTING | READY | PHASE_FAILED

datatype RelaunchError = RelaunchError string

record RelaunchState =
  rl_phase :: RelaunchPhase
  rl_box_id :: string
  rl_boot_id :: "string option"
  rl_last_released_at :: "string option"
  rl_requested_at :: "string option"
  rl_fresh_boot_id :: "string option"
  rl_pinned_spki_sha256 :: "string option"
  rl_failure_reason :: "string option"

fun phase_value :: "RelaunchPhase \<Rightarrow> string" where
  "phase_value IDLE = ''idle''"
| "phase_value DRAINED_NEEDS_RELAUNCH = ''drained_needs_relaunch''"
| "phase_value RELAUNCH_REQUESTED = ''relaunch_requested''"
| "phase_value WAITING_FRESH_BOOT = ''waiting_fresh_boot''"
| "phase_value ADMITTING = ''admitting''"
| "phase_value READY = ''ready''"
| "phase_value PHASE_FAILED = ''failed''"

definition relaunch_as_dict :: "RelaunchState \<Rightarrow> (string \<times> string option) list" where
  "relaunch_as_dict s = [(''phase'', Some (phase_value (rl_phase s))), (''box_id'', Some (rl_box_id s)),
     (''boot_id'', rl_boot_id s), (''last_released_at'', rl_last_released_at s),
     (''requested_at'', rl_requested_at s), (''fresh_boot_id'', rl_fresh_boot_id s),
     (''pinned_spki_sha256'', rl_pinned_spki_sha256 s), (''failure_reason'', rl_failure_reason s)]"

definition utc_now_iso :: "civil \<Rightarrow> string" where
  "utc_now_iso t = show_nat (c_year t) @ ''-'' @ pad_nat 2 (c_month t) @ ''-'' @ pad_nat 2 (c_day t) @ ''T'' @
     pad_nat 2 (c_hour t) @ '':'' @ pad_nat 2 (c_minute t) @ '':'' @ pad_nat 2 (c_second t) @ ''.'' @
     pad_nat 6 (c_microsecond t) @ ''Z''"

definition blank_state :: "RelaunchPhase \<Rightarrow> string \<Rightarrow> RelaunchState" where
  "blank_state p box = \<lparr>rl_phase = p, rl_box_id = box, rl_boot_id = None, rl_last_released_at = None,
     rl_requested_at = None, rl_fresh_boot_id = None, rl_pinned_spki_sha256 = None, rl_failure_reason = None\<rparr>"

definition note_release :: "string \<Rightarrow> civil \<Rightarrow> RelaunchState \<Rightarrow> RelaunchError + RelaunchState" where
  "note_release boot now s =
     (if rl_phase s \<notin> {READY, IDLE, PHASE_FAILED}
      then Inl (RelaunchError (''cannot_note_release_from:'' @ phase_value (rl_phase s)))
      else Inr ((blank_state DRAINED_NEEDS_RELAUNCH (rl_box_id s))
        \<lparr>rl_boot_id := Some boot, rl_last_released_at := Some (utc_now_iso now)\<rparr>))"

definition request_relaunch :: "civil \<Rightarrow> RelaunchState \<Rightarrow> RelaunchError + RelaunchState" where
  "request_relaunch now s =
     (if rl_phase s \<noteq> DRAINED_NEEDS_RELAUNCH
      then Inl (RelaunchError (''cannot_request_relaunch_from:'' @ phase_value (rl_phase s)))
      else Inr ((blank_state RELAUNCH_REQUESTED (rl_box_id s))
        \<lparr>rl_boot_id := rl_boot_id s, rl_last_released_at := rl_last_released_at s,
         rl_requested_at := Some (utc_now_iso now)\<rparr>))"

definition note_waiting_fresh_boot :: "RelaunchState \<Rightarrow> RelaunchError + RelaunchState" where
  "note_waiting_fresh_boot s =
     (if rl_phase s \<noteq> RELAUNCH_REQUESTED
      then Inl (RelaunchError (''cannot_wait_from:'' @ phase_value (rl_phase s)))
      else Inr ((blank_state WAITING_FRESH_BOOT (rl_box_id s))
        \<lparr>rl_boot_id := rl_boot_id s, rl_last_released_at := rl_last_released_at s,
         rl_requested_at := rl_requested_at s\<rparr>))"

definition note_fresh_boot :: "string \<Rightarrow> RelaunchState \<Rightarrow> RelaunchError + RelaunchState" where
  "note_fresh_boot fresh s =
     (if rl_phase s \<noteq> WAITING_FRESH_BOOT
      then Inl (RelaunchError (''cannot_note_fresh_boot_from:'' @ phase_value (rl_phase s)))
      else if fresh = [] \<or> Some fresh = rl_boot_id s then Inl (RelaunchError ''fresh_boot_id_must_differ'')
      else Inr ((blank_state ADMITTING (rl_box_id s))
        \<lparr>rl_boot_id := rl_boot_id s, rl_last_released_at := rl_last_released_at s,
         rl_requested_at := rl_requested_at s, rl_fresh_boot_id := Some fresh\<rparr>))"

definition complete_admit :: "string \<Rightarrow> RelaunchState \<Rightarrow> RelaunchError + RelaunchState" where
  "complete_admit spki s =
     (if rl_phase s \<noteq> ADMITTING
      then Inl (RelaunchError (''cannot_complete_admit_from:'' @ phase_value (rl_phase s)))
      else if spki = [] \<or> \<not> starts_with ''sha256:'' spki then Inl (RelaunchError ''pinned_spki_required'')
      else Inr ((blank_state READY (rl_box_id s))
        \<lparr>rl_boot_id := rl_fresh_boot_id s, rl_last_released_at := rl_last_released_at s,
         rl_requested_at := rl_requested_at s, rl_fresh_boot_id := rl_fresh_boot_id s,
         rl_pinned_spki_sha256 := Some spki\<rparr>))"

definition relaunch_fail :: "string \<Rightarrow> RelaunchState \<Rightarrow> RelaunchState" where
  "relaunch_fail reason s = s\<lparr>rl_phase := PHASE_FAILED, rl_failure_reason := Some reason\<rparr>"

definition relaunch_initial :: "string \<Rightarrow> RelaunchState" where
  "relaunch_initial box = blank_state IDLE box"

section \<open>Runs\<close>

text \<open>The state with the boot id that was last reported as released.\<close>

inductive relaunch_step :: "RelaunchState \<times> string option \<Rightarrow> RelaunchState \<times> string option \<Rightarrow> bool" where
  rs_release: "note_release boot now s = Inr s' \<Longrightarrow> relaunch_step (s, old) (s', Some boot)"
| rs_request: "request_relaunch now s = Inr s' \<Longrightarrow> relaunch_step (s, old) (s', old)"
| rs_wait: "note_waiting_fresh_boot s = Inr s' \<Longrightarrow> relaunch_step (s, old) (s', old)"
| rs_fresh: "note_fresh_boot fresh s = Inr s' \<Longrightarrow> relaunch_step (s, old) (s', old)"
| rs_admit: "complete_admit spki s = Inr s' \<Longrightarrow> relaunch_step (s, old) (s', old)"
| rs_fail: "relaunch_step (s, old) (relaunch_fail reason s, old)"

definition relaunch_start :: "string \<Rightarrow> RelaunchState \<times> string option \<Rightarrow> bool" where
  "relaunch_start box p = (p = (relaunch_initial box, None))"

definition relaunch_inv :: "string \<Rightarrow> RelaunchState \<times> string option \<Rightarrow> bool" where
  "relaunch_inv box p = (case p of (s, old) \<Rightarrow>
     rl_box_id s = box \<and>
     (rl_phase s \<in> {DRAINED_NEEDS_RELAUNCH, RELAUNCH_REQUESTED, WAITING_FRESH_BOOT, ADMITTING} \<longrightarrow>
        rl_boot_id s = old \<and> old \<noteq> None \<and> rl_last_released_at s \<noteq> None) \<and>
     (rl_phase s \<in> {ADMITTING, READY} \<longrightarrow>
        (\<exists>f. rl_fresh_boot_id s = Some f \<and> f \<noteq> [] \<and> old \<noteq> Some f \<and> old \<noteq> None)) \<and>
     (rl_phase s = READY \<longrightarrow> rl_boot_id s = rl_fresh_boot_id s \<and>
        (\<exists>k. rl_pinned_spki_sha256 s = Some k \<and> starts_with ''sha256:'' k)))"

lemmas relaunch_defs = note_release_def request_relaunch_def note_waiting_fresh_boot_def note_fresh_boot_def
  complete_admit_def relaunch_fail_def blank_state_def

lemma relaunch_step_inv: "relaunch_step p q \<Longrightarrow> relaunch_inv box p \<Longrightarrow> relaunch_inv box q"
proof (induction rule: relaunch_step.induct)
  case (rs_fresh fresh s s' old)
  then have "rl_phase s = WAITING_FRESH_BOOT" "fresh \<noteq> []" "rl_boot_id s \<noteq> Some fresh"
    "s' = (blank_state ADMITTING (rl_box_id s))\<lparr>rl_boot_id := rl_boot_id s,
       rl_last_released_at := rl_last_released_at s, rl_requested_at := rl_requested_at s, rl_fresh_boot_id := Some fresh\<rparr>"
    by (auto simp: note_fresh_boot_def split: if_splits)
  with rs_fresh.prems show ?case by (simp add: relaunch_inv_def blank_state_def)
next
  case (rs_admit spki s s' old)
  then have "rl_phase s = ADMITTING" "starts_with ''sha256:'' spki"
    "s' = (blank_state READY (rl_box_id s))\<lparr>rl_boot_id := rl_fresh_boot_id s,
       rl_last_released_at := rl_last_released_at s, rl_requested_at := rl_requested_at s,
       rl_fresh_boot_id := rl_fresh_boot_id s, rl_pinned_spki_sha256 := Some spki\<rparr>"
    by (auto simp: complete_admit_def split: if_splits)
  with rs_admit.prems show ?case by (clarsimp simp: relaunch_inv_def blank_state_def)
next
  case (rs_release boot now s s' old)
  then show ?case by (clarsimp simp: relaunch_inv_def note_release_def blank_state_def split: if_splits)
next
  case (rs_request now s s' old)
  then show ?case by (clarsimp simp: relaunch_inv_def request_relaunch_def blank_state_def split: if_splits)
next
  case (rs_wait s s' old)
  then show ?case by (clarsimp simp: relaunch_inv_def note_waiting_fresh_boot_def blank_state_def split: if_splits)
next
  case (rs_fail s old reason)
  then show ?case by (simp add: relaunch_inv_def relaunch_fail_def)
qed

interpretation relaunch_run: invariant_system "relaunch_start box" relaunch_step "relaunch_inv box" for box
proof
  show "relaunch_inv box s" if "relaunch_start box s" for s
    using that by (simp add: relaunch_start_def relaunch_inv_def relaunch_initial_def blank_state_def)
  show "relaunch_inv box t" if "relaunch_inv box s" "relaunch_step s t" for s t
    by (rule relaunch_step_inv [OF that(2,1)])
qed

text \<open>
  A box is ready only after a real relaunch.  Whatever sequence of transitions and failures led to the
  ready phase, the recorded boot is not the boot whose customer released the box last, and a
  key fingerprint is pinned.
\<close>

lemma ready_means_relaunched:
  assumes "reach (relaunch_start box) relaunch_step (s, old)" "rl_phase s = READY"
  shows "\<exists>boot k. rl_boot_id s = Some boot \<and> boot \<noteq> [] \<and> old \<noteq> None \<and> old \<noteq> Some boot \<and> rl_box_id s = box \<and>
    rl_pinned_spki_sha256 s = Some k \<and> starts_with ''sha256:'' k"
  using relaunch_run.reach_inv [OF assms(1)] assms(2) by (auto simp: relaunch_inv_def)

text \<open>
  A relaunch can always be completed.  From an idle, ready or failed box the five transitions,
  given a boot id that differs from the released one and a key fingerprint, all succeed and end in the ready
  phase on the new boot.
\<close>

lemma relaunch_completes:
  assumes "rl_phase s \<in> {READY, IDLE, PHASE_FAILED}" "fresh \<noteq> []" "fresh \<noteq> boot"
  shows "\<exists>s'. bindE (note_release boot t s) (\<lambda>s1. bindE (request_relaunch t' s1) (\<lambda>s2.
      bindE (note_waiting_fresh_boot s2) (\<lambda>s3. bindE (note_fresh_boot fresh s3)
      (complete_admit (''sha256:'' @ k))))) = Inr s' \<and>
    rl_phase s' = READY \<and> rl_boot_id s' = Some fresh \<and> rl_box_id s' = rl_box_id s"
  using assms
  by (simp add: relaunch_defs starts_with_def)

lemma failed_recoverable: "rl_phase (relaunch_fail r s) \<in> {READY, IDLE, PHASE_FAILED}"
  by (simp add: relaunch_fail_def)

section \<open>A concrete relaunch\<close>

definition relaunched :: RelaunchState where
  "relaunched = (blank_state READY ''box'')\<lparr>rl_boot_id := Some ''boot2'',
     rl_last_released_at := Some (utc_now_iso (sample_time 1)), rl_requested_at := Some (utc_now_iso (sample_time 2)),
     rl_fresh_boot_id := Some ''boot2'', rl_pinned_spki_sha256 := Some ''sha256:00''\<rparr>"

lemma relaunched_reach: "reach (relaunch_start ''box'') relaunch_step (relaunched, Some ''boot1'')"
proof -
  note r = reach_step [where step = relaunch_step]
  let ?b = "blank_state DRAINED_NEEDS_RELAUNCH ''box''"
  let ?s1 = "?b\<lparr>rl_boot_id := Some ''boot1'', rl_last_released_at := Some (utc_now_iso (sample_time 1))\<rparr>"
  let ?s2 = "?s1\<lparr>rl_phase := RELAUNCH_REQUESTED, rl_requested_at := Some (utc_now_iso (sample_time 2))\<rparr>"
  let ?s3 = "?s2\<lparr>rl_phase := WAITING_FRESH_BOOT\<rparr>"
  let ?s4 = "?s3\<lparr>rl_phase := ADMITTING, rl_fresh_boot_id := Some ''boot2''\<rparr>"
  note d = relaunch_defs starts_with_def relaunch_initial_def relaunched_def
  have "reach (relaunch_start ''box'') relaunch_step (relaunch_initial ''box'', None)"
    by (rule reach_start) (simp add: relaunch_start_def)
  then have "reach (relaunch_start ''box'') relaunch_step (?s1, Some ''boot1'')"
    by (rule r [OF _ rs_release [where now = "sample_time 1"]]) (simp add: d)
  then have "reach (relaunch_start ''box'') relaunch_step (?s2, Some ''boot1'')"
    by (rule r [OF _ rs_request [where now = "sample_time 2"]]) (simp add: d)
  then have "reach (relaunch_start ''box'') relaunch_step (?s3, Some ''boot1'')"
    by (rule r [OF _ rs_wait]) (simp add: d)
  then have "reach (relaunch_start ''box'') relaunch_step (?s4, Some ''boot1'')"
    by (rule r [OF _ rs_fresh [where fresh = "''boot2''"]]) (simp add: d)
  then show ?thesis
    by (rule r [OF _ rs_admit [where spki = "''sha256:00''"]]) (simp add: d)
qed

lemma ready_means_relaunched_witness:
  "\<exists>boot k. rl_boot_id relaunched = Some boot \<and> boot \<noteq> [] \<and> Some ''boot1'' \<noteq> None \<and> Some ''boot1'' \<noteq> Some boot \<and>
     rl_box_id relaunched = ''box'' \<and> rl_pinned_spki_sha256 relaunched = Some k \<and> starts_with ''sha256:'' k"
  by (rule ready_means_relaunched [OF relaunched_reach]) (simp add: relaunched_def blank_state_def)

lemma relaunch_completes_witness:
  "\<exists>s'. bindE (note_release ''boot1'' (sample_time 1) (relaunch_initial ''box'')) (\<lambda>s1.
      bindE (request_relaunch (sample_time 2) s1) (\<lambda>s2. bindE (note_waiting_fresh_boot s2) (\<lambda>s3.
      bindE (note_fresh_boot ''boot2'' s3) (complete_admit (''sha256:'' @ ''00''))))) = Inr s' \<and>
    rl_phase s' = READY \<and> rl_boot_id s' = Some ''boot2'' \<and> rl_box_id s' = rl_box_id (relaunch_initial ''box'')"
  by (rule relaunch_completes) (simp_all add: relaunch_initial_def blank_state_def)

end
