(* ===== verification/Json.thy ===== *)
theory Json
  imports Pytext
begin

text \<open>
  JSON documents as \<^verbatim>\<open>json.loads\<close> gives them: an object keeps its members in order, and, as in
  the dict that the loader builds, the last of several members with one key is the one that is
  looked up.  \<^verbatim>\<open>JNonFinite\<close> stands for \<^verbatim>\<open>NaN\<close> and the infinities, which the loader accepts.
  \<^verbatim>\<open>dumps\<close> is \<^verbatim>\<open>json.dumps(..., sort_keys=True, separators=(",", ":"))\<close> with its default
  ASCII escaping and \<^verbatim>\<open>dumps_utf8\<close> the same with \<^verbatim>\<open>ensure_ascii=False\<close>: the canonical forms that the
  program hashes and signs.  The canonical text of a document without floats determines the document
  up to the order of the members.
\<close>

section \<open>Documents\<close>

datatype json =
  JNull | JBool bool | JInt int | JFloat rat | JNonFinite | JStr string
| JArr "json list" | JObj "(string \<times> json) list"

definition obj_get :: "(string \<times> json) list \<Rightarrow> string \<Rightarrow> json option" where
  "obj_get kvs k = map_of (rev kvs) k"

definition obj_keys :: "(string \<times> json) list \<Rightarrow> string set" where
  "obj_keys kvs = set (map fst kvs)"

text \<open>\<^verbatim>\<open>d[k]\<close> on a key that is present, with \<open>JNull\<close> where it is not.\<close>

definition obj_at :: "(string \<times> json) list \<Rightarrow> string \<Rightarrow> json" where
  "obj_at kvs k = (case obj_get kvs k of None \<Rightarrow> JNull | Some v \<Rightarrow> v)"

section \<open>The canonical text\<close>

definition hex4 :: "nat \<Rightarrow> string" where
  "hex4 n = [hex_digit (n div 4096 mod 16), hex_digit (n div 256 mod 16), hex_digit (n div 16 mod 16), hex_digit (n mod 16)]"

definition esc_char :: "char \<Rightarrow> string" where
  "esc_char c =
     (if c = CHR 0x22 then [CHR 0x5C, CHR 0x22]
      else if c = CHR 0x5C then [CHR 0x5C, CHR 0x5C]
      else if c = CHR 0x0A then [CHR 0x5C, CHR ''n'']
      else if c = CHR 0x0D then [CHR 0x5C, CHR ''r'']
      else if c = CHR 0x09 then [CHR 0x5C, CHR ''t'']
      else if c = CHR 0x0C then [CHR 0x5C, CHR ''f'']
      else if c = CHR 0x08 then [CHR 0x5C, CHR ''b'']
      else if char_in_range 0x20 0x7E c then [c]
      else [CHR 0x5C, CHR ''u''] @ hex4 (of_char c))"

definition esc_string :: "string \<Rightarrow> string" where
  "esc_string s = [CHR 0x22] @ concat (map esc_char s) @ [CHR 0x22]"

text \<open>With \<^verbatim>\<open>ensure_ascii=False\<close> only quotes, backslashes and control characters are escaped.\<close>

definition esc_char_utf8 :: "char \<Rightarrow> string" where
  "esc_char_utf8 c = (if (of_char c :: nat) < 0x7F then esc_char c else [c])"

definition esc_string_utf8 :: "string \<Rightarrow> string" where
  "esc_string_utf8 s = [CHR 0x22] @ concat (map esc_char_utf8 s) @ [CHR 0x22]"

fun commas :: "string list \<Rightarrow> string" where
  "commas [] = []"
| "commas [x] = x"
| "commas (x # xs) = x @ '','' @ commas xs"

text \<open>Members in key order; Python orders strings by code point.\<close>

fun str_less :: "string \<Rightarrow> string \<Rightarrow> bool" where
  "str_less [] [] = False"
| "str_less [] (_ # _) = True"
| "str_less (_ # _) [] = False"
| "str_less (a # as) (b # bs) =
     ((of_char a :: nat) < of_char b \<or> (a = b \<and> str_less as bs))"

fun insert_member :: "string \<times> 'a \<Rightarrow> (string \<times> 'a) list \<Rightarrow> (string \<times> 'a) list" where
  "insert_member x [] = [x]"
| "insert_member x (y # ys) = (if str_less (fst y) (fst x) then y # insert_member x ys else x # y # ys)"

definition sort_members :: "(string \<times> 'a) list \<Rightarrow> (string \<times> 'a) list" where
  "sort_members xs = foldr insert_member xs []"

definition member_text :: "(string \<Rightarrow> string) \<Rightarrow> string \<times> string \<Rightarrow> string" where
  "member_text esc m = esc (fst m) @ '':'' @ snd m"

text \<open>
  A float is rendered by \<^verbatim>\<open>repr\<close>, whose shortest digits are not modelled: it is the
  argument \<open>frepr\<close> of the documents that hold one.  \<open>esc\<close> is the escaping of a string.
\<close>

fun dumps_with :: "(string \<Rightarrow> string) \<Rightarrow> (rat \<Rightarrow> string) \<Rightarrow> json \<Rightarrow> string" where
  "dumps_with esc frepr JNull = ''null''"
| "dumps_with esc frepr (JBool b) = (if b then ''true'' else ''false'')"
| "dumps_with esc frepr (JInt i) = show_int i"
| "dumps_with esc frepr (JFloat r) = frepr r"
| "dumps_with esc frepr JNonFinite = ''NaN''"
| "dumps_with esc frepr (JStr s) = esc s"
| "dumps_with esc frepr (JArr xs) = ''['' @ commas (map (dumps_with esc frepr) xs) @ '']''"
| "dumps_with esc frepr (JObj kvs) = ''{'' @
     commas (map (member_text esc) (sort_members (map (\<lambda>(k, v). (k, dumps_with esc frepr v)) kvs))) @ ''}''"

abbreviation dumps :: "(rat \<Rightarrow> string) \<Rightarrow> json \<Rightarrow> string" where
  "dumps \<equiv> dumps_with esc_string"

abbreviation dumps_utf8 :: "(rat \<Rightarrow> string) \<Rightarrow> json \<Rightarrow> string" where
  "dumps_utf8 \<equiv> dumps_with esc_string_utf8"

text \<open>A document whose objects are dicts without floats, and the document with its members in key order.\<close>

fun plain_json :: "json \<Rightarrow> bool" where
  "plain_json (JFloat r) = False"
| "plain_json JNonFinite = False"
| "plain_json (JArr xs) = list_all plain_json xs"
| "plain_json (JObj kvs) = (distinct (map fst kvs) \<and> list_all plain_json (map snd kvs))"
| "plain_json _ = True"

fun canon :: "json \<Rightarrow> json" where
  "canon (JArr xs) = JArr (map canon xs)"
| "canon (JObj kvs) = JObj (sort_members (map (\<lambda>(k, v). (k, canon v)) kvs))"
| "canon v = v"

section \<open>Lookups\<close>

lemma obj_get_Nil [simp]: "obj_get [] k = None"
  by (simp add: obj_get_def)

lemma obj_get_snoc: "obj_get (kvs @ [(k', v)]) k = (if k = k' then Some v else obj_get kvs k)"
  by (simp add: obj_get_def)

lemma obj_get_distinct:
  "distinct (map fst kvs) \<Longrightarrow> obj_get kvs k = map_of kvs k"
proof -
  assume d: "distinct (map fst kvs)"
  then have "distinct (map fst (rev kvs))" by (simp add: rev_map [symmetric])
  with d have "map_of (rev kvs) = map_of kvs" by (simp add: map_of_inject_set)
  then show ?thesis by (simp add: obj_get_def)
qed

section \<open>Escaped strings\<close>

definition unescape :: "string \<Rightarrow> (char \<times> string) option" where
  "unescape s = (case s of
      [] \<Rightarrow> None
    | c # r \<Rightarrow> if c \<noteq> CHR 0x5C then Some (c, r) else (case r of
        [] \<Rightarrow> None
      | x # r' \<Rightarrow> if x = CHR ''u''
          then (case r' of
              _ # _ # h # l # q \<Rightarrow> (case (hex_value h, hex_value l) of
                  (Some m, Some n) \<Rightarrow> Some (char_of (16 * m + n), q) | _ \<Rightarrow> None)
            | _ \<Rightarrow> None)
          else map_option (\<lambda>y. (y, r')) (map_of [(CHR 0x22, CHR 0x22), (CHR 0x5C, CHR 0x5C), (CHR ''n'', CHR 0x0A),
            (CHR ''r'', CHR 0x0D), (CHR ''t'', CHR 0x09), (CHR ''f'', CHR 0x0C), (CHR ''b'', CHR 0x08)] x)))"

lemma unescape_esc_char: "unescape (esc_char c @ r) = Some (c, r)"
proof -
  have "of_char c < (256 :: nat)" by simp
  then have "(of_char c div 16 :: nat) mod 16 = of_char c div 16" by (simp add: div_less_iff_less_mult)
  then have "unescape ([CHR 0x5C, CHR ''u''] @ hex4 (of_char c) @ r) = Some (c, r)"
    by (simp add: unescape_def hex4_def)
  then show ?thesis by (simp add: esc_char_def) (simp add: unescape_def)
qed

lemma unescape_esc_char_utf8: "unescape (esc_char_utf8 c @ r) = Some (c, r)"
proof (cases "(of_char c :: nat) < 0x7F")
  case True
  then show ?thesis using unescape_esc_char by (simp add: esc_char_utf8_def)
next
  case False
  then have "c \<noteq> CHR 0x5C" by auto
  then show ?thesis using False by (simp add: esc_char_utf8_def unescape_def)
qed

interpretation esc_code: prefix_code esc_char unescape "\<lambda>_. True"
  by unfold_locales (rule unescape_esc_char)

interpretation esc_utf8_code: prefix_code esc_char_utf8 unescape "\<lambda>_. True"
  by unfold_locales (rule unescape_esc_char_utf8)

section \<open>The canonical text determines the document\<close>

text \<open>The text of a document whose members are printed in the order they have.\<close>

fun plain_text :: "(string \<Rightarrow> string) \<Rightarrow> json \<Rightarrow> string" where
  "plain_text esc JNull = ''null''"
| "plain_text esc (JBool b) = (if b then ''true'' else ''false'')"
| "plain_text esc (JInt i) = show_int i"
| "plain_text esc (JFloat r) = []"
| "plain_text esc JNonFinite = ''NaN''"
| "plain_text esc (JStr s) = esc s"
| "plain_text esc (JArr xs) = ''['' @ commas (map (plain_text esc) xs) @ '']''"
| "plain_text esc (JObj kvs) = ''{'' @ commas (map (\<lambda>(k, v). esc k @ '':'' @ plain_text esc v) kvs) @ ''}''"

lemma sort_members_map: "sort_members (map (\<lambda>(k, v). (k, f v)) kvs) = map (\<lambda>(k, v). (k, f v)) (sort_members kvs)"
proof -
  have "insert_member (k, f v) (map (\<lambda>(k, v). (k, f v)) ms) = map (\<lambda>(k, v). (k, f v)) (insert_member (k, v) ms)" for k v ms
    by (induction ms) auto
  then show ?thesis by (induction kvs) (auto simp: sort_members_def)
qed

lemma set_sort_members [simp]: "set (sort_members kvs) = set kvs"
proof -
  have "set (insert_member x ms) = insert x (set ms)" for x :: "string \<times> 'a" and ms by (induction ms) auto
  then show ?thesis by (induction kvs) (simp_all add: sort_members_def)
qed

lemma dumps_canon: "plain_json v \<Longrightarrow> dumps_with esc frepr v = plain_text esc (canon v)"
proof (induction v)
  case (JObj kvs)
  then have e: "map (\<lambda>(k, v). (k, dumps_with esc frepr v)) kvs =
      map (\<lambda>(k, v). (k, plain_text esc v)) (map (\<lambda>(k, v). (k, canon v)) kvs)"
    by (auto simp: list_all_iff)
  show ?case unfolding dumps_with.simps canon.simps plain_text.simps e sort_members_map [of "plain_text esc"]
    by (simp add: member_text_def o_def case_prod_unfold)
next
  case (JArr xs)
  then have e: "map (dumps_with esc frepr) xs = map (plain_text esc) (map canon xs)" by (auto simp: list_all_iff)
  show ?case unfolding dumps_with.simps canon.simps plain_text.simps e ..
qed simp_all

fun float_free :: "json \<Rightarrow> bool" where
  "float_free (JFloat r) = False"
| "float_free JNonFinite = False"
| "float_free (JArr xs) = list_all float_free xs"
| "float_free (JObj kvs) = list_all float_free (map snd kvs)"
| "float_free _ = True"

lemma float_free_canon: "plain_json v \<Longrightarrow> float_free (canon v)"
  by (induction v) (auto simp: list_all_iff)

fun tail_text :: "string list \<Rightarrow> string" where
  "tail_text [] = []"
| "tail_text (x # xs) = CHR '','' # x @ tail_text xs"

lemma commas_Cons: "commas (x # xs) = x @ tail_text xs"
  by (induction xs arbitrary: x) auto

text \<open>The text of \<open>x\<close> ends where a separator follows it, compared with the texts of the elements in \<open>P\<close>.\<close>

definition ends_at :: "('a \<Rightarrow> bool) \<Rightarrow> ('a \<Rightarrow> string) \<Rightarrow> 'a \<Rightarrow> bool" where
  "ends_at P f x = (\<forall>y d e r s. P y \<longrightarrow> d \<in> set '',]}'' \<longrightarrow> e \<in> set '',]}'' \<longrightarrow>
     f x @ d # r = f y @ e # s \<longrightarrow> x = y \<and> d # r = e # s)"

lemma ends_atD:
  "ends_at P f x \<Longrightarrow> P y \<Longrightarrow> d \<in> set '',]}'' \<Longrightarrow> e \<in> set '',]}'' \<Longrightarrow> f x @ d # r = f y @ e # s \<Longrightarrow>
     x = y \<and> d # r = e # s"
  unfolding ends_at_def by blast

lemma tail_inject:
  assumes "c \<in> set '']}''" "\<forall>x \<in> set xs. ends_at P f x" "\<forall>y \<in> set ys. P y"
    and "tail_text (map f xs) @ c # r = tail_text (map f ys) @ c # s"
  shows "xs = ys \<and> r = s"
  using assms(2-)
proof (induction xs arbitrary: ys)
  case Nil
  then show ?case using assms(1) by (cases ys) auto
next
  case (Cons x xs)
  then obtain y ys' where ys: "ys = y # ys'" using assms(1) by (cases ys) auto
  have st: "\<exists>d q. d \<in> set '',]}'' \<and> tail_text zs @ c # t = d # q" for zs t
    using assms(1) by (cases zs) auto
  obtain d q where d: "d \<in> set '',]}''" "tail_text (map f xs) @ c # r = d # q" using st by blast
  obtain e p where e: "e \<in> set '',]}''" "tail_text (map f ys') @ c # s = e # p" using st by blast
  have "f x @ d # q = f y @ e # p" using Cons.prems(3) d(2) e(2) by (simp add: ys)
  then have xy: "x = y \<and> d # q = e # p"
    using ends_atD [OF _ _ d(1) e(1), of P f x y] Cons.prems(1,2) by (simp add: ys)
  then have "tail_text (map f xs) @ c # r = tail_text (map f ys') @ c # s" using d(2) e(2) by simp
  with Cons.IH [of ys'] Cons.prems(1,2) have "xs = ys' \<and> r = s" by (simp add: ys)
  with xy show ?case by (simp add: ys)
qed

lemma commas_inject:
  assumes "c \<in> set '']}''" "\<And>y. P y \<Longrightarrow> \<exists>h t. f y = h # t \<and> h \<notin> set '']}''"
    and "\<forall>x \<in> set xs. P x \<and> ends_at P f x" "\<forall>y \<in> set ys. P y"
    and "commas (map f xs) @ c # r = commas (map f ys) @ c # s"
  shows "xs = ys \<and> r = s"
proof -
  have first: "f x @ t \<noteq> c # q" if "P x" for x t q using assms(1) assms(2) [OF that] by auto
  show ?thesis
  proof (cases "xs = [] \<or> ys = []")
    case True
    moreover have "commas (map f (x # zs)) @ c # q \<noteq> c # q'" if "P x" for x zs q q'
      using first [OF that] by (simp add: commas_Cons)
    ultimately show ?thesis using assms(3-5) by (cases xs; cases ys) (fastforce dest: sym)+
  next
    case False
    then have "tail_text (map f xs) @ c # r = tail_text (map f ys) @ c # s"
      using assms(5) by (cases xs; cases ys) (simp_all add: commas_Cons)
    then show ?thesis using tail_inject [OF assms(1) _ assms(4)] assms(3) by blast
  qed
qed

text \<open>The first character of a text tells which kind of document it is.\<close>

fun kind_of :: "json \<Rightarrow> nat" where
  "kind_of JNull = 1"
| "kind_of (JBool b) = (if b then 2 else 3)"
| "kind_of (JInt i) = 4"
| "kind_of (JStr s) = 5"
| "kind_of (JArr xs) = 6"
| "kind_of (JObj kvs) = 7"
| "kind_of _ = 0"

definition first_kind :: "char \<Rightarrow> nat" where
  "first_kind c = (if c = CHR ''n'' then 1 else if c = CHR ''t'' then 2 else if c = CHR ''f'' then 3
     else if is_digit c \<or> c = CHR ''-'' then 4 else if c = CHR 0x22 then 5 else if c = CHR ''['' then 6
     else if c = CHR ''{'' then 7 else 0)"

lemma first_kind_chars:
  "first_kind (CHR ''n'') = 1" "first_kind (CHR ''t'') = 2" "first_kind (CHR ''f'') = 3" "first_kind (CHR 0x22) = 5"
  "first_kind (CHR ''['') = 6" "first_kind (CHR ''{'') = 7" "first_kind (CHR '']'') = 0" "first_kind (CHR ''}'') = 0"
  by (simp_all add: first_kind_def is_digit_def char_in_range_def)

lemma first_kind_int: "\<exists>h t. show_int i = h # t \<and> first_kind h = 4"
proof -
  have "show_int i \<noteq> []" using show_nat_digits by (simp add: show_int_def)
  then obtain h t where h: "show_int i = h # t" by (cases "show_int i") auto
  then have "is_digit h \<or> h = CHR ''-''" using show_int_chars [of h i] by simp
  then have "first_kind h = 4" by (auto simp: first_kind_def is_digit_def char_in_range_def)
  with h show ?thesis by blast
qed

text \<open>A quoted string ends at its closing quote, whichever characters are escaped.\<close>

locale string_literal =
  fixes esc :: "string \<Rightarrow> string"
  assumes esc_append_inject: "esc x @ r = esc y @ s \<Longrightarrow> x = y \<and> r = s"
    and esc_starts: "\<exists>t. esc x = CHR 0x22 # t"
begin

lemma text_starts:
  assumes "float_free v"
  shows "\<exists>h t. plain_text esc v = h # t \<and> first_kind h = kind_of v \<and> kind_of v \<noteq> 0"
proof (cases v)
  case (JStr s)
  then show ?thesis using esc_starts [of s] by (auto simp: first_kind_chars)
qed (use assms first_kind_int in \<open>auto simp: first_kind_chars\<close>)

lemma same_kind:
  assumes "float_free x" "float_free y" "plain_text esc x @ r = plain_text esc y @ s"
  shows "kind_of y = kind_of x"
  using text_starts [OF assms(1)] text_starts [OF assms(2)] assms(3) by auto

lemma member_ends:
  assumes "ends_at float_free (plain_text esc) v"
  shows "ends_at (\<lambda>m. float_free (snd m)) (\<lambda>(k, v). esc k @ '':'' @ plain_text esc v) (k, v)"
  unfolding ends_at_def
proof (intro allI impI)
  fix m d e r s
  assume *: "float_free (snd m)" "d \<in> set '',]}''" "e \<in> set '',]}''"
    "(case (k, v) of (k, v) \<Rightarrow> esc k @ '':'' @ plain_text esc v) @ d # r = (case m of (k, v) \<Rightarrow> esc k @ '':'' @ plain_text esc v) @ e # s"
  obtain k' v' where m: "m = (k', v')" by (cases m)
  from *(4) have "k = k'" "CHR '':'' # plain_text esc v @ d # r = CHR '':'' # plain_text esc v' @ e # s"
    using esc_append_inject [of k "CHR '':'' # plain_text esc v @ d # r" k' "CHR '':'' # plain_text esc v' @ e # s"]
    by (simp_all add: m)
  with ends_atD [OF assms _ *(2,3), of v'] *(1) show "(k, v) = m \<and> d # r = e # s" by (simp add: m)
qed

lemma text_endsI:
  assumes "float_free v"
    and "\<And>w d e r s. float_free w \<Longrightarrow> kind_of w = kind_of v \<Longrightarrow> d \<in> set '',]}'' \<Longrightarrow> e \<in> set '',]}'' \<Longrightarrow>
      plain_text esc v @ d # r = plain_text esc w @ e # s \<Longrightarrow> v = w \<and> d # r = e # s"
  shows "ends_at float_free (plain_text esc) v"
  unfolding ends_at_def using assms(2) same_kind [OF assms(1)] by blast

lemma text_ends: "float_free v \<Longrightarrow> ends_at float_free (plain_text esc) v"
proof (induction v)
  case (JArr xs)
  show ?case
  proof (rule text_endsI [OF JArr.prems])
    fix w d e r s
    assume *: "float_free w" "kind_of w = kind_of (JArr xs)" "plain_text esc (JArr xs) @ d # r = plain_text esc w @ e # s"
    then obtain ys where w: "w = JArr ys" by (cases w) (auto split: if_splits)
    have "xs = ys \<and> d # r = e # s"
      by (rule commas_inject [where P = float_free and f = "plain_text esc" and c = "CHR '']''"])
         (use *(1,3) JArr text_starts in \<open>fastforce simp: w list_all_iff first_kind_chars\<close>)+
    then show "JArr xs = w \<and> d # r = e # s" by (simp add: w)
  qed
next
  case (JObj kvs)
  show ?case
  proof (rule text_endsI [OF JObj.prems])
    fix w d e r s
    assume *: "float_free w" "kind_of w = kind_of (JObj kvs)" "plain_text esc (JObj kvs) @ d # r = plain_text esc w @ e # s"
    then obtain ys where w: "w = JObj ys" by (cases w) (auto split: if_splits)
    have "kvs = ys \<and> d # r = e # s"
    proof (rule commas_inject [where P = "\<lambda>m. float_free (snd m)" and f = "\<lambda>(k, v). esc k @ '':'' @ plain_text esc v" and c = "CHR ''}''"])
      show "\<exists>h t. (case m of (k, v) \<Rightarrow> esc k @ '':'' @ plain_text esc v) = h # t \<and> h \<notin> set '']}''" for m
        using esc_starts [of "fst m"] by (cases m) auto
      show "\<forall>m \<in> set kvs. float_free (snd m) \<and> ends_at (\<lambda>m. float_free (snd m)) (\<lambda>(k, v). esc k @ '':'' @ plain_text esc v) m"
        using JObj member_ends by (fastforce simp: list_all_iff)
    qed (use *(1,3) in \<open>auto simp: w list_all_iff\<close>)
    then show "JObj kvs = w \<and> d # r = e # s" by (simp add: w)
  qed
next
  case JNull
  show ?case by (rule text_endsI [OF JNull.prems]) (auto elim!: kind_of.elims split: if_splits)
next
  case (JBool b)
  show ?case by (rule text_endsI [OF JBool.prems]) (auto elim!: kind_of.elims split: if_splits)
next
  case (JInt i)
  show ?case
  proof (rule text_endsI [OF JInt.prems])
    fix w d e r s
    assume *: "kind_of w = kind_of (JInt i)" "plain_text esc (JInt i) @ d # r = plain_text esc w @ e # s"
      and d: "d \<in> set '',]}''" "e \<in> set '',]}''"
    then obtain j where w: "w = JInt j" by (cases w) (auto split: if_splits)
    show "JInt i = w \<and> d # r = e # s" using delimitedD [OF delimited_int d, of i r j s] *(2) by (simp add: w)
  qed
next
  case (JStr t)
  show ?case
  proof (rule text_endsI [OF JStr.prems])
    fix w d e r s
    assume *: "kind_of w = kind_of (JStr t)" "plain_text esc (JStr t) @ d # r = plain_text esc w @ e # s"
    then obtain u where w: "w = JStr u" by (cases w) (auto split: if_splits)
    show "JStr t = w \<and> d # r = e # s" using esc_append_inject [of t "d # r" u "e # s"] *(2) by (simp add: w)
  qed
qed simp_all

lemma dumps_inject:
  assumes "plain_json v" "plain_json w" "dumps_with esc f v = dumps_with esc g w"
  shows "canon v = canon w"
proof -
  have "plain_text esc (canon v) @ CHR '','' # [] = plain_text esc (canon w) @ CHR '','' # []"
    using assms(3) by (simp add: dumps_canon assms(1,2))
  moreover have "CHR '','' \<in> set '',]}''" by simp
  ultimately show ?thesis
    using ends_atD [OF text_ends [OF float_free_canon [OF assms(1)]], of "canon w"] float_free_canon [OF assms(2)] by blast
qed

end

lemma quoted_inject:
  assumes "prefix_code e unescape (\<lambda>_. True)" "\<And>c t. e c \<noteq> CHR 0x22 # t" "\<And>c. e c \<noteq> []"
  shows "concat (map e x) @ CHR 0x22 # r = concat (map e y) @ CHR 0x22 # s \<Longrightarrow> x = y \<and> r = s"
proof (induction x arbitrary: y)
  case Nil
  then show ?case using assms(2,3) by (cases y) (auto simp: Cons_eq_append_conv dest: sym)
next
  case (Cons c x)
  then obtain d y' where y: "y = d # y'" using assms(2,3) by (cases y) (auto simp: append_eq_Cons_conv)
  from Cons.prems have "e c @ concat (map e x) @ CHR 0x22 # r = e d @ concat (map e y') @ CHR 0x22 # s" by (simp add: y)
  with prefix_code.enc_append_inject [OF assms(1)] have "c = d" "concat (map e x) @ CHR 0x22 # r = concat (map e y') @ CHR 0x22 # s"
    by blast+
  with Cons.IH show ?case by (simp add: y)
qed

lemma esc_char_shape: "esc_char c \<noteq> CHR 0x22 # t" "esc_char c \<noteq> []"
  by (simp_all add: esc_char_def)

lemma esc_char_utf8_shape: "esc_char_utf8 c \<noteq> CHR 0x22 # t" "esc_char_utf8 c \<noteq> []"
  by (auto simp: esc_char_utf8_def esc_char_shape)

interpretation ascii_literal: string_literal esc_string
proof
  show "x = y \<and> r = s" if "esc_string x @ r = esc_string y @ s" for x r y s
    using quoted_inject [OF esc_code.prefix_code_axioms esc_char_shape, of x r y s] that by (simp add: esc_string_def)
  show "\<exists>t. esc_string x = CHR 0x22 # t" for x by (simp add: esc_string_def)
qed

interpretation utf8_literal: string_literal esc_string_utf8
proof
  show "x = y \<and> r = s" if "esc_string_utf8 x @ r = esc_string_utf8 y @ s" for x r y s
    using quoted_inject [OF esc_utf8_code.prefix_code_axioms esc_char_utf8_shape, of x r y s] that by (simp add: esc_string_utf8_def)
  show "\<exists>t. esc_string_utf8 x = CHR 0x22 # t" for x by (simp add: esc_string_utf8_def)
qed

end
