(* ===== verification/Rtmr.thy ===== *)
theory Rtmr
  imports Sha2
begin

text \<open>
  The values of TDX RTMR3 in \<^verbatim>\<open>src/cathedral/tee_box/boot.py\<close>: zero in a fresh boot, and the
  extend of zero by the digest of the lease event once the boot has a customer.  Both digests
  are evaluated, which shows that a consumed boot can never report a fresh RTMR3.
\<close>

definition RTMR_BYTES :: nat where "RTMR_BYTES = 48"
definition LEASE_EVENT :: bytes where "LEASE_EVENT = ascii ''cathedral tee-box lease granted v1''"
definition LEASE_EVENT_DIGEST :: bytes where "LEASE_EVENT_DIGEST = sha384 LEASE_EVENT"
definition RTMR3_FRESH :: bytes where "RTMR3_FRESH = replicate RTMR_BYTES 0"

definition rtmr_extend :: "bytes \<Rightarrow> bytes \<Rightarrow> exn + bytes" where
  "rtmr_extend v d =
     (if length v \<noteq> RTMR_BYTES \<or> length d \<noteq> RTMR_BYTES
      then Inl (ValueError ''an RTMR and its extend data are 48 bytes each'')
      else Inr (sha384 (v @ d)))"

definition RTMR3_CONSUMED :: bytes where
  "RTMR3_CONSUMED = (case rtmr_extend RTMR3_FRESH LEASE_EVENT_DIGEST of Inr v \<Rightarrow> v | Inl _ \<Rightarrow> [])"

lemma RTMR3_CONSUMED_eq: "RTMR3_CONSUMED = sha384 (RTMR3_FRESH @ LEASE_EVENT_DIGEST)"
  by (simp add: RTMR3_CONSUMED_def rtmr_extend_def RTMR3_FRESH_def LEASE_EVENT_DIGEST_def RTMR_BYTES_def)

section \<open>The values\<close>

lemma LEASE_EVENT_DIGEST_value:
  "LEASE_EVENT_DIGEST =
    [198, 103, 205, 177, 39, 116, 239, 193, 250, 247, 196, 74, 229, 170, 174, 209,
     142, 251, 53, 117, 118, 162, 126, 220, 28, 94, 241, 183, 109, 206, 222, 165,
     145, 101, 142, 128, 171, 168, 214, 172, 180, 90, 192, 163, 29, 62, 132, 63]"
  by code_simp

lemma RTMR3_CONSUMED_sha384:
  "sha384 (replicate 48 0 @
    [198, 103, 205, 177, 39, 116, 239, 193, 250, 247, 196, 74, 229, 170, 174, 209,
     142, 251, 53, 117, 118, 162, 126, 220, 28, 94, 241, 183, 109, 206, 222, 165,
     145, 101, 142, 128, 171, 168, 214, 172, 180, 90, 192, 163, 29, 62, 132, 63]) =
    [69, 207, 87, 114, 75, 60, 81, 181, 14, 39, 207, 188, 66, 18, 107, 16,
     28, 39, 72, 218, 191, 54, 153, 102, 176, 22, 6, 204, 105, 13, 95, 29,
     236, 95, 155, 234, 223, 175, 232, 24, 96, 96, 254, 169, 110, 10, 7, 97]"
  by code_simp

lemma RTMR3_CONSUMED_value:
  "RTMR3_CONSUMED =
    [69, 207, 87, 114, 75, 60, 81, 181, 14, 39, 207, 188, 66, 18, 107, 16,
     28, 39, 72, 218, 191, 54, 153, 102, 176, 22, 6, 204, 105, 13, 95, 29,
     236, 95, 155, 234, 223, 175, 232, 24, 96, 96, 254, 169, 110, 10, 7, 97]"
  unfolding RTMR3_CONSUMED_eq LEASE_EVENT_DIGEST_value RTMR3_FRESH_def RTMR_BYTES_def
  by (rule RTMR3_CONSUMED_sha384)

lemma consumed_not_fresh: "RTMR3_CONSUMED \<noteq> RTMR3_FRESH"
proof
  assume "RTMR3_CONSUMED = RTMR3_FRESH"
  then have "hd RTMR3_CONSUMED = hd RTMR3_FRESH" by simp
  then show False by (simp add: RTMR3_CONSUMED_value RTMR3_FRESH_def RTMR_BYTES_def)
qed

end
