(* ===== verification/Boot.thy ===== *)
theory Boot
  imports Json Rtmr
begin

text \<open>
  \<^verbatim>\<open>src/cathedral/tee_box/boot.py\<close>: one customer per boot.  The two lease registers
  (\<^verbatim>\<open>SysfsRtmr3\<close>, \<^verbatim>\<open>SoftwareLeaseRegister\<close>), the kernel readers, the boot marker file and
  the \<^verbatim>\<open>BootGuard\<close>.

  A register is an object with two methods, as in the code: the record \<open>rtmr_ops\<close>.  The outcome of
  each system call is an argument (\<open>boot_io\<close>), so every failure the code handles is a
  branch.  The marker file is kept as the document its bytes decode to (\<open>None\<close> when they do
  not).  The locale \<open>lease_register\<close> states what the guard relies on from a register; it is
  interpreted on both registers of the program.  The invariant shows that all callers that
  ever consumed one boot are the same caller, across worker restarts and every failing
  read, write and extend, and that the register of such a boot holds \<open>RTMR3_CONSUMED\<close>.
\<close>

section \<open>Constants\<close>

definition MARKER_SUFFIX :: string where "MARKER_SUFFIX = ''.boot''"
definition MARKER_SCHEMA :: string where "MARKER_SCHEMA = ''cathedral_tee_box_boot_v1''"
definition UNKNOWN_CONSUMER :: string where "UNKNOWN_CONSUMER = ''(unknown)''"
definition MARKER_KEYS :: "string set" where
  "MARKER_KEYS = {''schema'', ''boot_id'', ''consumed_by'', ''consumed_at'', ''released_at''}"
datatype boot_error = BootError string | RtmrError string | RelaunchRequired string | Uncaught exn

section \<open>Registers\<close>

record ('f, 'r) rtmr_ops =
  op_read :: "'f \<Rightarrow> 'r \<Rightarrow> boot_error + bytes"
  op_extend :: "'f \<Rightarrow> bytes \<Rightarrow> 'r \<Rightarrow> (boot_error + unit) \<times> 'r"

text \<open>
  What a system call on the register does: nothing unusual, fails, transfers only some bytes, or
  fails after its effect.
\<close>

datatype fault = NoFault | OsError | Short nat | LateError

text \<open>
  TDX RTMR3 behind sysfs: the state is the hardware register.  By the kernel's interface a read
  returns its 48 bytes and a 48-byte write extends it.
\<close>

definition sysfs_read :: "fault \<Rightarrow> bytes \<Rightarrow> boot_error + bytes" where
  "sysfs_read f hw = (case f of
      OsError \<Rightarrow> Inl (RtmrError ''cannot read RTMR3'')
    | LateError \<Rightarrow> Inl (RtmrError ''cannot read RTMR3'')
    | _ \<Rightarrow> let v = (case f of Short n \<Rightarrow> take (min n (RTMR_BYTES - 1)) hw | _ \<Rightarrow> take (RTMR_BYTES + 1) hw) in
        if length v \<noteq> RTMR_BYTES then Inl (RtmrError ''did not return 48 bytes'') else Inr v)"

definition sysfs_extend :: "fault \<Rightarrow> bytes \<Rightarrow> bytes \<Rightarrow> (boot_error + unit) \<times> bytes" where
  "sysfs_extend f d hw =
     (if length d \<noteq> RTMR_BYTES then (Inl (RtmrError ''the RTMR3 extend data must be 48 bytes''), hw)
      else case f of
        OsError \<Rightarrow> (Inl (RtmrError ''cannot extend RTMR3''), hw)
      | LateError \<Rightarrow> (Inl (RtmrError ''cannot extend RTMR3''), sha384 (hw @ d))
      | Short n \<Rightarrow> if n \<noteq> RTMR_BYTES then (Inl (RtmrError ''took some of 48 bytes''), hw)
          else (Inr (), sha384 (hw @ d))
      | NoFault \<Rightarrow> (Inr (), sha384 (hw @ d)))"

definition SysfsRtmr3 :: "(fault, bytes) rtmr_ops" where
  "SysfsRtmr3 = \<lparr>op_read = sysfs_read, op_extend = sysfs_extend\<rparr>"

text \<open>The software register: the state is its file, \<open>None\<close> when there is none.\<close>

definition soft_read :: "fault \<Rightarrow> bytes option \<Rightarrow> boot_error + bytes" where
  "soft_read f file = (case f of
      OsError \<Rightarrow> Inl (RtmrError ''cannot read the software lease register'')
    | LateError \<Rightarrow> Inl (RtmrError ''cannot read the software lease register'')
    | _ \<Rightarrow> (case file of
        None \<Rightarrow> Inr (replicate RTMR_BYTES 0)
      | Some c \<Rightarrow> let v = (case f of Short n \<Rightarrow> take (min n (RTMR_BYTES - 1)) c | _ \<Rightarrow> take (RTMR_BYTES + 1) c) in
          if length v \<noteq> RTMR_BYTES then Inl (RtmrError ''did not return 48 bytes'') else Inr v))"

text \<open>
  The read inside \<^verbatim>\<open>extend\<close> takes the first outcome, the write of the temporary file and the
  rename take the second.
\<close>

definition soft_extend :: "fault \<times> fault \<Rightarrow> bytes \<Rightarrow> bytes option \<Rightarrow> (boot_error + unit) \<times> bytes option" where
  "soft_extend ff d file =
     (if length d \<noteq> RTMR_BYTES
      then (Inl (RtmrError ''the software lease register extend data must be 48 bytes''), file)
      else case soft_read (fst ff) file of
        Inl e \<Rightarrow> (Inl e, file)
      | Inr v \<Rightarrow> (case rtmr_extend v d of
          Inl e \<Rightarrow> (Inl (Uncaught e), file)
        | Inr landed \<Rightarrow> (case snd ff of
            OsError \<Rightarrow> (Inl (RtmrError ''cannot extend the software lease register''), file)
          | LateError \<Rightarrow> (Inl (RtmrError ''cannot extend the software lease register''), file)
          | Short n \<Rightarrow> if n \<noteq> RTMR_BYTES
              then (Inl (RtmrError ''cannot extend the software lease register''), file)
              else (Inr (), Some landed)
          | NoFault \<Rightarrow> (Inr (), Some landed))))"

definition SoftwareLeaseRegister :: "(fault \<times> fault, bytes option) rtmr_ops" where
  "SoftwareLeaseRegister = \<lparr>op_read = (\<lambda>ff. soft_read (fst ff)), op_extend = soft_extend\<rparr>"

definition lease_register_path_for :: "string \<Rightarrow> string" where
  "lease_register_path_for central_state = central_state @ ''.lease''"

section \<open>Kernel readers\<close>

definition is_boot_id :: "string \<Rightarrow> bool" where
  "is_boot_id s = (length s = 36 \<and>
     list_all (\<lambda>i. if i \<in> {8, 13, 18, 23} then s ! i = CHR ''-'' else hex_value (s ! i) \<noteq> None) [0..<36])"

text \<open>The files are given as the text they decode to; \<open>None\<close> is an unreadable or non-ASCII file.\<close>

definition read_boot_id :: "string option \<Rightarrow> boot_error + string" where
  "read_boot_id file = (case file of
      None \<Rightarrow> Inl (BootError ''cannot read the boot id'')
    | Some s \<Rightarrow> let text = py_strip (take 64 s) in
        if \<not> is_boot_id text then Inl (BootError ''does not hold a boot id'') else Inr text)"

fun find_btime :: "string list \<Rightarrow> nat option" where
  "find_btime [] = None"
| "find_btime (l # ls) =
     (if takeWhile (\<lambda>c. c \<noteq> CHR '' '') l = ''btime'' then
        let v = py_strip (tl (dropWhile (\<lambda>c. c \<noteq> CHR '' '') l)) in
        if v \<noteq> [] \<and> list_all is_digit v \<and> length v \<le> 12 then Some (read_nat v) else None
      else find_btime ls)"

definition read_booted_at :: "string option \<Rightarrow> boot_error + nat" where
  "read_booted_at file = (case file of
      None \<Rightarrow> Inl (BootError ''cannot read the boot time'')
    | Some s \<Rightarrow> of_option (BootError ''has no btime line'') (find_btime (py_lines s)))"

section \<open>The boot record and its file\<close>

record BootRecord =
  r_boot_id :: string
  r_consumed_by :: "string option"
  r_consumed_at :: "rat option"
  r_released_at :: "rat option"

definition marker_path_for :: "string \<Rightarrow> string" where
  "marker_path_for central_state = central_state @ MARKER_SUFFIX"

text \<open>\<^verbatim>\<open>math.isfinite\<close> of an integer that rounds past the largest double raises.\<close>

definition float_overflow :: "int \<Rightarrow> bool" where
  "float_overflow i = (2 ^ 1024 - 2 ^ 970 \<le> \<bar>i\<bar>)"

fun number :: "json \<Rightarrow> exn + rat option" where
  "number JNull = Inr None"
| "number (JInt i) = (if float_overflow i then Inl (OverflowError ''int too large to convert to float'')
     else if i < 0 then Inl (ValueError ''not a time'') else Inr (Some (of_int i)))"
| "number (JFloat r) = (if r < 0 then Inl (ValueError ''not a time'') else Inr (Some r))"
| "number JNonFinite = Inl (ValueError ''not a time'')"
| "number _ = Inl (ValueError ''not a number'')"

definition parse_marker :: "json option \<Rightarrow> exn + BootRecord" where
  "parse_marker doc = (case doc of
      Some (JObj kvs) \<Rightarrow>
        if obj_keys kvs \<noteq> MARKER_KEYS then Inl (ValueError ''unexpected fields'')
        else if obj_at kvs ''schema'' \<noteq> JStr MARKER_SCHEMA then Inl (ValueError ''unknown schema'')
        else (case obj_at kvs ''boot_id'' of
          JStr b \<Rightarrow> if \<not> is_boot_id b then Inl (ValueError ''bad boot id'')
            else bindE (case obj_at kvs ''consumed_by'' of
                JNull \<Rightarrow> Inr None
              | JStr c \<Rightarrow> if c = [] then Inl (ValueError ''bad consumer'') else Inr (Some c)
              | _ \<Rightarrow> Inl (ValueError ''bad consumer'')) (\<lambda>by.
              bindE (number (obj_at kvs ''consumed_at'')) (\<lambda>ca.
              bindE (number (obj_at kvs ''released_at'')) (\<lambda>ra.
              Inr \<lparr>r_boot_id = b, r_consumed_by = by, r_consumed_at = ca, r_released_at = ra\<rparr>)))
        | _ \<Rightarrow> Inl (ValueError ''bad boot id''))
    | Some _ \<Rightarrow> Inl (ValueError ''unexpected fields'')
    | None \<Rightarrow> Inl (ValueError ''not a document''))"

text \<open>The marker file: absent, unreadable, or with some content.\<close>

datatype marker_file = NoFile | Unreadable | Content "json option"

definition unknown_record :: "string \<Rightarrow> rat option \<Rightarrow> rat option \<Rightarrow> BootRecord" where
  "unknown_record b ca ra =
     \<lparr>r_boot_id = b, r_consumed_by = Some UNKNOWN_CONSUMER, r_consumed_at = ca, r_released_at = ra\<rparr>"

definition fresh_record :: "string \<Rightarrow> BootRecord" where
  "fresh_record b = \<lparr>r_boot_id = b, r_consumed_by = None, r_consumed_at = None, r_released_at = None\<rparr>"

definition load :: "bool \<Rightarrow> marker_file \<Rightarrow> string \<Rightarrow> rat \<Rightarrow> boot_error + BootRecord" where
  "load path m b clock =
     (if \<not> path then Inr (fresh_record b)
      else case m of
        NoFile \<Rightarrow> Inr (fresh_record b)
      | Unreadable \<Rightarrow> Inr (unknown_record b None (Some clock))
      | Content doc \<Rightarrow> (case parse_marker doc of
          Inl (ValueError _) \<Rightarrow> Inr (unknown_record b None (Some clock))
        | Inl e \<Rightarrow> Inl (Uncaught e)
        | Inr r \<Rightarrow> if r_boot_id r \<noteq> b then Inr (fresh_record b) else Inr r))"

definition json_text :: "string option \<Rightarrow> json" where
  "json_text t = (case t of None \<Rightarrow> JNull | Some s \<Rightarrow> JStr s)"

definition json_time :: "rat option \<Rightarrow> json" where
  "json_time t = (case t of None \<Rightarrow> JNull | Some r \<Rightarrow> JFloat r)"

definition marker_document :: "BootRecord \<Rightarrow> json" where
  "marker_document r = JObj [(''schema'', JStr MARKER_SCHEMA), (''boot_id'', JStr (r_boot_id r)),
     (''consumed_by'', json_text (r_consumed_by r)), (''consumed_at'', json_time (r_consumed_at r)),
     (''released_at'', json_time (r_released_at r))]"

section \<open>The guard\<close>

text \<open>
  \<^verbatim>\<open>BootGuard\<close>: its fields, with the register and the marker file it works on.  \<open>g_path\<close> says
  whether it has a marker path.
\<close>

record 'r guard =
  g_record :: BootRecord
  g_booted_at :: int
  g_extended :: bool
  g_reg :: 'r
  g_path :: bool
  g_marker :: marker_file

datatype store_outcome = StoreOk | StoreShort | StoreFails

text \<open>
  The outcomes of the calls an operation makes: the two kernel readers (\<open>None\<close> when they raise),
  the clock, the register read at the start of the operation, the extend, the read after it,
  and the write of the marker.
\<close>

record 'f boot_io =
  io_boot_id :: "string option"
  io_booted_at :: "int option"
  io_clock :: rat
  io_read :: 'f
  io_extend :: 'f
  io_landed :: 'f
  io_store :: store_outcome

definition checked_boot_id :: "string option \<Rightarrow> boot_error + string" where
  "checked_boot_id b = (case b of
      None \<Rightarrow> Inl (BootError ''cannot read the boot id'')
    | Some s \<Rightarrow> if \<not> is_boot_id s then Inl (BootError ''the boot id reader returned no boot id'') else Inr s)"

definition checked_booted_at :: "int option \<Rightarrow> boot_error + int" where
  "checked_booted_at t = (case t of
      None \<Rightarrow> Inl (BootError ''cannot read the boot time'')
    | Some n \<Rightarrow> if n < 0 then Inl (BootError ''the boot time reader returned no time'') else Inr n)"

definition checked_rtmr3 :: "('f, 'r) rtmr_ops \<Rightarrow> 'f \<Rightarrow> 'r \<Rightarrow> boot_error + bytes" where
  "checked_rtmr3 ops f reg = (case op_read ops f reg of
      Inl e \<Rightarrow> Inl (RtmrError ''RTMR3 is unavailable'')
    | Inr v \<Rightarrow> if length v \<noteq> RTMR_BYTES then Inl (RtmrError ''RTMR3 is unavailable: no 48-byte value'') else Inr v)"

text \<open>\<^verbatim>\<open>_store\<close>: \<open>False\<close> when it raises; a short write is not noticed and leaves a torn file.\<close>

definition store :: "store_outcome \<Rightarrow> 'r guard \<Rightarrow> bool \<times> 'r guard" where
  "store out g =
     (if \<not> g_path g then (True, g)
      else case out of
        StoreOk \<Rightarrow> (True, g\<lparr>g_marker := Content (Some (marker_document (g_record g)))\<rparr>)
      | StoreShort \<Rightarrow> (True, g\<lparr>g_marker := Content None\<rparr>)
      | StoreFails \<Rightarrow> (False, g))"

definition close_record :: "'r guard \<Rightarrow> 'r guard" where
  "close_record g = (let r = g_record g in
     g\<lparr>g_record := unknown_record (r_boot_id r) (r_consumed_at r) (r_released_at r)\<rparr>)"

definition store_or_close :: "store_outcome \<Rightarrow> 'r guard \<Rightarrow> 'r guard" where
  "store_or_close out g = (case store out g of (True, g') \<Rightarrow> g' | (False, g') \<Rightarrow> close_record g')"

definition boot_close :: "store_outcome \<Rightarrow> 'r guard \<Rightarrow> 'r guard" where
  "boot_close out g = snd (store out (close_record g))"

definition boot_init ::
  "('f, 'r) rtmr_ops \<Rightarrow> 'f boot_io \<Rightarrow> bool \<Rightarrow> marker_file \<Rightarrow> 'r \<Rightarrow> boot_error + 'r guard" where
  "boot_init ops io path m reg =
     bindE (checked_boot_id (io_boot_id io)) (\<lambda>b.
     bindE (checked_booted_at (io_booted_at io)) (\<lambda>t.
     bindE (checked_rtmr3 ops (io_read io) reg) (\<lambda>rtmr3.
     bindE (load path m b (io_clock io)) (\<lambda>rec.
       let extended = (rtmr3 = RTMR3_CONSUMED);
           consumed = (r_consumed_by rec \<noteq> None);
           g = \<lparr>g_record = rec, g_booted_at = t, g_extended = extended, g_reg = reg, g_path = path, g_marker = m\<rparr>
       in Inr (if rtmr3 \<notin> {RTMR3_FRESH, RTMR3_CONSUMED} \<or> extended \<noteq> consumed
               then store_or_close (io_store io) (g\<lparr>g_record := unknown_record b None (Some (io_clock io))\<rparr>)
               else if consumed \<and> r_released_at rec = None
               then store_or_close (io_store io) (g\<lparr>g_record := rec\<lparr>r_boot_id := b, r_released_at := Some (io_clock io)\<rparr>\<rparr>)
               else g)))))"

definition current :: "('f, 'r) rtmr_ops \<Rightarrow> 'f boot_io \<Rightarrow> 'r guard \<Rightarrow> BootRecord option \<times> 'r guard" where
  "current ops io g = (case checked_boot_id (io_boot_id io) of
      Inl _ \<Rightarrow> (None, g)
    | Inr b \<Rightarrow>
        if b \<noteq> r_boot_id (g_record g) then
          (case checked_booted_at (io_booted_at io) of
             Inl _ \<Rightarrow> (None, g)
           | Inr t \<Rightarrow> let g1 = g\<lparr>g_booted_at := t\<rparr> in
              (case checked_rtmr3 ops (io_read io) (g_reg g1) of
                 Inl _ \<Rightarrow> (None, g1)
               | Inr v \<Rightarrow> let r = (if v = RTMR3_FRESH then fresh_record b else unknown_record b None None) in
                   (Some r, g1\<lparr>g_extended := (v = RTMR3_CONSUMED), g_record := r\<rparr>)))
        else (Some (g_record g), g))"

definition extend_once :: "('f, 'r) rtmr_ops \<Rightarrow> 'f boot_io \<Rightarrow> 'r guard \<Rightarrow> (boot_error + unit) \<times> 'r guard" where
  "extend_once ops io g =
     (if g_extended g then (Inr (), g)
      else case op_extend ops (io_extend io) LEASE_EVENT_DIGEST (g_reg g) of
        (Inl e, reg') \<Rightarrow>
          let g1 = g\<lparr>g_reg := reg'\<rparr> in
          (Inl (RtmrError ''the RTMR3 lease extend failed''),
           case checked_rtmr3 ops (io_landed io) reg' of
             Inl _ \<Rightarrow> boot_close (io_store io) g1
           | Inr v \<Rightarrow> if v = RTMR3_CONSUMED then g1\<lparr>g_extended := True\<rparr>
               else if v \<noteq> RTMR3_FRESH then boot_close (io_store io) g1 else g1)
      | (Inr _, reg') \<Rightarrow>
          let g1 = g\<lparr>g_reg := reg'\<rparr> in
          if checked_rtmr3 ops (io_landed io) reg' \<noteq> Inr RTMR3_CONSUMED
          then (Inl (RtmrError ''RTMR3 does not hold the consumed value after the lease extend''),
                boot_close (io_store io) g1)
          else (Inr (), g1\<lparr>g_extended := True\<rparr>))"

definition check :: "('f, 'r) rtmr_ops \<Rightarrow> 'f boot_io \<Rightarrow> string \<Rightarrow> 'r guard \<Rightarrow> (boot_error + unit) \<times> 'r guard" where
  "check ops io caller g = (case current ops io g of
      (None, g') \<Rightarrow> (Inl (RelaunchRequired ''the boot id cannot be read''), g')
    | (Some r, g') \<Rightarrow>
        if r_consumed_by r \<noteq> None \<and> r_consumed_by r \<noteq> Some caller
        then (Inl (RelaunchRequired ''another customer used this boot''), g') else (Inr (), g'))"

text \<open>The end of \<^verbatim>\<open>consume\<close>: write the record; on failure put the previous one back and refuse.\<close>

definition commit_record ::
  "store_outcome \<Rightarrow> BootRecord \<Rightarrow> BootRecord \<Rightarrow> 'r guard \<Rightarrow> (boot_error + unit) \<times> 'r guard" where
  "commit_record out previous rec g = (case store out (g\<lparr>g_record := rec\<rparr>) of
      (True, g') \<Rightarrow> (Inr (), g')
    | (False, g') \<Rightarrow> (Inl (BootError ''cannot record the customer of this boot''), g'\<lparr>g_record := previous\<rparr>))"

definition consume ::
  "('f, 'r) rtmr_ops \<Rightarrow> 'f boot_io \<Rightarrow> string \<Rightarrow> rat \<Rightarrow> 'r guard \<Rightarrow> (boot_error + unit) \<times> 'r guard" where
  "consume ops io caller now g = (case check ops io caller g of
      (Inl e, g1) \<Rightarrow> (Inl e, g1)
    | (Inr _, g1) \<Rightarrow>
        let previous = g_record g1 in
        if r_consumed_by previous \<noteq> None then
          if r_released_at previous = None then (Inr (), g1)
          else commit_record (io_store io) previous
            \<lparr>r_boot_id = r_boot_id previous, r_consumed_by = Some caller,
             r_consumed_at = r_consumed_at previous, r_released_at = None\<rparr> g1
        else (case extend_once ops io g1 of
            (Inl e, g2) \<Rightarrow> (Inl e, g2)
          | (Inr _, g2) \<Rightarrow> commit_record (io_store io) previous
              \<lparr>r_boot_id = r_boot_id previous, r_consumed_by = Some caller,
               r_consumed_at = Some now, r_released_at = None\<rparr> g2))"

definition released :: "('f, 'r) rtmr_ops \<Rightarrow> 'f boot_io \<Rightarrow> rat \<Rightarrow> 'r guard \<Rightarrow> 'r guard" where
  "released ops io now g = (case current ops io g of
      (None, g') \<Rightarrow> g'
    | (Some r, g') \<Rightarrow>
        if r_consumed_by r = None then g'
        else store_or_close (io_store io)
          (g'\<lparr>g_record := \<lparr>r_boot_id = r_boot_id r, r_consumed_by = r_consumed_by r,
             r_consumed_at = r_consumed_at r, r_released_at = Some now\<rparr>\<rparr>))"

record boot_report =
  v_boot_id :: "string option"
  v_booted_at :: "int option"
  v_consumed :: bool
  v_consumed_by_caller :: bool
  v_needs_relaunch :: bool
  v_last_released_at :: "int option"
  v_rtmr3 :: "string option"
  v_rtmr3_extended :: bool

definition boot_view :: "('f, 'r) rtmr_ops \<Rightarrow> 'f boot_io \<Rightarrow> string \<Rightarrow> bool \<Rightarrow> 'r guard \<Rightarrow> boot_report \<times> 'r guard" where
  "boot_view ops io caller leased g = (case current ops io g of (r, g') \<Rightarrow>
     let rtmr3 = (case checked_rtmr3 ops (io_landed io) (g_reg g') of Inl _ \<Rightarrow> None | Inr v \<Rightarrow> Some (hex_of v)) in
     (case r of
        None \<Rightarrow> \<lparr>v_boot_id = None, v_booted_at = None, v_consumed = True, v_consumed_by_caller = False,
            v_needs_relaunch = True, v_last_released_at = None, v_rtmr3 = rtmr3, v_rtmr3_extended = g_extended g'\<rparr>
      | Some r \<Rightarrow> let consumed = (r_consumed_by r \<noteq> None) in
          \<lparr>v_boot_id = Some (r_boot_id r), v_booted_at = Some (g_booted_at g'), v_consumed = consumed,
           v_consumed_by_caller = (consumed \<and> r_consumed_by r = Some caller),
           v_needs_relaunch = (consumed \<and> \<not> leased),
           v_last_released_at = map_option (\<lambda>t. \<lceil>t\<rceil>) (r_released_at r),
           v_rtmr3 = rtmr3, v_rtmr3_extended = g_extended g'\<rparr>, g'))"

section \<open>Runs of one boot\<close>

text \<open>
  A box within one boot \<open>b\<close>: the guard of the current worker process and the callers whose
  \<^verbatim>\<open>consume\<close> has succeeded so far.  A restart constructs a new guard on the same register
  and the same file.  The reader of the boot id either fails or tells the truth.
\<close>

record 'r box =
  bx_guard :: "'r guard"
  bx_customers :: "string list"

definition io_in_boot :: "string \<Rightarrow> 'f boot_io \<Rightarrow> bool" where
  "io_in_boot b io = (io_boot_id io = None \<or> io_boot_id io = Some b)"

inductive box_step :: "('f, 'r) rtmr_ops \<Rightarrow> string \<Rightarrow> 'r box \<Rightarrow> 'r box \<Rightarrow> bool"
  for ops :: "('f, 'r) rtmr_ops" and b :: string where
  box_restart: "io_in_boot b io \<Longrightarrow>
    boot_init ops io (g_path (bx_guard s)) (g_marker (bx_guard s)) (g_reg (bx_guard s)) = Inr g \<Longrightarrow>
    box_step ops b s (s\<lparr>bx_guard := g\<rparr>)"
| box_check: "io_in_boot b io \<Longrightarrow> check ops io caller (bx_guard s) = (r, g) \<Longrightarrow>
    box_step ops b s (s\<lparr>bx_guard := g\<rparr>)"
| box_consume: "io_in_boot b io \<Longrightarrow> caller \<noteq> UNKNOWN_CONSUMER \<Longrightarrow>
    consume ops io caller now (bx_guard s) = (Inr (), g) \<Longrightarrow>
    box_step ops b s (s\<lparr>bx_guard := g, bx_customers := caller # bx_customers s\<rparr>)"
| box_refuse: "io_in_boot b io \<Longrightarrow> consume ops io caller now (bx_guard s) = (Inl e, g) \<Longrightarrow>
    box_step ops b s (s\<lparr>bx_guard := g\<rparr>)"
| box_released: "io_in_boot b io \<Longrightarrow> box_step ops b s (s\<lparr>bx_guard := released ops io now (bx_guard s)\<rparr>)"
| box_view: "io_in_boot b io \<Longrightarrow> boot_view ops io caller leased (bx_guard s) = (v, g) \<Longrightarrow>
    box_step ops b s (s\<lparr>bx_guard := g\<rparr>)"

text \<open>The start of a boot: a zero register and no marker written in this boot.\<close>

definition box_start :: "('r \<Rightarrow> bytes) \<Rightarrow> ('f, 'r) rtmr_ops \<Rightarrow> string \<Rightarrow> 'r box \<Rightarrow> bool" where
  "box_start val ops b s = (bx_customers s = [] \<and> (\<exists>io path m reg.
     io_in_boot b io \<and> boot_init ops io path m reg = Inr (bx_guard s) \<and> val reg = RTMR3_FRESH \<and>
     (\<forall>doc r. m = Content doc \<longrightarrow> parse_marker doc = Inr r \<longrightarrow> r_boot_id r \<noteq> b)))"

section \<open>Lemmas on the file\<close>

lemma marker_keys: "obj_keys [(''schema'', a), (''boot_id'', b), (''consumed_by'', c),
    (''consumed_at'', d), (''released_at'', e)] = MARKER_KEYS"
  by (auto simp: obj_keys_def MARKER_KEYS_def)

lemma number_json_time:
  "number (json_time t) = (case t of None \<Rightarrow> Inr None
     | Some r \<Rightarrow> if r < 0 then Inl (ValueError ''not a time'') else Inr (Some r))"
  by (simp add: json_time_def split: option.splits)

lemma parse_marker_document:
  "parse_marker (Some (marker_document r)) =
     (if \<not> is_boot_id (r_boot_id r) then Inl (ValueError ''bad boot id'')
      else if r_consumed_by r = Some [] then Inl (ValueError ''bad consumer'')
      else bindE (number (json_time (r_consumed_at r))) (\<lambda>ca.
        bindE (number (json_time (r_released_at r))) (\<lambda>ra.
        Inr \<lparr>r_boot_id = r_boot_id r, r_consumed_by = r_consumed_by r, r_consumed_at = ca, r_released_at = ra\<rparr>)))"
  by (simp add: parse_marker_def marker_document_def marker_keys obj_at_def obj_get_def json_text_def
        split: option.splits)

lemma parse_marker_document_fields:
  "parse_marker (Some (marker_document r)) = Inr r' \<Longrightarrow>
     r_boot_id r' = r_boot_id r \<and> r_consumed_by r' = r_consumed_by r"
  by (auto simp: parse_marker_document split: if_splits)

definition wf_record :: "BootRecord \<Rightarrow> bool" where
  "wf_record r = (is_boot_id (r_boot_id r) \<and> r_consumed_by r \<noteq> Some [] \<and>
     (\<forall>t. r_consumed_at r = Some t \<longrightarrow> 0 \<le> t) \<and> (\<forall>t. r_released_at r = Some t \<longrightarrow> 0 \<le> t))"

lemma parse_marker_roundtrip: "wf_record r \<Longrightarrow> parse_marker (Some (marker_document r)) = Inr r"
  by (auto simp: parse_marker_document number_json_time wf_record_def split: option.splits)


definition sample_boot_id :: string where
  "sample_boot_id = ''01234567-89ab-cdef-0123-456789abcdef''"

lemma sample_boot_id_ok: "is_boot_id sample_boot_id"
  by code_simp

definition sample_guard :: "bytes guard" where
  "sample_guard = \<lparr>g_record = \<lparr>r_boot_id = sample_boot_id, r_consumed_by = Some ''alice'',
       r_consumed_at = Some 5, r_released_at = None\<rparr>, g_booted_at = 1, g_extended = True,
     g_reg = RTMR3_CONSUMED, g_path = True, g_marker = NoFile\<rparr>"


section \<open>Lemmas on one operation\<close>

lemma store_fields:
  assumes "store out g = (ok, g')"
  shows "g_record g' = g_record g" "g_extended g' = g_extended g" "g_reg g' = g_reg g" "g_path g' = g_path g"
    "g_marker g' = g_marker g \<or> g_marker g' = Content (Some (marker_document (g_record g))) \<or> g_marker g' = Content None"
  using assms by (auto simp: store_def split: if_splits store_outcome.splits)

lemma close_record_fields [simp]:
  "r_boot_id (g_record (close_record g)) = r_boot_id (g_record g)"
  "r_consumed_by (g_record (close_record g)) = Some UNKNOWN_CONSUMER"
  "g_extended (close_record g) = g_extended g" "g_reg (close_record g) = g_reg g"
  "g_path (close_record g) = g_path g" "g_marker (close_record g) = g_marker g"
  by (simp_all add: close_record_def unknown_record_def Let_def)

lemma current_same_boot:
  assumes "io_in_boot b io" "r_boot_id (g_record g) = b"
  shows "current ops io g = (if checked_boot_id (io_boot_id io) = Inr b then Some (g_record g) else None, g)"
  using assms by (auto simp: current_def io_in_boot_def checked_boot_id_def split: option.splits)

lemma check_same_boot:
  assumes "io_in_boot b io" "r_boot_id (g_record g) = b" "check ops io caller g = (res, g')"
  shows "g' = g \<and> (res = Inr () \<longrightarrow> r_consumed_by (g_record g) = None \<or> r_consumed_by (g_record g) = Some caller)"
  using assms by (auto simp: check_def current_same_boot split: if_splits)

text \<open>
  What a guard may say about its boot, given the callers \<open>cs\<close> that consumed it: the record and
  the file name no one else, and once there is a caller the record is not fresh.
\<close>

definition record_names :: "string \<Rightarrow> string list \<Rightarrow> BootRecord \<Rightarrow> bool" where
  "record_names b cs r =
     (r_boot_id r = b \<and>
      (\<forall>c. r_consumed_by r = Some c \<longrightarrow> c \<noteq> UNKNOWN_CONSUMER \<longrightarrow> c \<in> set cs) \<and>
      (\<forall>c \<in> set cs. r_consumed_by r = Some c \<or> r_consumed_by r = Some UNKNOWN_CONSUMER))"

definition marker_names :: "string \<Rightarrow> string list \<Rightarrow> marker_file \<Rightarrow> bool" where
  "marker_names b cs m =
     (\<forall>doc r c. m = Content doc \<longrightarrow> parse_marker doc = Inr r \<longrightarrow> r_boot_id r = b \<longrightarrow>
        r_consumed_by r = Some c \<longrightarrow> c \<noteq> UNKNOWN_CONSUMER \<longrightarrow> c \<in> set cs)"

definition names_only :: "string \<Rightarrow> string list \<Rightarrow> 'r guard \<Rightarrow> bool" where
  "names_only b cs g = (record_names b cs (g_record g) \<and> (g_path g \<longrightarrow> marker_names b cs (g_marker g)))"

lemma parse_marker_None [simp]: "parse_marker None = Inl (ValueError ''not a document'')"
  by (simp add: parse_marker_def)

lemma marker_names_torn: "marker_names b cs (Content None)"
  by (simp add: marker_names_def)

lemma marker_names_document:
  assumes "record_names b cs r" shows "marker_names b cs (Content (Some (marker_document r)))"
  unfolding marker_names_def
proof (intro allI impI)
  fix doc r' c
  assume "Content (Some (marker_document r)) = Content doc" and p: "parse_marker doc = Inr r'"
    and c: "r_consumed_by r' = Some c" "c \<noteq> UNKNOWN_CONSUMER"
  then have "parse_marker (Some (marker_document r)) = Inr r'" by simp
  from parse_marker_document_fields [OF this] c assms show "c \<in> set cs"
    by (simp add: record_names_def)
qed

lemma record_names_unknown: "record_names b cs (unknown_record b x y)"
  by (simp add: record_names_def unknown_record_def)

lemma names_only_store:
  assumes "names_only b cs g" "store out g = (ok, g')"
  shows "names_only b cs g'"
proof -
  note f = store_fields [OF assms(2)]
  have "g_path g \<Longrightarrow> marker_names b cs (g_marker g')"
    using f(5) assms(1) marker_names_document marker_names_torn
    by (elim disjE) (simp_all add: names_only_def)
  then show ?thesis using assms(1) f(1,4) by (simp add: names_only_def)
qed

lemma names_only_close:
  assumes "names_only b cs g" shows "names_only b cs (close_record g)"
proof -
  have "r_boot_id (g_record g) = b" using assms by (simp add: names_only_def record_names_def)
  then have "record_names b cs (g_record (close_record g))"
    using record_names_unknown by (simp add: close_record_def Let_def)
  then show ?thesis using assms by (simp add: names_only_def)
qed

lemma names_only_store_or_close:
  assumes "names_only b cs g" shows "names_only b cs (store_or_close out g)"
proof -
  obtain ok g' where st: "store out g = (ok, g')" by (cases "store out g")
  have "names_only b cs g'" by (rule names_only_store [OF assms st])
  then show ?thesis by (cases ok) (simp_all add: store_or_close_def st names_only_close)
qed

lemma names_only_boot_close:
  assumes "names_only b cs g" shows "names_only b cs (boot_close out g)"
proof -
  obtain ok g' where st: "store out (close_record g) = (ok, g')" by (cases "store out (close_record g)")
  from names_only_store [OF names_only_close [OF assms] st] show ?thesis by (simp add: boot_close_def st)
qed

lemma store_or_close_fields [simp]:
  "g_extended (store_or_close out g) = g_extended g" "g_reg (store_or_close out g) = g_reg g"
  "g_path (store_or_close out g) = g_path g"
  by (simp_all add: store_or_close_def store_def split: store_outcome.splits)

lemma store_or_close_consumer:
  "r_consumed_by (g_record (store_or_close out g)) = r_consumed_by (g_record g) \<or>
   r_consumed_by (g_record (store_or_close out g)) = Some UNKNOWN_CONSUMER"
  by (simp add: store_or_close_def store_def split: store_outcome.splits)

lemma boot_close_fields [simp]:
  "g_extended (boot_close out g) = g_extended g" "g_reg (boot_close out g) = g_reg g"
  "g_path (boot_close out g) = g_path g"
  "r_consumed_by (g_record (boot_close out g)) = Some UNKNOWN_CONSUMER"
  by (simp_all add: boot_close_def store_def split: store_outcome.splits)

section \<open>The register contract and the invariant\<close>

definition boot_inv :: "('r \<Rightarrow> bytes) \<Rightarrow> string \<Rightarrow> 'r box \<Rightarrow> bool" where
  "boot_inv val b s = (let g = bx_guard s; cs = bx_customers s; v = val (g_reg g) in
     names_only b cs g \<and>
     (\<forall>c \<in> set cs. c \<noteq> UNKNOWN_CONSUMER \<and> v = RTMR3_CONSUMED) \<and>
     (\<forall>c \<in> set cs. \<forall>c' \<in> set cs. c = c') \<and>
     (v = RTMR3_FRESH \<or> v = RTMR3_CONSUMED) \<and>
     (g_extended g \<longrightarrow> v = RTMR3_CONSUMED) \<and>
     (r_consumed_by (g_record g) = None \<longrightarrow> \<not> g_extended g \<longrightarrow> v = RTMR3_FRESH))"

lemma boot_inv_iff:
  "boot_inv val b \<lparr>bx_guard = g, bx_customers = cs\<rparr> \<longleftrightarrow>
     names_only b cs g \<and>
     (\<forall>c \<in> set cs. c \<noteq> UNKNOWN_CONSUMER \<and> val (g_reg g) = RTMR3_CONSUMED) \<and>
     (\<forall>c \<in> set cs. \<forall>c' \<in> set cs. c = c') \<and>
     (val (g_reg g) = RTMR3_FRESH \<or> val (g_reg g) = RTMR3_CONSUMED) \<and>
     (g_extended g \<longrightarrow> val (g_reg g) = RTMR3_CONSUMED) \<and>
     (r_consumed_by (g_record g) = None \<longrightarrow> \<not> g_extended g \<longrightarrow> val (g_reg g) = RTMR3_FRESH)"
  by (simp add: boot_inv_def Let_def)

lemma marker_names_mono: "marker_names b cs m \<Longrightarrow> set cs \<subseteq> set cs' \<Longrightarrow> marker_names b cs' m"
  unfolding marker_names_def by blast

lemma load_names:
  assumes "load path m b t = Inr rec" "path \<longrightarrow> marker_names b cs m"
  shows "r_boot_id rec = b \<and> (\<forall>c. r_consumed_by rec = Some c \<longrightarrow> c \<noteq> UNKNOWN_CONSUMER \<longrightarrow> c \<in> set cs)"
proof (cases m)
  case (Content doc)
  then show ?thesis
    using assms
    by (auto simp: load_def fresh_record_def unknown_record_def marker_names_def
          split: if_splits sum.splits exn.splits)
qed (use assms in \<open>auto simp: load_def fresh_record_def unknown_record_def split: if_splits\<close>)

lemma store_fails: "store out g = (False, g') \<Longrightarrow> g' = g"
  by (auto simp: store_def split: if_splits store_outcome.splits)

lemma commit_record_refused:
  assumes "commit_record out (g_record g0) rec g0 = (res, g)" "res \<noteq> Inr ()"
  shows "g = g0"
proof -
  obtain ok g' where st: "store out (g0\<lparr>g_record := rec\<rparr>) = (ok, g')"
    by (cases "store out (g0\<lparr>g_record := rec\<rparr>)")
  with assms have "\<not> ok" "g = g'\<lparr>g_record := g_record g0\<rparr>"
    by (cases ok; simp add: commit_record_def)+
  with st store_fails [of out "g0\<lparr>g_record := rec\<rparr>" g'] show ?thesis by simp
qed

locale lease_register =
  fixes ops :: "('f, 'r) rtmr_ops" and val :: "'r \<Rightarrow> bytes"
  assumes read_val: "op_read ops f r = Inr v \<Longrightarrow> v = val r"
    and extend_val: "op_extend ops f d r = (res, r') \<Longrightarrow> val r' = val r \<or> val r' = sha384 (val r @ d)"
begin

lemma checked_val: "checked_rtmr3 ops f r = Inr v \<Longrightarrow> v = val r"
  by (auto simp: checked_rtmr3_def split: sum.splits if_splits dest: read_val)

lemma init_inv:
  assumes io: "io_in_boot b io" and init: "boot_init ops io path m reg = Inr g"
    and m: "path \<longrightarrow> marker_names b cs m"
    and cs: "\<forall>c \<in> set cs. c \<noteq> UNKNOWN_CONSUMER \<and> val reg = RTMR3_CONSUMED" "\<forall>c \<in> set cs. \<forall>c' \<in> set cs. c = c'"
    and v: "val reg = RTMR3_FRESH \<or> val reg = RTMR3_CONSUMED"
  shows "boot_inv val b \<lparr>bx_guard = g, bx_customers = cs\<rparr>"
proof -
  obtain rec t where ld: "load path m b (io_clock io) = Inr rec"
    and g: "g = (let ext = (val reg = RTMR3_CONSUMED); con = (r_consumed_by rec \<noteq> None);
        g0 = \<lparr>g_record = rec, g_booted_at = t, g_extended = ext, g_reg = reg, g_path = path, g_marker = m\<rparr>
      in if ext \<noteq> con
         then store_or_close (io_store io) (g0\<lparr>g_record := unknown_record b None (Some (io_clock io))\<rparr>)
         else if con \<and> r_released_at rec = None
         then store_or_close (io_store io) (g0\<lparr>g_record := rec\<lparr>r_boot_id := b, r_released_at := Some (io_clock io)\<rparr>\<rparr>)
         else g0)"
  proof -
    have "checked_boot_id (io_boot_id io) = Inr b" if "checked_boot_id (io_boot_id io) = Inr b'" for b'
      using io that by (auto simp: io_in_boot_def checked_boot_id_def split: option.splits if_splits)
    then show thesis
      using init that v by (auto simp: boot_init_def Let_def dest!: checked_val)
  qed
  note n = load_names [OF ld m]
  define ext where "ext = (val reg = RTMR3_CONSUMED)"
  define con where "con = (r_consumed_by rec \<noteq> None)"
  define g0 where "g0 = \<lparr>g_record = rec, g_booted_at = t, g_extended = ext, g_reg = reg, g_path = path, g_marker = m\<rparr>"
  have named: "record_names b cs rec" if "ext = con"
  proof -
    have "r_consumed_by rec = Some c \<or> r_consumed_by rec = Some UNKNOWN_CONSUMER" if "c \<in> set cs" for c
    proof -
      have "con" using cs(1) that \<open>ext = con\<close> by (simp add: ext_def)
      then obtain c' where "r_consumed_by rec = Some c'" by (auto simp: con_def)
      moreover have "c' \<noteq> UNKNOWN_CONSUMER \<Longrightarrow> c' = c" using n calculation cs(2) that by blast
      ultimately show ?thesis by blast
    qed
    then show ?thesis using n by (simp add: record_names_def)
  qed
  have rel: "record_names b cs (rec\<lparr>r_boot_id := b, r_released_at := x\<rparr>)" if "ext = con" for x
    using named [OF that] by (simp add: record_names_def)
  have g': "g = (if ext \<noteq> con then store_or_close (io_store io) (g0\<lparr>g_record := unknown_record b None (Some (io_clock io))\<rparr>)
      else if con \<and> r_released_at rec = None
      then store_or_close (io_store io) (g0\<lparr>g_record := rec\<lparr>r_boot_id := b, r_released_at := Some (io_clock io)\<rparr>\<rparr>) else g0)"
    unfolding g Let_def ext_def con_def g0_def by simp
  have "names_only b cs (g0\<lparr>g_record := unknown_record b None (Some (io_clock io))\<rparr>)"
    "ext = con \<Longrightarrow> names_only b cs (g0\<lparr>g_record := rec\<lparr>r_boot_id := b, r_released_at := Some (io_clock io)\<rparr>\<rparr>)"
    "ext = con \<Longrightarrow> names_only b cs g0"
    using m named rel record_names_unknown by (simp_all add: names_only_def g0_def)
  then have "names_only b cs g"
    unfolding g' by (simp add: names_only_store_or_close)
  moreover have "g_extended g = ext \<and> g_reg g = reg" unfolding g' by (simp add: g0_def)
  moreover have "r_consumed_by (g_record g) = None \<Longrightarrow> \<not> con \<and> \<not> ext"
    using store_or_close_consumer [of "io_store io" "g0\<lparr>g_record := unknown_record b None (Some (io_clock io))\<rparr>"]
      store_or_close_consumer [of "io_store io" "g0\<lparr>g_record := rec\<lparr>r_boot_id := b, r_released_at := Some (io_clock io)\<rparr>\<rparr>"]
    unfolding g' by (auto simp: con_def g0_def unknown_record_def split: if_splits)
  ultimately show ?thesis
    using cs v by (auto simp: boot_inv_def Let_def ext_def)
qed

lemma extend_once_inv:
  assumes inv: "boot_inv val b \<lparr>bx_guard = g0, bx_customers = []\<rparr>" and none: "r_consumed_by (g_record g0) = None"
    and ext: "extend_once ops io g0 = (res, g)"
  shows "boot_inv val b \<lparr>bx_guard = g, bx_customers = []\<rparr> \<and>
    (res = Inr () \<longrightarrow> val (g_reg g) = RTMR3_CONSUMED \<and> g_record g = g_record g0)"
proof (cases "g_extended g0")
  case True
  then show ?thesis using assms by (auto simp: extend_once_def boot_inv_def Let_def)
next
  case False
  with inv none have fresh: "val (g_reg g0) = RTMR3_FRESH" and nm: "names_only b [] g0"
    by (auto simp: boot_inv_def Let_def)
  obtain r1 reg' where op: "op_extend ops (io_extend io) LEASE_EVENT_DIGEST (g_reg g0) = (r1, reg')"
    by (cases "op_extend ops (io_extend io) LEASE_EVENT_DIGEST (g_reg g0)")
  have v': "val reg' = RTMR3_FRESH \<or> val reg' = RTMR3_CONSUMED"
    using extend_val [OF op] by (simp add: fresh RTMR3_CONSUMED_eq)
  have nm': "names_only b [] (g0\<lparr>g_reg := reg'\<rparr>)" "names_only b [] (g0\<lparr>g_reg := reg', g_extended := True\<rparr>)"
    using nm by (simp_all add: names_only_def)
  have closed: "boot_inv val b \<lparr>bx_guard = boot_close out (g0\<lparr>g_reg := reg'\<rparr>), bx_customers = []\<rparr>" for out
    using names_only_boot_close [OF nm'(1)] v' False by (simp add: boot_inv_def Let_def)
  have kept: "boot_inv val b \<lparr>bx_guard = g0\<lparr>g_reg := reg'\<rparr>, bx_customers = []\<rparr>" if "val reg' = RTMR3_FRESH"
    using nm'(1) that False by (simp add: boot_inv_def Let_def)
  have landed: "boot_inv val b \<lparr>bx_guard = g0\<lparr>g_reg := reg', g_extended := True\<rparr>, bx_customers = []\<rparr>"
    if "val reg' = RTMR3_CONSUMED"
    using nm'(2) that by (simp add: boot_inv_def Let_def)
  show ?thesis
  proof (cases r1)
    case (Inl e)
    then show ?thesis
      using ext False op closed kept landed
      by (auto simp: extend_once_def Let_def split: sum.splits if_splits dest!: checked_val)
  next
    case (Inr u)
    then show ?thesis
      using ext False op closed landed
      by (auto simp: extend_once_def Let_def split: if_splits dest!: checked_val)
  qed
qed

lemma commit_inv:
  assumes inv: "boot_inv val b \<lparr>bx_guard = g0, bx_customers = cs\<rparr>"
    and v: "val (g_reg g0) = RTMR3_CONSUMED" and cl: "caller \<noteq> UNKNOWN_CONSUMER" "set cs \<subseteq> {caller}"
    and rec: "r_boot_id rec = b" "r_consumed_by rec = Some caller"
    and com: "commit_record out (g_record g0) rec g0 = (res, g)"
  shows "boot_inv val b \<lparr>bx_guard = g, bx_customers = (if res = Inr () then caller # cs else cs)\<rparr>"
proof -
  obtain ok g' where st: "store out (g0\<lparr>g_record := rec\<rparr>) = (ok, g')"
    by (cases "store out (g0\<lparr>g_record := rec\<rparr>)")
  note f = store_fields [OF st]
  have nm0: "names_only b cs g0" using inv by (simp only: boot_inv_iff)
  have "g_path g0 \<longrightarrow> marker_names b (caller # cs) (g_marker g0)"
    using nm0 marker_names_mono [OF _ set_subset_Cons] unfolding names_only_def by blast
  moreover have "record_names b (caller # cs) rec"
    using rec cl(2) unfolding record_names_def by auto
  ultimately have "names_only b (caller # cs) (g0\<lparr>g_record := rec\<rparr>)" by (simp add: names_only_def)
  then have nm: "names_only b (caller # cs) g'" by (rule names_only_store [OF _ st])
  show ?thesis
  proof (cases ok)
    case True
    then have res: "res = Inr ()" and g: "g = g'" using com st by (simp_all add: commit_record_def)
    have reg: "val (g_reg g') = RTMR3_CONSUMED" and who: "r_consumed_by (g_record g') = Some caller"
      using f v rec by simp_all
    have all: "\<forall>c \<in> set (caller # cs). c = caller" using cl(2) by auto
    then have "\<forall>c \<in> set (caller # cs). c \<noteq> UNKNOWN_CONSUMER"
      "\<forall>c \<in> set (caller # cs). \<forall>c' \<in> set (caller # cs). c = c'"
      using cl(1) by metis+
    then show ?thesis
      unfolding boot_inv_iff res g using nm reg who by simp
  next
    case False
    then have "res \<noteq> Inr ()" using com st by (auto simp: commit_record_def)
    with commit_record_refused [OF com] inv show ?thesis by simp
  qed
qed

lemma inv_same_set:
  assumes "boot_inv val b \<lparr>bx_guard = g, bx_customers = cs\<rparr>" "set cs' = set cs"
  shows "boot_inv val b \<lparr>bx_guard = g, bx_customers = cs'\<rparr>"
  using assms(1) unfolding boot_inv_iff names_only_def record_names_def marker_names_def assms(2) .

lemma consume_inv_fresh:
  assumes inv: "boot_inv val b \<lparr>bx_guard = g0, bx_customers = cs\<rparr>" and b: "r_boot_id (g_record g0) = b"
    and rn: "record_names b cs (g_record g0)" and none: "r_consumed_by (g_record g0) = None"
    and con: "consume ops io caller now g0 = (res, g)"
    and cl: "res = Inr () \<longrightarrow> caller \<noteq> UNKNOWN_CONSUMER"
    and ck: "check ops io caller g0 = (Inr (), g0)"
  shows "boot_inv val b \<lparr>bx_guard = g, bx_customers = (if res = Inr () then caller # cs else cs)\<rparr>"
proof -
  have nil: "cs = []" using rn none by (cases cs) (auto simp: record_names_def)
  obtain r2 g2 where ex: "extend_once ops io g0 = (r2, g2)" by (cases "extend_once ops io g0")
  have inv2: "boot_inv val b \<lparr>bx_guard = g2, bx_customers = []\<rparr>"
    and ok: "r2 = Inr () \<Longrightarrow> val (g_reg g2) = RTMR3_CONSUMED \<and> g_record g2 = g_record g0"
    using extend_once_inv [OF inv [unfolded nil] none ex] by blast+
  show ?thesis
  proof (cases r2)
    case (Inl e)
    then have "res = Inl e" "g = g2" using con by (simp_all add: consume_def ck none ex Let_def)
    then show ?thesis using inv2 nil by simp
  next
    case (Inr u)
    then have ok': "val (g_reg g2) = RTMR3_CONSUMED" "g_record g2 = g_record g0" using ok by simp_all
    let ?rec = "\<lparr>r_boot_id = b, r_consumed_by = Some caller, r_consumed_at = Some now, r_released_at = None\<rparr>"
    have com: "commit_record (io_store io) (g_record g2) ?rec g2 = (res, g)"
      using con by (simp add: consume_def ck none ex Inr ok'(2) b Let_def)
    show ?thesis
    proof (cases "res = Inr ()")
      case True
      then show ?thesis using commit_inv [OF inv2 ok'(1) _ _ _ _ com] cl nil by simp
    next
      case False
      then show ?thesis using commit_record_refused [OF com] inv2 nil by simp
    qed
  qed
qed

lemma consume_inv_again:
  assumes inv: "boot_inv val b \<lparr>bx_guard = g0, bx_customers = cs\<rparr>" and b: "r_boot_id (g_record g0) = b"
    and rn: "record_names b cs (g_record g0)" and same: "r_consumed_by (g_record g0) = Some caller"
    and con: "consume ops io caller now g0 = (res, g)"
    and cl: "res = Inr () \<longrightarrow> caller \<noteq> UNKNOWN_CONSUMER"
    and ck: "check ops io caller g0 = (Inr (), g0)"
  shows "boot_inv val b \<lparr>bx_guard = g, bx_customers = (if res = Inr () then caller # cs else cs)\<rparr>"
proof -
  let ?rec = "\<lparr>r_boot_id = b, r_consumed_by = Some caller,
      r_consumed_at = r_consumed_at (g_record g0), r_released_at = None\<rparr>"
  have con': "(if r_released_at (g_record g0) = None then (Inr (), g0)
      else commit_record (io_store io) (g_record g0) ?rec g0) = (res, g)"
    using con unfolding consume_def ck by (simp only: prod.case sum.case Let_def same b option.distinct simp_thms if_True)
  show ?thesis
  proof (cases "res = Inr ()")
    case False
    have "g = g0"
    proof (cases "r_released_at (g_record g0) = None")
      case True
      then show ?thesis using con' by simp
    next
      case rel: False
      then have "commit_record (io_store io) (g_record g0) ?rec g0 = (res, g)" using con' by (simp only: if_False)
      then show ?thesis by (rule commit_record_refused) (rule False)
    qed
    with False inv show ?thesis by simp
  next
    case True
    with cl have ne: "caller \<noteq> UNKNOWN_CONSUMER" by simp
    then have mem: "caller \<in> set cs" using rn same by (simp add: record_names_def)
    then have v: "val (g_reg g0) = RTMR3_CONSUMED" and cs: "set cs = {caller}"
      using inv unfolding boot_inv_iff by blast+
    show ?thesis
    proof (cases "r_released_at (g_record g0) = None")
      case True
      then have "g = g0" using con' by simp
      then show ?thesis using inv_same_set [OF inv, of "caller # cs"] cs \<open>res = Inr ()\<close> by simp
    next
      case False
      then have com: "commit_record (io_store io) (g_record g0) ?rec g0 = (res, g)" using con' by (simp only: if_False)
      show ?thesis using commit_inv [OF inv v ne _ _ _ com] cs by simp
    qed
  qed
qed

lemma consume_inv:
  assumes inv: "boot_inv val b \<lparr>bx_guard = g0, bx_customers = cs\<rparr>" and io: "io_in_boot b io"
    and con: "consume ops io caller now g0 = (res, g)"
    and cl: "res = Inr () \<longrightarrow> caller \<noteq> UNKNOWN_CONSUMER"
  shows "boot_inv val b \<lparr>bx_guard = g, bx_customers = (if res = Inr () then caller # cs else cs)\<rparr>"
proof -
  have rn: "record_names b cs (g_record g0)"
    using inv unfolding boot_inv_iff names_only_def by (elim conjE)
  then have b: "r_boot_id (g_record g0) = b" by (simp only: record_names_def)
  obtain r1 g1 where ck: "check ops io caller g0 = (r1, g1)" by (cases "check ops io caller g0")
  have g1: "g1 = g0" and ok: "r1 = Inr () \<Longrightarrow> r_consumed_by (g_record g0) = None \<or> r_consumed_by (g_record g0) = Some caller"
    using check_same_boot [OF io b ck] by blast+
  show ?thesis
  proof (cases r1)
    case (Inl e)
    then have "res = Inl e" "g = g0" using con by (simp_all add: consume_def ck g1)
    then show ?thesis using inv by simp
  next
    case (Inr u)
    then have r1: "r1 = Inr ()" by simp
    consider (none) "r_consumed_by (g_record g0) = None" | (same) "r_consumed_by (g_record g0) = Some caller"
      using ok [OF r1] by auto
    then show ?thesis
    proof cases
      case none
      then show ?thesis by (rule consume_inv_fresh [OF inv b rn _ con cl ck [unfolded g1 r1]])
    next
      case same
      then show ?thesis by (rule consume_inv_again [OF inv b rn _ con cl ck [unfolded g1 r1]])
    qed
  qed
qed

lemma released_inv:
  assumes inv: "boot_inv val b \<lparr>bx_guard = g0, bx_customers = cs\<rparr>" and io: "io_in_boot b io"
  shows "boot_inv val b \<lparr>bx_guard = released ops io now g0, bx_customers = cs\<rparr>"
proof -
  have rn: "record_names b cs (g_record g0)" and mn: "g_path g0 \<longrightarrow> marker_names b cs (g_marker g0)"
    using inv unfolding boot_inv_iff names_only_def by blast+
  then have b: "r_boot_id (g_record g0) = b" by (simp only: record_names_def)
  define rec where "rec = \<lparr>r_boot_id = r_boot_id (g_record g0), r_consumed_by = r_consumed_by (g_record g0),
      r_consumed_at = r_consumed_at (g_record g0), r_released_at = Some now\<rparr>"
  define g1 where "g1 = g0\<lparr>g_record := rec\<rparr>"
  consider "released ops io now g0 = g0"
    | "released ops io now g0 = store_or_close (io_store io) g1" "r_consumed_by (g_record g0) \<noteq> None"
    by (cases "checked_boot_id (io_boot_id io) = Inr b"; cases "r_consumed_by (g_record g0) = None")
       (simp_all add: released_def current_same_boot [OF io b] g1_def rec_def)
  then show ?thesis
  proof cases
    case 1
    then show ?thesis using inv by simp
  next
    case 2
    have "record_names b cs rec" using rn by (simp add: record_names_def rec_def)
    then have "names_only b cs g1" using mn by (simp add: names_only_def g1_def)
    then have nm: "names_only b cs (store_or_close (io_store io) g1)" by (rule names_only_store_or_close)
    have "r_consumed_by (g_record (store_or_close (io_store io) g1)) \<noteq> None"
      using store_or_close_consumer [of "io_store io" g1] 2(2) by (auto simp: g1_def rec_def)
    then show ?thesis
      using inv nm unfolding 2(1) boot_inv_iff by (simp add: g1_def del: not_None_eq)
  qed
qed

lemma view_same:
  assumes "boot_inv val b \<lparr>bx_guard = g0, bx_customers = cs\<rparr>" "io_in_boot b io"
    and "boot_view ops io caller leased g0 = (v, g)"
  shows "g = g0"
proof -
  have "r_boot_id (g_record g0) = b"
    using assms(1) unfolding boot_inv_iff names_only_def record_names_def by (elim conjE)
  from current_same_boot [OF assms(2) this, of ops] assms(3) show ?thesis
    by (simp add: boot_view_def Let_def)
qed

lemma box_step_inv: "box_step ops b s s' \<Longrightarrow> boot_inv val b s \<Longrightarrow> boot_inv val b s'"
proof (induction rule: box_step.induct)
  case (box_restart io s g)
  obtain g0 cs where s: "s = \<lparr>bx_guard = g0, bx_customers = cs\<rparr>" by (cases s)
  have i: "names_only b cs g0" "\<forall>c \<in> set cs. c \<noteq> UNKNOWN_CONSUMER \<and> val (g_reg g0) = RTMR3_CONSUMED"
      "\<forall>c \<in> set cs. \<forall>c' \<in> set cs. c = c'" "val (g_reg g0) = RTMR3_FRESH \<or> val (g_reg g0) = RTMR3_CONSUMED"
    using box_restart.prems unfolding s boot_inv_iff by blast+
  have "g_path g0 \<longrightarrow> marker_names b cs (g_marker g0)" using i(1) unfolding names_only_def by blast
  from init_inv [OF box_restart.hyps(1) box_restart.hyps(2) [unfolded s, simplified] this i(2-4)]
  show ?case by (simp add: s)
next
  case (box_check io caller s r g)
  obtain g0 cs where s: "s = \<lparr>bx_guard = g0, bx_customers = cs\<rparr>" by (cases s)
  have "r_boot_id (g_record g0) = b"
    using box_check.prems unfolding s boot_inv_iff names_only_def record_names_def by (elim conjE)
  from check_same_boot [OF box_check.hyps(1) this] box_check.hyps(2) box_check.prems show ?case by (auto simp: s)
next
  case (box_consume io caller now s g)
  obtain g0 cs where s: "s = \<lparr>bx_guard = g0, bx_customers = cs\<rparr>" by (cases s)
  from consume_inv [OF box_consume.prems [unfolded s] box_consume.hyps(1) box_consume.hyps(3) [unfolded s, simplified]]
    box_consume.hyps(2) show ?case by (simp add: s)
next
  case (box_refuse io caller now s e g)
  obtain g0 cs where s: "s = \<lparr>bx_guard = g0, bx_customers = cs\<rparr>" by (cases s)
  from consume_inv [OF box_refuse.prems [unfolded s] box_refuse.hyps(1) box_refuse.hyps(2) [unfolded s, simplified]]
  show ?case by (simp add: s)
next
  case (box_released io s now)
  obtain g0 cs where s: "s = \<lparr>bx_guard = g0, bx_customers = cs\<rparr>" by (cases s)
  from released_inv [OF box_released.prems [unfolded s] box_released.hyps] show ?case by (simp add: s)
next
  case (box_view io caller leased s v g)
  obtain g0 cs where s: "s = \<lparr>bx_guard = g0, bx_customers = cs\<rparr>" by (cases s)
  from view_same [OF box_view.prems [unfolded s] box_view.hyps(1) box_view.hyps(2) [unfolded s, simplified]]
    box_view.prems show ?case by (simp add: s)
qed

lemma box_start_inv: "box_start val ops b s \<Longrightarrow> boot_inv val b s"
proof -
  assume st: "box_start val ops b s"
  obtain g0 cs where s: "s = \<lparr>bx_guard = g0, bx_customers = cs\<rparr>" by (cases s)
  obtain io path m reg where i: "cs = []" "io_in_boot b io" "boot_init ops io path m reg = Inr g0" "val reg = RTMR3_FRESH"
    and m: "\<forall>doc r. m = Content doc \<longrightarrow> parse_marker doc = Inr r \<longrightarrow> r_boot_id r \<noteq> b"
    using st unfolding box_start_def s by auto
  have "path \<longrightarrow> marker_names b [] m" using m unfolding marker_names_def by blast
  from init_inv [OF i(2,3) this] i(1,4) show ?thesis by (simp add: s)
qed

end

sublocale lease_register \<subseteq> boot_run: invariant_system "box_start val ops b" "box_step ops b" "boot_inv val b"
  by unfold_locales (auto intro: box_start_inv box_step_inv)

section \<open>Both registers keep the contract\<close>

definition soft_value :: "bytes option \<Rightarrow> bytes" where
  "soft_value file = (case file of None \<Rightarrow> replicate RTMR_BYTES 0 | Some c \<Rightarrow> c)"

lemma soft_read_value: "soft_read f c = Inr v \<Longrightarrow> v = soft_value c"
  by (cases c) (auto simp: soft_read_def soft_value_def RTMR_BYTES_def Let_def split: fault.splits if_splits)

interpretation tdx: lease_register SysfsRtmr3 "\<lambda>hw. hw"
proof
  fix f r v assume "op_read SysfsRtmr3 f r = Inr v"
  then show "v = r"
    by (auto simp: SysfsRtmr3_def sysfs_read_def RTMR_BYTES_def Let_def split: fault.splits if_splits)
next
  fix f d r res r' assume "op_extend SysfsRtmr3 f d r = (res, r')"
  then show "r' = r \<or> r' = sha384 (r @ d)"
    by (auto simp: SysfsRtmr3_def sysfs_extend_def split: fault.splits if_splits)
qed

interpretation snp: lease_register SoftwareLeaseRegister soft_value
proof
  fix f r v assume "op_read SoftwareLeaseRegister f r = Inr v"
  then show "v = soft_value r" by (simp add: SoftwareLeaseRegister_def soft_read_value)
next
  fix f d r res r' assume op: "op_extend SoftwareLeaseRegister f d r = (res, r')"
  show "soft_value r' = soft_value r \<or> soft_value r' = sha384 (soft_value r @ d)"
  proof (cases "soft_read (fst f) r")
    case (Inl e)
    then show ?thesis using op by (auto simp: SoftwareLeaseRegister_def soft_extend_def split: if_splits)
  next
    case (Inr v)
    then have "v = soft_value r" by (rule soft_read_value)
    then show ?thesis
      using op Inr
      by (auto simp: SoftwareLeaseRegister_def soft_extend_def rtmr_extend_def soft_value_def
            split: if_splits fault.splits)
  qed
qed

section \<open>One customer per boot\<close>

lemma boot_inv_customers:
  assumes "boot_inv val b s" "c \<in> set (bx_customers s)" "c' \<in> set (bx_customers s)"
  shows "c = c' \<and> val (g_reg (bx_guard s)) = RTMR3_CONSUMED"
  using assms unfolding boot_inv_def Let_def by blast

text \<open>
  C3: one customer per boot on TDX.  In every run of a boot, with any sequence of lease checks,
  consumptions, releases, reports and worker restarts and any failing system calls, all callers
  whose consumption succeeded are the same caller, and RTMR3 then holds the consumed value; RTMR3
  never holds anything but zeros or that value.
\<close>

theorem one_customer_per_boot_tdx:
  assumes "reach (box_start (\<lambda>hw. hw) SysfsRtmr3 b) (box_step SysfsRtmr3 b) s"
  shows "(\<forall>c \<in> set (bx_customers s). \<forall>c' \<in> set (bx_customers s). c = c') \<and>
    (bx_customers s \<noteq> [] \<longrightarrow> g_reg (bx_guard s) = RTMR3_CONSUMED) \<and>
    (g_reg (bx_guard s) = RTMR3_FRESH \<or> g_reg (bx_guard s) = RTMR3_CONSUMED)"
proof -
  have inv: "boot_inv (\<lambda>hw. hw) b s" by (rule tdx.boot_run.reach_inv [OF assms])
  note cs = boot_inv_customers [OF inv]
  have "bx_customers s \<noteq> [] \<Longrightarrow> g_reg (bx_guard s) = RTMR3_CONSUMED"
    using cs [of "hd (bx_customers s)" "hd (bx_customers s)"] by simp
  then show ?thesis using cs inv unfolding boot_inv_def Let_def by blast
qed

text \<open>
  C6: one customer per boot on SEV-SNP.  The same holds with the software lease register, whose value
  is its file, or zeros when there is none.
\<close>

theorem one_customer_per_boot_snp:
  assumes "reach (box_start soft_value SoftwareLeaseRegister b) (box_step SoftwareLeaseRegister b) s"
  shows "(\<forall>c \<in> set (bx_customers s). \<forall>c' \<in> set (bx_customers s). c = c') \<and>
    (bx_customers s \<noteq> [] \<longrightarrow> soft_value (g_reg (bx_guard s)) = RTMR3_CONSUMED)"
proof -
  have inv: "boot_inv soft_value b s" by (rule snp.boot_run.reach_inv [OF assms])
  note cs = boot_inv_customers [OF inv]
  have "bx_customers s \<noteq> [] \<Longrightarrow> soft_value (g_reg (bx_guard s)) = RTMR3_CONSUMED"
    using cs [of "hd (bx_customers s)" "hd (bx_customers s)"] by simp
  then show ?thesis using cs by blast
qed

section \<open>A concrete run\<close>

definition sample_io :: "'f \<Rightarrow> 'f boot_io" where
  "sample_io f = \<lparr>io_boot_id = Some sample_boot_id, io_booted_at = Some 1, io_clock = 5, io_read = f,
     io_extend = f, io_landed = f, io_store = StoreOk\<rparr>"

definition started_guard :: "'r \<Rightarrow> 'r guard" where
  "started_guard reg = \<lparr>g_record = fresh_record sample_boot_id, g_booted_at = 1, g_extended = False,
     g_reg = reg, g_path = True, g_marker = NoFile\<rparr>"

definition leased_guard :: "'r \<Rightarrow> 'r guard" where
  "leased_guard reg = (let r = \<lparr>r_boot_id = sample_boot_id, r_consumed_by = Some ''alice'', r_consumed_at = Some 7,
       r_released_at = None\<rparr> in
     \<lparr>g_record = r, g_booted_at = 1, g_extended = True, g_reg = reg, g_path = True,
      g_marker = Content (Some (marker_document r))\<rparr>)"

lemma sample_in_boot: "io_in_boot sample_boot_id (sample_io f)"
  by (simp add: io_in_boot_def sample_io_def)

lemma sample_start:
  assumes "op_read ops f reg = Inr RTMR3_FRESH"
  shows "boot_init ops (sample_io f) True NoFile reg = Inr (started_guard reg)"
  using assms consumed_not_fresh sample_boot_id_ok
  by (simp add: boot_init_def sample_io_def checked_boot_id_def checked_booted_at_def checked_rtmr3_def
        load_def started_guard_def fresh_record_def RTMR3_FRESH_def RTMR_BYTES_def)

lemma sample_consume:
  assumes "op_extend ops f LEASE_EVENT_DIGEST reg = (Inr (), reg')" "op_read ops f reg' = Inr RTMR3_CONSUMED"
  shows "consume ops (sample_io f) ''alice'' 7 (started_guard reg) = (Inr (), leased_guard reg')"
proof -
  have "length RTMR3_CONSUMED = RTMR_BYTES" by (simp add: RTMR3_CONSUMED_eq RTMR_BYTES_def)
  then have "extend_once ops (sample_io f) (started_guard reg) =
      (Inr (), (started_guard reg)\<lparr>g_reg := reg', g_extended := True\<rparr>)"
    using assms by (simp add: extend_once_def sample_io_def started_guard_def checked_rtmr3_def)
  moreover have "check ops (sample_io f) ''alice'' (started_guard reg) = (Inr (), started_guard reg)"
    using sample_boot_id_ok
    by (simp add: check_def current_def sample_io_def checked_boot_id_def started_guard_def fresh_record_def)
  ultimately show ?thesis
    by (simp add: consume_def commit_record_def store_def started_guard_def leased_guard_def
          fresh_record_def sample_io_def Let_def)
qed

lemma sample_started:
  assumes "op_read ops f reg = Inr RTMR3_FRESH" "val reg = RTMR3_FRESH"
  shows "reach (box_start val ops sample_boot_id) (box_step ops sample_boot_id) \<lparr>bx_guard = started_guard reg, bx_customers = []\<rparr>"
proof (rule reach_start)
  show "box_start val ops sample_boot_id \<lparr>bx_guard = started_guard reg, bx_customers = []\<rparr>"
    unfolding box_start_def using sample_in_boot [of f] sample_start [OF assms(1)] assms(2)
    by (intro conjI exI [of _ "sample_io f"] exI [of _ True] exI [of _ NoFile] exI [of _ reg]) simp_all
qed

lemma sample_run:
  assumes "op_read ops f reg = Inr RTMR3_FRESH" "val reg = RTMR3_FRESH"
    and "op_extend ops f LEASE_EVENT_DIGEST reg = (Inr (), reg')" "op_read ops f reg' = Inr RTMR3_CONSUMED"
  shows "reach (box_start val ops sample_boot_id) (box_step ops sample_boot_id)
    \<lparr>bx_guard = leased_guard reg', bx_customers = [''alice'']\<rparr>"
proof -
  let ?s = "\<lparr>bx_guard = started_guard reg, bx_customers = []\<rparr>"
  have "reach (box_start val ops sample_boot_id) (box_step ops sample_boot_id) ?s" using assms(1,2) by (rule sample_started)
  moreover have "box_step ops sample_boot_id ?s
      (?s\<lparr>bx_guard := leased_guard reg', bx_customers := ''alice'' # bx_customers ?s\<rparr>)"
    by (rule box_consume [OF sample_in_boot [of f]])
       (use sample_consume [OF assms(3,4)] in \<open>simp_all add: UNKNOWN_CONSUMER_def\<close>)
  ultimately show ?thesis using reach_step by fastforce
qed

theorem one_customer_per_boot_tdx_witness:
  "\<exists>s. reach (box_start (\<lambda>hw. hw) SysfsRtmr3 sample_boot_id) (box_step SysfsRtmr3 sample_boot_id) s \<and>
     bx_customers s = [''alice''] \<and> g_reg (bx_guard s) = RTMR3_CONSUMED"
proof -
  let ?s = "\<lparr>bx_guard = leased_guard RTMR3_CONSUMED, bx_customers = [''alice'']\<rparr>"
  have r: "reach (box_start (\<lambda>hw. hw) SysfsRtmr3 sample_boot_id) (box_step SysfsRtmr3 sample_boot_id) ?s"
    by (rule sample_run [where f = NoFault and reg = RTMR3_FRESH])
       (simp_all add: SysfsRtmr3_def sysfs_read_def sysfs_extend_def RTMR3_CONSUMED_eq RTMR3_FRESH_def
          RTMR_BYTES_def LEASE_EVENT_DIGEST_def)
  with one_customer_per_boot_tdx [OF r] show ?thesis by (intro exI [of _ ?s]) simp
qed

theorem one_customer_per_boot_snp_witness:
  "\<exists>s. reach (box_start soft_value SoftwareLeaseRegister sample_boot_id)
       (box_step SoftwareLeaseRegister sample_boot_id) s \<and>
     bx_customers s = [''alice''] \<and> soft_value (g_reg (bx_guard s)) = RTMR3_CONSUMED"
proof -
  let ?s = "\<lparr>bx_guard = leased_guard (Some RTMR3_CONSUMED), bx_customers = [''alice'']\<rparr>"
  have r: "reach (box_start soft_value SoftwareLeaseRegister sample_boot_id)
      (box_step SoftwareLeaseRegister sample_boot_id) ?s"
    by (rule sample_run [where f = "(NoFault, NoFault)" and reg = None])
       (simp_all add: SoftwareLeaseRegister_def soft_read_def soft_extend_def rtmr_extend_def soft_value_def
          RTMR3_CONSUMED_eq RTMR3_FRESH_def RTMR_BYTES_def LEASE_EVENT_DIGEST_def)
  with one_customer_per_boot_snp [OF r] show ?thesis by (intro exI [of _ ?s]) simp
qed


end
