(* ===== verification/Lease.thy ===== *)
theory Lease
  imports Boot
begin

text \<open>
  \<^verbatim>\<open>src/cathedral/tee_box/lease.py\<close>: one customer at a time on a TEE box.  Every method is one or
  more sections that hold the lock; a drain runs between two of them, without it.  Each section is a
  function on the state of \<^verbatim>\<open>CustomerLease\<close>, each method the composition of its sections, and
  \<open>world_step\<close> interleaves the sections of any number of threads, worker restarts included.

  The abstract specification is the automaton \<open>phase_next\<close>: free, held, waiting for a sweep, being swept.
  The refinement theorem maps every run of the sections to a run of it; the hand-over and the
  one-customer-per-boot properties follow from it and from the boot guard's invariant.
\<close>

section \<open>State\<close>

definition DEFAULT_MAX_LEASE_SECONDS :: int where "DEFAULT_MAX_LEASE_SECONDS = 24 * 3600"
definition MIN_LEASE_SECONDS :: int where "MIN_LEASE_SECONDS = 60"
definition DRAIN_RETRY_SECONDS :: rat where "DRAIN_RETRY_SECONDS = 2"
definition BOX_START :: string where "BOX_START = ''(box start)''"

datatype lease_error = LeaseBusy | LeaseRequired | LeaseDraining | BootRefused boot_error | BadLease string

record Lease =
  holder :: string
  acquired_at :: rat
  expires_at :: rat

definition lease_view :: "Lease \<Rightarrow> string \<times> int \<times> int" where
  "lease_view l = (let trunc = (\<lambda>t::rat. if 0 \<le> t then \<lfloor>t\<rfloor> else \<lceil>t\<rceil>) in
     (holder l, trunc (acquired_at l), trunc (expires_at l)))"

record 'r customer_lease =
  cl_lease :: "Lease option"
  cl_draining :: "string option"
  cl_drain_running :: bool
  cl_retry_at :: rat
  cl_max_seconds :: int
  cl_boot :: "'r guard option"

definition lease_init :: "int \<Rightarrow> 'r guard option \<Rightarrow> lease_error + 'r customer_lease" where
  "lease_init max_seconds boot =
     (if \<not> (MIN_LEASE_SECONDS \<le> max_seconds \<and> max_seconds \<le> DEFAULT_MAX_LEASE_SECONDS)
      then Inl (BadLease ''maximum lease must be 60 s to 24 h'')
      else Inr \<lparr>cl_lease = None, cl_draining = Some BOX_START, cl_drain_running = False, cl_retry_at = 0,
             cl_max_seconds = max_seconds, cl_boot = boot\<rparr>)"

section \<open>Sections under the lock\<close>

definition expire_locked ::
  "('f, 'r) rtmr_ops \<Rightarrow> 'f boot_io \<Rightarrow> rat \<Rightarrow> 'r customer_lease \<Rightarrow> 'r customer_lease" where
  "expire_locked ops io now s = (case cl_lease s of
      Some l \<Rightarrow> if expires_at l \<le> now
        then s\<lparr>cl_lease := None, cl_draining := Some (holder l), cl_retry_at := 0,
               cl_boot := map_option (released ops io now) (cl_boot s)\<rparr>
        else s
    | None \<Rightarrow> s)"

definition refuse_other_customer_locked ::
  "('f, 'r) rtmr_ops \<Rightarrow> 'f boot_io \<Rightarrow> string \<Rightarrow> 'r customer_lease \<Rightarrow> (lease_error + unit) \<times> 'r customer_lease" where
  "refuse_other_customer_locked ops io caller s = (case (cl_lease s, cl_boot s) of
      (None, Some g) \<Rightarrow> (case check ops io caller g of
          (Inl e, g') \<Rightarrow> (Inl (BootRefused e), s\<lparr>cl_boot := Some g'\<rparr>)
        | (Inr _, g') \<Rightarrow> (Inr (), s\<lparr>cl_boot := Some g'\<rparr>))
    | _ \<Rightarrow> (Inr (), s))"

text \<open>The first half of \<^verbatim>\<open>_settle\<close>: the target of the drain to run, if one is due.\<close>

definition settle_begin ::
  "('f, 'r) rtmr_ops \<Rightarrow> 'f boot_io \<Rightarrow> rat \<Rightarrow> bool \<Rightarrow> 'r customer_lease \<Rightarrow> string option \<times> 'r customer_lease" where
  "settle_begin ops io now force s = (let s1 = expire_locked ops io now s in
     case cl_draining s1 of
       None \<Rightarrow> (None, s1)
     | Some target \<Rightarrow>
         if cl_drain_running s1 \<or> \<not> (force \<or> cl_retry_at s1 \<le> now) then (None, s1)
         else (Some target, s1\<lparr>cl_drain_running := True\<rparr>))"

text \<open>Its second half, after the drain.\<close>

definition settle_end :: "string \<Rightarrow> bool \<Rightarrow> rat \<Rightarrow> 'r customer_lease \<Rightarrow> 'r customer_lease" where
  "settle_end target drained now s = (let s1 = s\<lparr>cl_drain_running := False\<rparr> in
     if drained \<and> cl_draining s1 = Some target then s1\<lparr>cl_draining := None\<rparr>
     else if \<not> drained then s1\<lparr>cl_retry_at := now + DRAIN_RETRY_SECONDS\<rparr>
     else s1)"

definition current_locked ::
  "('f, 'r) rtmr_ops \<Rightarrow> 'f boot_io \<Rightarrow> rat \<Rightarrow> 'r customer_lease \<Rightarrow> Lease option \<times> 'r customer_lease" where
  "current_locked ops io now s = (let s1 = expire_locked ops io now s in (cl_lease s1, s1))"

text \<open>The outcomes of the boot guard's calls in one section, by call.\<close>

record 'f lease_io =
  le_settle :: "'f boot_io"
  le_expire :: "'f boot_io"
  le_check :: "'f boot_io"
  le_consume :: "'f boot_io"

definition acquire_locked ::
  "('f, 'r) rtmr_ops \<Rightarrow> 'f lease_io \<Rightarrow> rat \<Rightarrow> string \<Rightarrow> int \<Rightarrow> 'r customer_lease \<Rightarrow>
     (lease_error + Lease) \<times> 'r customer_lease" where
  "acquire_locked ops io now caller ttl s =
     (case refuse_other_customer_locked ops (le_check io) caller (expire_locked ops (le_expire io) now s) of
        (Inl e, s2) \<Rightarrow> (Inl e, s2)
      | (Inr _, s2) \<Rightarrow>
          if cl_draining s2 \<noteq> None then (Inl LeaseDraining, s2)
          else case cl_lease s2 of
            Some l \<Rightarrow>
              if holder l \<noteq> caller then (Inl LeaseBusy, s2)
              else let l' = \<lparr>holder = caller, acquired_at = acquired_at l, expires_at = now + of_int ttl\<rparr> in
                (Inr l', s2\<lparr>cl_lease := Some l'\<rparr>)
          | None \<Rightarrow>
              let l' = \<lparr>holder = caller, acquired_at = now, expires_at = now + of_int ttl\<rparr> in
              (case cl_boot s2 of
                 None \<Rightarrow> (Inr l', s2\<lparr>cl_lease := Some l'\<rparr>)
               | Some g \<Rightarrow> (case consume ops (le_consume io) caller now g of
                   (Inl e, g') \<Rightarrow> (Inl (BootRefused e), s2\<lparr>cl_boot := Some g'\<rparr>)
                 | (Inr _, g') \<Rightarrow> (Inr l', s2\<lparr>cl_boot := Some g', cl_lease := Some l'\<rparr>))))"

definition release_locked ::
  "('f, 'r) rtmr_ops \<Rightarrow> 'f boot_io \<Rightarrow> rat \<Rightarrow> rat \<Rightarrow> string \<Rightarrow> 'r customer_lease \<Rightarrow>
     (lease_error + bool) \<times> 'r customer_lease" where
  "release_locked ops io now later caller s = (let s1 = expire_locked ops io now s in
     case cl_lease s1 of
       None \<Rightarrow> (Inr False, s1)
     | Some l \<Rightarrow>
         if holder l \<noteq> caller then (Inl LeaseBusy, s1)
         else (Inr True, s1\<lparr>cl_lease := None, cl_draining := Some caller, cl_retry_at := 0,
                cl_boot := map_option (released ops io later) (cl_boot s1)\<rparr>))"

definition require_locked ::
  "('f, 'r) rtmr_ops \<Rightarrow> 'f lease_io \<Rightarrow> rat \<Rightarrow> string \<Rightarrow> 'r customer_lease \<Rightarrow>
     (lease_error + Lease) \<times> 'r customer_lease" where
  "require_locked ops io now caller s =
     (case refuse_other_customer_locked ops (le_check io) caller (expire_locked ops (le_expire io) now s) of
        (Inl e, s2) \<Rightarrow> (Inl e, s2)
      | (Inr _, s2) \<Rightarrow>
          if cl_draining s2 \<noteq> None then (Inl LeaseDraining, s2)
          else case cl_lease s2 of
            None \<Rightarrow> (Inl LeaseRequired, s2)
          | Some l \<Rightarrow> if holder l \<noteq> caller then (Inl LeaseBusy, s2) else (Inr l, s2))"

definition boot_view_locked ::
  "('f, 'r) rtmr_ops \<Rightarrow> 'f lease_io \<Rightarrow> rat \<Rightarrow> string \<Rightarrow> 'r customer_lease \<Rightarrow>
     boot_report option \<times> 'r customer_lease" where
  "boot_view_locked ops io now caller s = (let s1 = expire_locked ops (le_expire io) now s in
     case cl_boot s1 of
       None \<Rightarrow> (None, s1)
     | Some g \<Rightarrow> (case boot_view ops (le_check io) caller (cl_lease s1 \<noteq> None) g of
         (v, g') \<Rightarrow> (Some v, s1\<lparr>cl_boot := Some g'\<rparr>)))"

definition is_draining :: "'r customer_lease \<Rightarrow> bool" where
  "is_draining s = (cl_draining s \<noteq> None)"

section \<open>The methods, run by one thread\<close>

text \<open>
  \<open>drain\<close> is the callback given to the constructor: what it answers for a holder.  (A drain that
  raises ends the method after the second half of \<^verbatim>\<open>_settle\<close>; the interleaved runs below
  have that as a sweep that failed.)  The clock is read once per use.
\<close>

record lease_clock =
  k_settle :: rat
  k_drained :: rat
  k_now :: rat
  k_released :: rat
  k_resettle :: rat
  k_redrained :: rat

definition settle ::
  "('f, 'r) rtmr_ops \<Rightarrow> 'f boot_io \<Rightarrow> (string \<Rightarrow> bool) \<Rightarrow> rat \<Rightarrow> rat \<Rightarrow> bool \<Rightarrow> 'r customer_lease \<Rightarrow> 'r customer_lease" where
  "settle ops io drain now later force s = (case settle_begin ops io now force s of
      (None, s1) \<Rightarrow> s1
    | (Some target, s1) \<Rightarrow> settle_end target (drain target) later s1)"

definition retry_drain ::
  "('f, 'r) rtmr_ops \<Rightarrow> 'f boot_io \<Rightarrow> (string \<Rightarrow> bool) \<Rightarrow> lease_clock \<Rightarrow> 'r customer_lease \<Rightarrow> 'r customer_lease" where
  "retry_drain ops io drain k s = settle ops io drain (k_settle k) (k_drained k) True s"

definition current_lease ::
  "('f, 'r) rtmr_ops \<Rightarrow> 'f lease_io \<Rightarrow> (string \<Rightarrow> bool) \<Rightarrow> lease_clock \<Rightarrow> 'r customer_lease \<Rightarrow>
     Lease option \<times> 'r customer_lease" where
  "current_lease ops io drain k s =
     current_locked ops (le_expire io) (k_now k) (settle ops (le_settle io) drain (k_settle k) (k_drained k) False s)"

definition ttl_ok :: "int \<Rightarrow> 'r customer_lease \<Rightarrow> bool" where
  "ttl_ok ttl s = (MIN_LEASE_SECONDS \<le> ttl \<and> ttl \<le> cl_max_seconds s)"

definition acquire ::
  "('f, 'r) rtmr_ops \<Rightarrow> 'f lease_io \<Rightarrow> (string \<Rightarrow> bool) \<Rightarrow> lease_clock \<Rightarrow> string \<Rightarrow> int \<Rightarrow> 'r customer_lease \<Rightarrow>
     (lease_error + Lease) \<times> 'r customer_lease" where
  "acquire ops io drain k caller ttl s =
     (if \<not> ttl_ok ttl s then (Inl (BadLease ''lease ttl_seconds is out of range''), s)
      else acquire_locked ops io (k_now k) caller ttl
        (settle ops (le_settle io) drain (k_settle k) (k_drained k) False s))"

definition release ::
  "('f, 'r) rtmr_ops \<Rightarrow> 'f lease_io \<Rightarrow> (string \<Rightarrow> bool) \<Rightarrow> lease_clock \<Rightarrow> string \<Rightarrow> 'r customer_lease \<Rightarrow>
     (lease_error + bool) \<times> 'r customer_lease" where
  "release ops io drain k caller s =
     (case release_locked ops (le_expire io) (k_now k) (k_released k) caller
        (settle ops (le_settle io) drain (k_settle k) (k_drained k) False s) of
        (Inr True, s1) \<Rightarrow> (Inr True, settle ops (le_settle io) drain (k_resettle k) (k_redrained k) True s1)
      | (r, s1) \<Rightarrow> (r, s1))"

definition require ::
  "('f, 'r) rtmr_ops \<Rightarrow> 'f lease_io \<Rightarrow> (string \<Rightarrow> bool) \<Rightarrow> lease_clock \<Rightarrow> string \<Rightarrow> 'r customer_lease \<Rightarrow>
     (lease_error + Lease) \<times> 'r customer_lease" where
  "require ops io drain k caller s =
     require_locked ops io (k_now k) caller (settle ops (le_settle io) drain (k_settle k) (k_drained k) False s)"

definition lease_boot_view ::
  "('f, 'r) rtmr_ops \<Rightarrow> 'f lease_io \<Rightarrow> (string \<Rightarrow> bool) \<Rightarrow> lease_clock \<Rightarrow> string \<Rightarrow> 'r customer_lease \<Rightarrow>
     boot_report option \<times> 'r customer_lease" where
  "lease_boot_view ops io drain k caller s =
     boot_view_locked ops io (k_now k) caller (settle ops (le_settle io) drain (k_settle k) (k_drained k) False s)"

section \<open>The abstract specification\<close>

datatype phase = Free | Held string | Waiting string | Sweeping string

datatype event = Granted string | Ended string | SweepStarted string | SweepFailed string | Swept string | Restarted

fun phase_next :: "phase \<Rightarrow> event \<Rightarrow> phase option" where
  "phase_next Free (Granted c) = Some (Held c)"
| "phase_next (Held c) (Ended c') = (if c = c' then Some (Waiting c) else None)"
| "phase_next (Waiting t) (SweepStarted t') = (if t = t' then Some (Sweeping t) else None)"
| "phase_next (Sweeping t) (SweepFailed t') = (if t = t' then Some (Waiting t) else None)"
| "phase_next (Sweeping t) (Swept t') = (if t = t' then Some Free else None)"
| "phase_next _ Restarted = Some (Waiting BOX_START)"
| "phase_next _ _ = None"

fun phase_run :: "phase \<Rightarrow> event list \<Rightarrow> phase option" where
  "phase_run p [] = Some p"
| "phase_run p (e # es) = (case phase_next p e of None \<Rightarrow> None | Some q \<Rightarrow> phase_run q es)"

text \<open>The phase of a concrete state.\<close>

definition phase_of :: "'r customer_lease \<Rightarrow> phase" where
  "phase_of s = (case cl_lease s of
      Some l \<Rightarrow> Held (holder l)
    | None \<Rightarrow> (case cl_draining s of
        None \<Rightarrow> Free
      | Some t \<Rightarrow> if cl_drain_running s then Sweeping t else Waiting t))"

section \<open>Interleaved runs\<close>

text \<open>
  A worker: the lease, the drain some thread is running, and what happened so far, latest first.
  Grants and ends are read off the lease before and after a section.
\<close>

record 'r world =
  w_lease :: "'r customer_lease"
  w_flight :: "string option"
  w_events :: "event list"

definition seen :: "'r customer_lease \<Rightarrow> 'r customer_lease \<Rightarrow> event list" where
  "seen s s' = (case (cl_lease s, cl_lease s') of
      (None, Some l) \<Rightarrow> [Granted (holder l)]
    | (Some l, None) \<Rightarrow> [Ended (holder l)]
    | (Some l, Some l') \<Rightarrow> if holder l = holder l' then [] else [Granted (holder l'), Ended (holder l)]
    | (None, None) \<Rightarrow> [])"

definition move :: "'r customer_lease \<Rightarrow> 'r world \<Rightarrow> 'r world" where
  "move s' w = w\<lparr>w_lease := s', w_events := seen (w_lease w) s' @ w_events w\<rparr>"

definition io_ok :: "string \<Rightarrow> 'f lease_io \<Rightarrow> bool" where
  "io_ok b io = (io_in_boot b (le_expire io) \<and> io_in_boot b (le_check io) \<and> io_in_boot b (le_consume io))"

inductive world_step :: "('f, 'r) rtmr_ops \<Rightarrow> string \<Rightarrow> 'r world \<Rightarrow> 'r world \<Rightarrow> bool"
  for ops :: "('f, 'r) rtmr_ops" and b :: string where
  w_settle_skip: "io_in_boot b io \<Longrightarrow> settle_begin ops io now force (w_lease w) = (None, s') \<Longrightarrow>
    world_step ops b w (move s' w)"
| w_settle_begin: "io_in_boot b io \<Longrightarrow> settle_begin ops io now force (w_lease w) = (Some t, s') \<Longrightarrow>
    world_step ops b w ((move s' w)\<lparr>w_flight := Some t,
      w_events := SweepStarted t # seen (w_lease w) s' @ w_events w\<rparr>)"
| w_settle_end: "w_flight w = Some t \<Longrightarrow>
    world_step ops b w (w\<lparr>w_lease := settle_end t drained now (w_lease w), w_flight := None,
      w_events := (if drained then Swept t else SweepFailed t) # w_events w\<rparr>)"
| w_current: "io_in_boot b io \<Longrightarrow> current_locked ops io now (w_lease w) = (r, s') \<Longrightarrow>
    world_step ops b w (move s' w)"
| w_acquire: "io_ok b io \<Longrightarrow> caller \<noteq> UNKNOWN_CONSUMER \<Longrightarrow> ttl_ok ttl (w_lease w) \<Longrightarrow>
    acquire_locked ops io now caller ttl (w_lease w) = (r, s') \<Longrightarrow> world_step ops b w (move s' w)"
| w_release: "io_in_boot b io \<Longrightarrow> release_locked ops io now later caller (w_lease w) = (q, s') \<Longrightarrow>
    world_step ops b w (move s' w)"
| w_require: "io_ok b io \<Longrightarrow> require_locked ops io now caller (w_lease w) = (r, s') \<Longrightarrow>
    world_step ops b w (move s' w)"
| w_boot_view: "io_ok b io \<Longrightarrow> boot_view_locked ops io now caller (w_lease w) = (v, s') \<Longrightarrow>
    world_step ops b w (move s' w)"
| w_restart: "cl_boot (w_lease w) = None \<Longrightarrow> lease_init m None = Inr s' \<Longrightarrow>
    world_step ops b w \<lparr>w_lease = s', w_flight = None, w_events = Restarted # w_events w\<rparr>"
| w_restart_boot: "cl_boot (w_lease w) = Some g \<Longrightarrow> io_in_boot b io \<Longrightarrow>
    boot_init ops io (g_path g) (g_marker g) (g_reg g) = Inr g' \<Longrightarrow> lease_init m (Some g') = Inr s' \<Longrightarrow>
    world_step ops b w \<lparr>w_lease = s', w_flight = None, w_events = Restarted # w_events w\<rparr>"

text \<open>A worker starts with no guard, or with the guard of a boot that starts.\<close>

definition world_start :: "('r \<Rightarrow> bytes) \<Rightarrow> ('f, 'r) rtmr_ops \<Rightarrow> string \<Rightarrow> 'r world \<Rightarrow> bool" where
  "world_start val ops b w = (w_flight w = None \<and> w_events w = [] \<and> (\<exists>m boot.
     lease_init m boot = Inr (w_lease w) \<and>
     (\<forall>g. boot = Some g \<longrightarrow> box_start val ops b \<lparr>bx_guard = g, bx_customers = []\<rparr>)))"

section \<open>What a section may do to the lease\<close>

definition section_ok :: "'r customer_lease \<Rightarrow> 'r customer_lease \<Rightarrow> bool" where
  "section_ok s s' = (cl_drain_running s' = cl_drain_running s \<and>
     (cl_draining s' = cl_draining s \<and> map_option holder (cl_lease s') = map_option holder (cl_lease s) \<or>
      (\<exists>l. cl_lease s = Some l \<and> cl_lease s' = None \<and> cl_draining s' = Some (holder l)) \<or>
      (\<exists>l. cl_lease s = None \<and> cl_draining s = None \<and> cl_lease s' = Some l \<and> cl_draining s' = None)))"

lemma expire_section: "section_ok s (expire_locked ops io now s)"
  by (simp add: section_ok_def expire_locked_def split: option.splits)

lemma refuse_fields:
  assumes "refuse_other_customer_locked ops io caller s = (r, s')"
  shows "cl_lease s' = cl_lease s \<and> cl_draining s' = cl_draining s \<and> cl_drain_running s' = cl_drain_running s"
  using assms by (auto simp: refuse_other_customer_locked_def split: option.splits prod.splits sum.splits)

lemma section_ok_same:
  assumes "section_ok s s1" "cl_lease s' = cl_lease s1" "cl_draining s' = cl_draining s1"
    "cl_drain_running s' = cl_drain_running s1"
  shows "section_ok s s'"
  using assms by (simp add: section_ok_def)

lemma expire_not_draining:
  assumes "cl_draining (expire_locked ops io now s) = None"
  shows "expire_locked ops io now s = s"
  using assms by (auto simp: expire_locked_def split: option.splits if_splits)

lemma acquire_section:
  assumes "acquire_locked ops io now caller ttl s = (r, s')"
  shows "section_ok s s'"
proof -
  let ?s1 = "expire_locked ops (le_expire io) now s"
  obtain q s2 where rf: "refuse_other_customer_locked ops (le_check io) caller ?s1 = (q, s2)"
    by (cases "refuse_other_customer_locked ops (le_check io) caller ?s1")
  note f = refuse_fields [OF rf]
  have kept: "section_ok s s2" by (rule section_ok_same [OF expire_section]) (use f in simp_all)
  show ?thesis
  proof (cases "q = Inr () \<and> cl_draining s2 = None")
    case False
    then have "s' = s2" using assms rf by (auto simp: acquire_locked_def split: sum.splits if_splits)
    with kept show ?thesis by simp
  next
    case True
    then have same: "?s1 = s" using f expire_not_draining by metis
    with f have f': "cl_lease s2 = cl_lease s" "cl_draining s2 = cl_draining s" "cl_drain_running s2 = cl_drain_running s"
      by simp_all
    have rf': "refuse_other_customer_locked ops (le_check io) caller s = (q, s2)" using rf same by simp
    show ?thesis
      using assms True rf' f'
      by (auto simp: acquire_locked_def same section_ok_def Let_def split: option.splits if_splits prod.splits sum.splits)
  qed
qed

lemma release_section:
  assumes "release_locked ops io now later caller s = (q, s')"
  shows "section_ok s s'"
  using assms
  by (auto simp: release_locked_def expire_locked_def section_ok_def Let_def split: option.splits if_splits)

lemma require_section:
  assumes "require_locked ops io now caller s = (r, s')"
  shows "section_ok s s'"
proof -
  obtain q s2 where rf: "refuse_other_customer_locked ops (le_check io) caller (expire_locked ops (le_expire io) now s) = (q, s2)"
    by (cases "refuse_other_customer_locked ops (le_check io) caller (expire_locked ops (le_expire io) now s)")
  then have "s' = s2"
    using assms by (auto simp: require_locked_def split: sum.splits if_splits option.splits)
  with refuse_fields [OF rf] show ?thesis by (intro section_ok_same [OF expire_section]) simp_all
qed

lemma boot_view_section:
  assumes "boot_view_locked ops io now caller s = (v, s')"
  shows "section_ok s s'"
  using assms
  by (intro section_ok_same [OF expire_section])
     (auto simp: boot_view_locked_def Let_def split: option.splits prod.splits)

section \<open>Refinement of the specification\<close>

definition lease_ok :: "'r world \<Rightarrow> bool" where
  "lease_ok w = (let s = w_lease w in
     phase_run (Waiting BOX_START) (rev (w_events w)) = Some (phase_of s) \<and>
     (cl_lease s = None \<or> cl_draining s = None) \<and>
     (cl_drain_running s \<longleftrightarrow> w_flight w \<noteq> None) \<and>
     (\<forall>t. w_flight w = Some t \<longrightarrow> cl_draining s = Some t))"

lemma phase_run_append:
  "phase_run p (es @ fs) = (case phase_run p es of None \<Rightarrow> None | Some q \<Rightarrow> phase_run q fs)"
  by (induction p es rule: phase_run.induct) (auto split: option.splits)

lemma phase_restarted [simp]: "phase_next p Restarted = Some (Waiting BOX_START)"
  by (cases p) simp_all

lemma same_holder_none: "map_option holder x = map_option holder y \<Longrightarrow> x = None \<longleftrightarrow> y = None"
  by (cases x; cases y) simp_all

lemma same_holder_seen:
  "map_option holder (cl_lease s') = map_option holder (cl_lease s) \<Longrightarrow> seen s s' = []"
  by (cases "cl_lease s'"; cases "cl_lease s") (simp_all add: seen_def)

lemma same_holder_phase:
  "map_option holder (cl_lease s') = map_option holder (cl_lease s) \<Longrightarrow> cl_draining s' = cl_draining s \<Longrightarrow>
     cl_drain_running s' = cl_drain_running s \<Longrightarrow> phase_of s' = phase_of s"
  by (cases "cl_lease s'"; cases "cl_lease s") (simp_all add: phase_of_def split: option.split)

lemma move_ok:
  assumes "lease_ok w" "section_ok (w_lease w) s'"
  shows "lease_ok (move s' w)"
  using assms(2)[unfolded section_ok_def]
proof (elim conjE disjE exE)
  assume r: "cl_drain_running s' = cl_drain_running (w_lease w)" "cl_draining s' = cl_draining (w_lease w)"
    "map_option holder (cl_lease s') = map_option holder (cl_lease (w_lease w))"
  note k = same_holder_seen [OF r(3)] same_holder_phase [OF r(3,2,1)] same_holder_none [OF r(3)]
  from assms(1) r(1,2) k show ?thesis unfolding lease_ok_def move_def Let_def by simp
next
  fix l
  assume r: "cl_drain_running s' = cl_drain_running (w_lease w)" "cl_lease (w_lease w) = Some l" "cl_lease s' = None"
    "cl_draining s' = Some (holder l)"
  with assms(1) have "\<not> cl_drain_running s'" "w_flight w = None" by (auto simp: lease_ok_def Let_def)
  with assms(1) r show ?thesis
    by (simp add: lease_ok_def move_def Let_def seen_def phase_run_append phase_of_def)
next
  fix l
  assume r: "cl_drain_running s' = cl_drain_running (w_lease w)" "cl_lease (w_lease w) = None"
    "cl_draining (w_lease w) = None" "cl_lease s' = Some l" "cl_draining s' = None"
  with assms(1) show ?thesis
    by (auto simp: lease_ok_def move_def Let_def seen_def phase_run_append phase_of_def)
qed

lemma settle_begin_cases:
  assumes "settle_begin ops io now force s = (t, s')"
  shows "t = None \<and> s' = expire_locked ops io now s \<or>
    (\<exists>u. t = Some u \<and> cl_draining s' = Some u \<and> \<not> cl_drain_running (expire_locked ops io now s) \<and>
       s' = (expire_locked ops io now s)\<lparr>cl_drain_running := True\<rparr>)"
  using assms by (auto simp: settle_begin_def Let_def split: option.splits if_splits)

lemma begin_ok:
  assumes "lease_ok w" "settle_begin ops io now force (w_lease w) = (Some t, s')"
  shows "lease_ok ((move s' w)\<lparr>w_flight := Some t, w_events := SweepStarted t # seen (w_lease w) s' @ w_events w\<rparr>)"
proof -
  let ?s1 = "expire_locked ops io now (w_lease w)"
  have b: "cl_draining ?s1 = Some t" "\<not> cl_drain_running ?s1" "s' = ?s1\<lparr>cl_drain_running := True\<rparr>"
    using settle_begin_cases [OF assms(2)] by auto
  have "seen (w_lease w) s' = seen (w_lease w) ?s1" by (simp add: seen_def b(3))
  moreover have "lease_ok (move ?s1 w)" by (rule move_ok [OF assms(1) expire_section])
  ultimately show ?thesis
    using b by (auto simp: lease_ok_def move_def Let_def phase_run_append phase_of_def split: option.splits)
qed

lemma end_ok:
  assumes "lease_ok w" "w_flight w = Some t"
  shows "lease_ok (w\<lparr>w_lease := settle_end t drained now (w_lease w), w_flight := None,
      w_events := (if drained then Swept t else SweepFailed t) # w_events w\<rparr>)"
  using assms by (auto simp: lease_ok_def settle_end_def Let_def phase_run_append phase_of_def)

lemma lease_init_fields:
  assumes "lease_init m boot = Inr s"
  shows "cl_lease s = None" "cl_draining s = Some BOX_START" "\<not> cl_drain_running s" "cl_boot s = boot"
  using assms by (auto simp: lease_init_def split: if_splits)

lemma restart_ok:
  assumes "lease_ok w" "lease_init m boot = Inr s'"
  shows "lease_ok \<lparr>w_lease = s', w_flight = None, w_events = Restarted # w_events w\<rparr>"
  using assms(1) lease_init_fields [OF assms(2)]
  by (simp add: lease_ok_def Let_def phase_run_append phase_of_def)

lemma world_step_ok: "world_step ops b w w' \<Longrightarrow> lease_ok w \<Longrightarrow> lease_ok w'"
proof (induction rule: world_step.induct)
  case (w_settle_skip io now force w s')
  then have "section_ok (w_lease w) s'" using settle_begin_cases expire_section by fastforce
  with w_settle_skip.prems show ?case by (rule move_ok)
next
  case (w_current io now w r s')
  then have "section_ok (w_lease w) s'" using expire_section by (auto simp: current_locked_def Let_def)
  with w_current.prems show ?case by (rule move_ok)
qed (blast intro: begin_ok end_ok restart_ok
      move_ok acquire_section release_section require_section boot_view_section)+

interpretation lease_run: invariant_system "world_start val ops b" "world_step ops b" lease_ok
  for val ops b
proof
  show "lease_ok s" if "world_start val ops b s" for s
    using that by (auto simp: world_start_def lease_ok_def Let_def phase_of_def lease_init_fields)
  show "lease_ok t" if "lease_ok s" "world_step ops b s t" for s t
    by (rule world_step_ok [OF that(2,1)])
qed

section \<open>The guard along a run\<close>

fun grants :: "event list \<Rightarrow> string list" where
  "grants [] = []"
| "grants (Granted c # es) = c # grants es"
| "grants (_ # es) = grants es"

lemma grants_append [simp]: "grants (es @ fs) = grants es @ grants fs"
  by (induction es rule: grants.induct) simp_all

lemma set_grants: "set (grants es) = {c. Granted c \<in> set es}"
  by (induction es rule: grants.induct) auto

text \<open>What a section does to the guard is a sequence of its operations.\<close>

definition boot_path :: "('f, 'r) rtmr_ops \<Rightarrow> string \<Rightarrow> string list \<Rightarrow> 'r customer_lease \<Rightarrow> 'r customer_lease \<Rightarrow> bool" where
  "boot_path ops b new s s' =
     (case (cl_boot s, cl_boot s') of
        (Some g, Some g') \<Rightarrow> (\<forall>cs. (box_step ops b)\<^sup>*\<^sup>* \<lparr>bx_guard = g, bx_customers = cs\<rparr> \<lparr>bx_guard = g', bx_customers = new @ cs\<rparr>)
      | (None, None) \<Rightarrow> True
      | _ \<Rightarrow> False)"

lemma boot_path_refl: "cl_boot s' = cl_boot s \<Longrightarrow> boot_path ops b [] s s'"
  by (simp add: boot_path_def split: option.splits)

lemma boot_path_trans: "boot_path ops b [] s s1 \<Longrightarrow> boot_path ops b new s1 s2 \<Longrightarrow> boot_path ops b new s s2"
  by (auto simp: boot_path_def split: option.splits intro: rtranclp_trans)

lemma boot_path_guard:
  assumes "boot_path ops b new s s1" "cl_boot s2 = cl_boot s1"
  shows "boot_path ops b new s s2"
  using assms by (simp add: boot_path_def)

lemma expire_path:
  assumes "io_in_boot b io"
  shows "boot_path ops b [] s (expire_locked ops io now s)"
proof -
  have "(box_step ops b)\<^sup>*\<^sup>* \<lparr>bx_guard = g, bx_customers = cs\<rparr> \<lparr>bx_guard = released ops io now g, bx_customers = cs\<rparr>"
    for g cs
    using box_released [OF assms, of ops "\<lparr>bx_guard = g, bx_customers = cs\<rparr>" now] by (intro r_into_rtranclp) simp
  then show ?thesis by (auto simp: boot_path_def expire_locked_def split: option.splits)
qed

lemma refuse_path:
  assumes "io_in_boot b io" "refuse_other_customer_locked ops io caller s = (r, s')"
  shows "boot_path ops b [] s s'"
proof -
  have "(box_step ops b)\<^sup>*\<^sup>* \<lparr>bx_guard = g, bx_customers = cs\<rparr> \<lparr>bx_guard = g', bx_customers = cs\<rparr>"
    if "check ops io caller g = (q, g')" for g g' q cs
    using box_check [OF assms(1), of ops caller "\<lparr>bx_guard = g, bx_customers = cs\<rparr>" q g'] that
    by (intro r_into_rtranclp) simp
  with assms(2) show ?thesis
    by (auto simp: boot_path_def refuse_other_customer_locked_def split: option.splits prod.splits sum.splits)
qed

lemma consume_path:
  assumes "io_in_boot b io" "caller \<noteq> UNKNOWN_CONSUMER" "consume ops io caller now g = (r, g')"
  shows "(box_step ops b)\<^sup>*\<^sup>* \<lparr>bx_guard = g, bx_customers = cs\<rparr>
    \<lparr>bx_guard = g', bx_customers = (if r = Inr () then [caller] else []) @ cs\<rparr>"
proof (cases r)
  case (Inl e)
  then show ?thesis
    using box_refuse [OF assms(1), of ops caller now "\<lparr>bx_guard = g, bx_customers = cs\<rparr>" e g'] assms(3)
    by (intro r_into_rtranclp) simp
next
  case (Inr u)
  then show ?thesis
    using box_consume [OF assms(1,2), of ops now "\<lparr>bx_guard = g, bx_customers = cs\<rparr>" g'] assms(3)
    by (intro r_into_rtranclp) simp
qed

lemma acquire_path:
  assumes io: "io_ok b io" and c: "caller \<noteq> UNKNOWN_CONSUMER"
    and a: "acquire_locked ops io now caller ttl s = (r, s')"
  shows "boot_path ops b (grants (seen s s')) s s'"
proof -
  let ?s1 = "expire_locked ops (le_expire io) now s"
  obtain q s2 where rf: "refuse_other_customer_locked ops (le_check io) caller ?s1 = (q, s2)"
    by (cases "refuse_other_customer_locked ops (le_check io) caller ?s1")
  note f = refuse_fields [OF rf]
  have p2: "boot_path ops b [] s s2"
    by (rule boot_path_trans [OF expire_path refuse_path [OF _ rf]]) (use io in \<open>simp_all add: io_ok_def\<close>)
  show ?thesis
  proof (cases "q = Inr () \<and> cl_draining s2 = None \<and> cl_lease s2 = None")
    case False
    then have "cl_boot s' = cl_boot s2" "cl_lease s' = cl_lease s2 \<or> (\<exists>l l'. cl_lease s2 = Some l \<and> cl_lease s' = Some l' \<and> holder l = holder l')"
      using a rf by (auto simp: acquire_locked_def Let_def split: sum.splits if_splits option.splits)
    moreover from this have "grants (seen s s') = []"
      using f expire_section [of s ops "le_expire io" now]
      by (auto simp: seen_def expire_locked_def split: option.splits if_splits)
    ultimately show ?thesis using boot_path_guard [OF p2] by simp
  next
    case True
    then have same: "?s1 = s" using f expire_not_draining by metis
    have none: "cl_lease s = None" using True f same by simp
    show ?thesis
    proof (cases "cl_boot s2")
      case None
      with True rf a have "cl_boot s' = None" by (auto simp: acquire_locked_def Let_def)
      with p2 None show ?thesis by (simp add: boot_path_def split: option.splits)
    next
      case (Some g)
      obtain t g' where cn: "consume ops (le_consume io) caller now g = (t, g')"
        by (cases "consume ops (le_consume io) caller now g")
      have s': "cl_boot s' = Some g' \<and> grants (seen s s') = (if t = Inr () then [caller] else [])"
        using a True rf Some cn none
        by (auto simp: acquire_locked_def seen_def Let_def split: sum.splits)
      have "boot_path ops b (grants (seen s s')) s2 s'"
        using s' consume_path [OF _ c cn] io Some by (simp add: boot_path_def io_ok_def)
      with p2 show ?thesis by (rule boot_path_trans)
    qed
  qed
qed

lemma no_grant_path:
  assumes "boot_path ops b [] s s1" "cl_boot s' = cl_boot s1" "grants (seen s s') = []"
  shows "boot_path ops b (grants (seen s s')) s s'"
  using boot_path_guard [OF assms(1,2)] assms(3) by simp

lemma expired_no_grant:
  "cl_lease s' = cl_lease (expire_locked ops io now s) \<Longrightarrow> grants (seen s s') = []"
  by (auto simp: seen_def expire_locked_def split: option.splits)

lemma begin_path:
  assumes "io_in_boot b io" "settle_begin ops io now force s = (t, s')"
  shows "boot_path ops b (grants (seen s s')) s s'"
  using settle_begin_cases [OF assms(2)]
  by (intro no_grant_path [OF expire_path [OF assms(1)]] expired_no_grant) auto

lemma release_path:
  assumes io: "io_in_boot b io" and r: "release_locked ops io now later caller s = (q, s')"
  shows "boot_path ops b (grants (seen s s')) s s'"
proof -
  let ?s1 = "expire_locked ops io now s"
  show ?thesis
  proof (cases "\<exists>l. cl_lease ?s1 = Some l \<and> holder l = caller")
    case False
    then have "s' = ?s1" using r by (auto simp: release_locked_def Let_def split: option.splits if_splits)
    then show ?thesis by (intro no_grant_path [OF expire_path [OF io]] expired_no_grant) simp_all
  next
    case True
    then have b: "cl_boot s' = map_option (released ops io later) (cl_boot ?s1)" "cl_lease s' = None"
      using r by (auto simp: release_locked_def Let_def)
    have "(box_step ops b)\<^sup>*\<^sup>* \<lparr>bx_guard = g, bx_customers = cs\<rparr> \<lparr>bx_guard = released ops io later g, bx_customers = cs\<rparr>"
      for g cs
      using box_released [OF io, of ops "\<lparr>bx_guard = g, bx_customers = cs\<rparr>" later] by (intro r_into_rtranclp) simp
    then have "boot_path ops b [] ?s1 s'" using b(1) by (simp add: boot_path_def split: option.splits)
    then have "boot_path ops b [] s s'" by (rule boot_path_trans [OF expire_path [OF io]])
    moreover have "grants (seen s s') = []" using b(2) by (simp add: seen_def split: option.splits)
    ultimately show ?thesis by simp
  qed
qed

lemma require_path:
  assumes io: "io_ok b io" and r: "require_locked ops io now caller s = (q, s')"
  shows "boot_path ops b (grants (seen s s')) s s'"
proof -
  obtain p s2 where rf: "refuse_other_customer_locked ops (le_check io) caller (expire_locked ops (le_expire io) now s) = (p, s2)"
    by (cases "refuse_other_customer_locked ops (le_check io) caller (expire_locked ops (le_expire io) now s)")
  then have s': "s' = s2"
    using r by (auto simp: require_locked_def split: sum.splits if_splits option.splits)
  have "boot_path ops b [] s s2"
    by (rule boot_path_trans [OF expire_path refuse_path [OF _ rf]]) (use io in \<open>simp_all add: io_ok_def\<close>)
  then show ?thesis
    by (rule no_grant_path) (use s' refuse_fields [OF rf] in \<open>auto intro: expired_no_grant\<close>)
qed

lemma boot_view_path:
  assumes io: "io_ok b io" and v: "boot_view_locked ops io now caller s = (q, s')"
  shows "boot_path ops b (grants (seen s s')) s s'"
proof -
  let ?s1 = "expire_locked ops (le_expire io) now s"
  have "(box_step ops b)\<^sup>*\<^sup>* \<lparr>bx_guard = g, bx_customers = cs\<rparr> \<lparr>bx_guard = g', bx_customers = cs\<rparr>"
    if "boot_view ops (le_check io) caller leased g = (q, g')" for g g' q leased cs
    using box_view [of b "le_check io" ops caller leased "\<lparr>bx_guard = g, bx_customers = cs\<rparr>" q g'] io that
    by (intro r_into_rtranclp) (simp add: io_ok_def)
  then have "boot_path ops b [] ?s1 s'"
    using v by (auto simp: boot_view_locked_def boot_path_def Let_def split: option.splits prod.splits)
  moreover have "boot_path ops b [] s ?s1" using io by (intro expire_path) (simp add: io_ok_def)
  ultimately have "boot_path ops b [] s s'" by (rule boot_path_trans [rotated])
  then show ?thesis
    by (rule no_grant_path [OF _ refl])
       (use v in \<open>auto simp: boot_view_locked_def Let_def split: option.splits prod.splits intro!: expired_no_grant\<close>)
qed

definition guarded :: "('r \<Rightarrow> bytes) \<Rightarrow> string \<Rightarrow> 'r world \<Rightarrow> bool" where
  "guarded val b w = (\<forall>g. cl_boot (w_lease w) = Some g \<longrightarrow>
     boot_inv val b \<lparr>bx_guard = g, bx_customers = grants (w_events w)\<rparr>)"

context lease_register
begin

lemma guarded_path:
  assumes "guarded val b w" "boot_path ops b (grants (seen (w_lease w) s')) (w_lease w) s'"
    "w_lease w' = s'" "grants (w_events w') = grants (seen (w_lease w) s') @ grants (w_events w)"
  shows "guarded val b w'"
  using assms boot_run.run_inv
  by (fastforce simp: guarded_def boot_path_def split: option.splits)

lemma guarded_move:
  assumes "guarded val b w" "boot_path ops b (grants (seen (w_lease w) s')) (w_lease w) s'"
  shows "guarded val b (move s' w)"
  using guarded_path [OF assms] by (simp add: move_def)

lemma guarded_step: "world_step ops b w w' \<Longrightarrow> guarded val b w \<Longrightarrow> guarded val b w'"
proof (induction rule: world_step.induct)
  case (w_settle_begin io now force w t s')
  show ?case
    by (rule guarded_path [OF w_settle_begin.prems begin_path [OF w_settle_begin.hyps]]) (simp_all add: move_def)
next
  case (w_settle_end w t drained now)
  have "cl_boot (settle_end t drained now (w_lease w)) = cl_boot (w_lease w)" by (simp add: settle_end_def Let_def)
  with w_settle_end.prems show ?case by (simp add: guarded_def)
next
  case (w_current io now w r s')
  then have "s' = expire_locked ops io now (w_lease w)" by (auto simp: current_locked_def Let_def)
  then show ?case
    by (intro guarded_move [OF w_current.prems] no_grant_path [OF expire_path [OF w_current.hyps(1)]] expired_no_grant)
       simp_all
next
  case (w_restart w m s')
  then show ?case by (simp add: guarded_def lease_init_fields)
next
  case (w_restart_boot w g io g' m s')
  from w_restart_boot.prems w_restart_boot.hyps(1)
  have "boot_inv val b \<lparr>bx_guard = g, bx_customers = grants (w_events w)\<rparr>" by (simp add: guarded_def)
  from box_step_inv [OF box_restart [of b io, where s = "\<lparr>bx_guard = g, bx_customers = grants (w_events w)\<rparr>"] this]
    w_restart_boot.hyps
  have "boot_inv val b \<lparr>bx_guard = g', bx_customers = grants (w_events w)\<rparr>" by simp
  then show ?case using lease_init_fields(4) [OF w_restart_boot.hyps(4)] by (simp add: guarded_def)
qed (blast intro: guarded_move begin_path acquire_path release_path require_path boot_view_path)+

lemma guarded_start: "world_start val ops b w \<Longrightarrow> guarded val b w"
  using box_start_inv by (auto simp: world_start_def guarded_def lease_init_fields)

end

sublocale lease_register \<subseteq> leased_run: invariant_system "world_start val ops b" "world_step ops b" "guarded val b"
  by unfold_locales (auto intro: guarded_start guarded_step)

section \<open>Properties\<close>

text \<open>
  C8: the lease implements its specification.  In every interleaving of the locked sections of any
  number of threads, with drains that succeed, fail or are lost in a restart, what happened to the
  box is a run of the four-phase automaton, and the state reached is the one it reaches.
\<close>

theorem lease_refines:
  assumes "reach (world_start val ops b) (world_step ops b) w"
  shows "phase_run (Waiting BOX_START) (rev (w_events w)) = Some (phase_of (w_lease w)) \<and>
    (cl_lease (w_lease w) = None \<or> cl_draining (w_lease w) = None)"
  using lease_run.reach_inv [OF assms] by (simp add: lease_ok_def Let_def)

lemma sweep_before_free:
  "phase_run p es = Some Free \<Longrightarrow> p = Waiting t \<or> p = Sweeping t \<Longrightarrow>
     Swept t \<in> set es \<or> (Restarted \<in> set es \<and> Swept BOX_START \<in> set es)"
proof (induction es arbitrary: p t)
  case Nil
  then show ?case by auto
next
  case (Cons e es)
  then obtain q where q: "phase_next p e = Some q" "phase_run q es = Some Free"
    by (auto split: option.splits)
  consider "e = Swept t" | "e = Restarted" "q = Waiting BOX_START" | "q = Waiting t \<or> q = Sweeping t"
    using q(1) Cons.prems(2) by (cases e) (auto split: if_splits)
  then show ?case
  proof cases
    case 2
    then show ?thesis using Cons.IH [OF q(2), of BOX_START] by auto
  next
    case 3
    then show ?thesis using Cons.IH [OF q(2), of t] by auto
  qed simp
qed

lemma held_to_free:
  assumes "phase_run (Held c) es = Some Free"
  shows "Ended c \<in> set es \<and> Swept c \<in> set es \<or> Restarted \<in> set es \<and> Swept BOX_START \<in> set es"
proof -
  obtain e es' q where es: "es = e # es'" "phase_next (Held c) e = Some q" "phase_run q es' = Some Free"
    using assms by (cases es) (auto split: option.splits)
  then consider "e = Ended c" "q = Waiting c" | "e = Restarted" "q = Waiting BOX_START"
    by (cases e) (auto split: if_splits)
  then show ?thesis
    using sweep_before_free [OF es(3), of c] sweep_before_free [OF es(3), of BOX_START] es(1) by cases auto
qed

lemma granted_from_free: "phase_next p (Granted c) = Some q \<Longrightarrow> p = Free \<and> q = Held c"
  by (cases p) auto

text \<open>
  C2: no hand-over without a sweep.  Between two grants of the box, in any interleaving, the first
  customer's lease ended and a drain of that customer then came back clean, or the worker restarted
  and the sweep of the whole box came back clean.
\<close>

theorem handover_swept:
  assumes "reach (world_start val ops b) (world_step ops b) w"
    and "rev (w_events w) = before @ Granted c # between @ Granted c' # after"
  shows "Ended c \<in> set between \<and> Swept c \<in> set between \<or>
    Restarted \<in> set between \<and> Swept BOX_START \<in> set between"
proof -
  have "phase_run (Waiting BOX_START) (before @ Granted c # between @ Granted c' # after) \<noteq> None"
    using lease_run.reach_inv [OF assms(1)] assms(2) by (simp add: lease_ok_def Let_def)
  then obtain p q p' r where "phase_next p (Granted c) = Some q" "phase_run q between = Some p'"
    "phase_next p' (Granted c') = Some r"
    by (auto simp: phase_run_append split: option.splits)
  then show ?thesis using granted_from_free held_to_free by metis
qed

lemma held_was_granted: "phase_run p es = Some (Held c) \<Longrightarrow> p = Held c \<or> Granted c \<in> set es"
proof (induction es arbitrary: p)
  case (Cons e es)
  then obtain q where q: "phase_next p e = Some q" "phase_run q es = Some (Held c)"
    by (auto split: option.splits)
  moreover have "q = Held c \<Longrightarrow> e = Granted c" using q(1) by (cases "(p, e)" rule: phase_next.cases) (auto split: if_splits)
  ultimately show ?case using Cons.IH [OF q(2)] by auto
qed auto

text \<open>
  C1: the lease and the boot guard together.  On a TDX box with a guard, while a customer holds the
  box RTMR3 holds the consumed value, and every lease ever granted in this boot, over any number of
  worker restarts, was granted to that customer.
\<close>

theorem leased_boot_one_customer:
  assumes "reach (world_start (\<lambda>hw. hw) SysfsRtmr3 b) (world_step SysfsRtmr3 b) w"
    and "cl_lease (w_lease w) = Some l" "cl_boot (w_lease w) = Some g"
  shows "g_reg g = RTMR3_CONSUMED \<and> (\<forall>c. Granted c \<in> set (w_events w) \<longrightarrow> c = holder l)"
proof -
  have "boot_inv (\<lambda>hw. hw) b \<lparr>bx_guard = g, bx_customers = grants (w_events w)\<rparr>"
    using tdx.leased_run.reach_inv [OF assms(1)] assms(3) by (simp add: guarded_def)
  note one = boot_inv_customers [OF this]
  have "phase_run (Waiting BOX_START) (rev (w_events w)) = Some (Held (holder l))"
    using lease_run.reach_inv [OF assms(1)] assms(2) by (simp add: lease_ok_def phase_of_def Let_def)
  from held_was_granted [OF this] have "holder l \<in> set (grants (w_events w))" by (simp add: set_grants)
  with one show ?thesis by (fastforce simp: set_grants)
qed


text \<open>
  The reaper frees the box.  When no drain is running, one forced drain that comes back clean leaves
  the box free, whether it was waiting for a sweep or held under a lease that has expired.
\<close>

lemma reaper_frees_box:
  assumes "\<not> cl_drain_running s" "drain t"
    and "phase_of s = Waiting t \<or> (\<exists>l. cl_lease s = Some l \<and> holder l = t \<and> expires_at l \<le> k_settle k)"
  shows "phase_of (retry_drain ops io drain k s) = Free"
  using assms
  by (auto simp: phase_of_def retry_drain_def settle_def settle_begin_def settle_end_def expire_locked_def Let_def
        split: option.splits)

section \<open>Concrete runs\<close>

definition no_io :: "'f \<Rightarrow> 'f lease_io" where
  "no_io f = \<lparr>le_settle = sample_io f, le_expire = sample_io f, le_check = sample_io f, le_consume = sample_io f\<rparr>"

definition waiting_lease :: "'r guard option \<Rightarrow> 'r customer_lease" where
  "waiting_lease boot = \<lparr>cl_lease = None, cl_draining = Some BOX_START, cl_drain_running = False, cl_retry_at = 0,
     cl_max_seconds = 3600, cl_boot = boot\<rparr>"

definition held_lease :: "string \<Rightarrow> 'r guard option \<Rightarrow> 'r customer_lease" where
  "held_lease c boot = \<lparr>cl_lease = Some \<lparr>holder = c, acquired_at = 7, expires_at = 107\<rparr>, cl_draining = None,
     cl_drain_running = False, cl_retry_at = 0, cl_max_seconds = 3600, cl_boot = boot\<rparr>"

definition first_sweep :: "event list" where
  "first_sweep = [Swept BOX_START, SweepStarted BOX_START]"

lemma no_io_ok: "io_ok sample_boot_id (no_io f)"
  by (simp add: io_ok_def no_io_def sample_in_boot)

lemma sweep_steps:
  fixes ops :: "('f, 'r) rtmr_ops" and f :: 'f
  assumes "reach st (world_step ops sample_boot_id) \<lparr>w_lease = s, w_flight = None, w_events = es\<rparr>"
    and "cl_lease s = None" "cl_draining s = Some t" "\<not> cl_drain_running s"
  shows "reach st (world_step ops sample_boot_id)
    \<lparr>w_lease = s\<lparr>cl_draining := None\<rparr>, w_flight = None, w_events = Swept t # SweepStarted t # es\<rparr>"
proof -
  let ?w = "\<lparr>w_lease = s, w_flight = None, w_events = es\<rparr>" and ?s' = "s\<lparr>cl_drain_running := True\<rparr>"
  let ?w' = "\<lparr>w_lease = ?s', w_flight = Some t, w_events = SweepStarted t # es\<rparr>"
  have "settle_begin ops (sample_io f) 1 True (w_lease ?w) = (Some t, ?s')"
    using assms by (simp add: settle_begin_def expire_locked_def)
  from w_settle_begin [OF sample_in_boot this] have "world_step ops sample_boot_id ?w ?w'"
    using assms(2) by (simp add: move_def seen_def)
  with assms(1) have r: "reach st (world_step ops sample_boot_id) ?w'" by (rule reach_step)
  have "s\<lparr>cl_drain_running := False\<rparr> = s" using assms(4) by (cases s) simp
  then have "settle_end t True 2 ?s' = s\<lparr>cl_draining := None\<rparr>"
    using assms(3,4) by (cases s) (simp add: settle_end_def Let_def)
  with reach_step [OF r w_settle_end [of ?w' t _ _ True 2]] show ?thesis by simp
qed

lemma sample_world_start:
  assumes "\<And>g. boot = Some g \<Longrightarrow> box_start val ops b \<lparr>bx_guard = g, bx_customers = []\<rparr>"
  shows "reach (world_start val ops b) (world_step ops b) \<lparr>w_lease = waiting_lease boot, w_flight = None, w_events = []\<rparr>"
  by (rule reach_start)
     (use assms in \<open>auto simp: world_start_def lease_init_def waiting_lease_def MIN_LEASE_SECONDS_def
        DEFAULT_MAX_LEASE_SECONDS_def intro!: exI [of _ 3600]\<close>)

definition no_ops :: "(unit, unit) rtmr_ops" where
  "no_ops = \<lparr>op_read = (\<lambda>_ _. Inr []), op_extend = (\<lambda>_ _ r. (Inr (), r))\<rparr>"

lemma unguarded_grant:
  assumes "reach st (world_step no_ops sample_boot_id)
      \<lparr>w_lease = \<lparr>cl_lease = None, cl_draining = None, cl_drain_running = False, cl_retry_at = 0,
         cl_max_seconds = 3600, cl_boot = None\<rparr>, w_flight = None, w_events = es\<rparr>"
    and "c \<noteq> UNKNOWN_CONSUMER"
  shows "reach st (world_step no_ops sample_boot_id)
    \<lparr>w_lease = held_lease c None, w_flight = None, w_events = Granted c # es\<rparr>"
proof -
  let ?w = "\<lparr>w_lease = \<lparr>cl_lease = None, cl_draining = None, cl_drain_running = False, cl_retry_at = 0,
         cl_max_seconds = 3600, cl_boot = None :: unit guard option\<rparr>, w_flight = None :: string option, w_events = es\<rparr>"
  have "acquire_locked no_ops (no_io ()) 7 c 100 (w_lease ?w) =
      (Inr \<lparr>holder = c, acquired_at = 7, expires_at = 107\<rparr>, held_lease c None)"
    by (simp add: acquire_locked_def refuse_other_customer_locked_def expire_locked_def held_lease_def Let_def)
  from reach_step [OF assms(1) w_acquire [OF no_io_ok assms(2) _ this]] show ?thesis
    by (simp add: ttl_ok_def MIN_LEASE_SECONDS_def move_def seen_def held_lease_def)
qed

text \<open>Alice leases, releases, is swept, and Bob leases.\<close>

lemma handover_run:
  "reach (world_start (\<lambda>_. []) no_ops sample_boot_id) (world_step no_ops sample_boot_id)
    \<lparr>w_lease = held_lease ''bob'' None, w_flight = None,
     w_events = Granted ''bob'' # Swept ''alice'' # SweepStarted ''alice'' # Ended ''alice'' # Granted ''alice'' # first_sweep\<rparr>"
proof -
  let ?R = "reach (world_start (\<lambda>_. []) no_ops sample_boot_id) (world_step no_ops sample_boot_id)"
  let ?free = "\<lparr>cl_lease = None, cl_draining = None, cl_drain_running = False, cl_retry_at = 0,
      cl_max_seconds = 3600, cl_boot = None :: unit guard option\<rparr>"
  have "?R \<lparr>w_lease = waiting_lease None, w_flight = None, w_events = []\<rparr>"
    by (rule sample_world_start) simp
  from sweep_steps [OF this, of BOX_START]
  have "?R \<lparr>w_lease = ?free, w_flight = None, w_events = first_sweep\<rparr>"
    by (simp add: waiting_lease_def first_sweep_def)
  from unguarded_grant [OF this, of "''alice''"]
  have held: "?R \<lparr>w_lease = held_lease ''alice'' None, w_flight = None, w_events = Granted ''alice'' # first_sweep\<rparr>"
    by (simp add: UNKNOWN_CONSUMER_def)
  let ?held = "\<lparr>w_lease = held_lease ''alice'' (None :: unit guard option), w_flight = None,
      w_events = Granted ''alice'' # first_sweep\<rparr>"
  have rel: "release_locked no_ops (sample_io ()) 8 8 ''alice'' (w_lease ?held) =
      (Inr True, ?free\<lparr>cl_draining := Some ''alice''\<rparr>)"
    by (simp add: release_locked_def held_lease_def expire_locked_def)
  have "world_step no_ops sample_boot_id ?held (move (?free\<lparr>cl_draining := Some ''alice''\<rparr>) ?held)"
    by (rule w_release [OF sample_in_boot rel])
  with held have "?R (move (?free\<lparr>cl_draining := Some ''alice''\<rparr>) ?held)" by (rule reach_step)
  then have "?R \<lparr>w_lease = ?free\<lparr>cl_draining := Some ''alice''\<rparr>, w_flight = None,
      w_events = Ended ''alice'' # Granted ''alice'' # first_sweep\<rparr>"
    by (simp add: move_def seen_def held_lease_def)
  from sweep_steps [OF this, of "''alice''"]
  have "?R \<lparr>w_lease = ?free, w_flight = None,
      w_events = Swept ''alice'' # SweepStarted ''alice'' # Ended ''alice'' # Granted ''alice'' # first_sweep\<rparr>"
    by simp
  from unguarded_grant [OF this, of "''bob''"] show ?thesis by (simp add: UNKNOWN_CONSUMER_def)
qed

theorem lease_refines_witness:
  "phase_run (Waiting BOX_START) [SweepStarted BOX_START, Swept BOX_START, Granted ''alice'', Ended ''alice'',
     SweepStarted ''alice'', Swept ''alice'', Granted ''bob''] = Some (phase_of (held_lease ''bob'' (None :: unit guard option)))"
  using lease_refines [OF handover_run] by (simp add: first_sweep_def)

theorem handover_swept_witness:
  "\<exists>w :: unit world. reach (world_start (\<lambda>_. []) no_ops sample_boot_id) (world_step no_ops sample_boot_id) w \<and>
     rev (w_events w) = [SweepStarted BOX_START, Swept BOX_START] @ Granted ''alice'' #
       [Ended ''alice'', SweepStarted ''alice'', Swept ''alice''] @ Granted ''bob'' # [] \<and>
     Swept ''alice'' \<in> set [Ended ''alice'', SweepStarted ''alice'', Swept ''alice'']"
  using handover_run
    handover_swept [OF handover_run, of "[SweepStarted BOX_START, Swept BOX_START]" "''alice''"
      "[Ended ''alice'', SweepStarted ''alice'', Swept ''alice'']" "''bob''" "[]"]
  by (auto simp: first_sweep_def)


lemma reaper_frees_box_witness:
  "phase_of (retry_drain no_ops (sample_io ()) (\<lambda>_. True) \<lparr>k_settle = 200, k_drained = 200, k_now = 200,
     k_released = 200, k_resettle = 200, k_redrained = 200\<rparr> (held_lease ''alice'' None)) = Free"
  by (rule reaper_frees_box [where t = "''alice''"]) (simp_all add: held_lease_def)

lemma sample_check:
  "check ops (sample_io f) caller (started_guard reg) = (Inr (), started_guard reg)"
  using sample_boot_id_ok
  by (simp add: check_def current_def sample_io_def checked_boot_id_def started_guard_def fresh_record_def)

lemma sample_box_start:
  assumes "op_read ops f reg = Inr RTMR3_FRESH" "val reg = RTMR3_FRESH"
  shows "box_start val ops sample_boot_id \<lparr>bx_guard = started_guard reg, bx_customers = []\<rparr>"
  unfolding box_start_def using sample_in_boot [of f] sample_start [OF assms(1)] assms(2)
  by (intro conjI exI [of _ "sample_io f"] exI [of _ True] exI [of _ NoFile] exI [of _ reg]) simp_all

lemma tdx_sample:
  "op_read SysfsRtmr3 NoFault RTMR3_FRESH = Inr RTMR3_FRESH"
  "op_extend SysfsRtmr3 NoFault LEASE_EVENT_DIGEST RTMR3_FRESH = (Inr (), RTMR3_CONSUMED)"
  "op_read SysfsRtmr3 NoFault RTMR3_CONSUMED = Inr RTMR3_CONSUMED"
  by (simp_all add: SysfsRtmr3_def sysfs_read_def sysfs_extend_def RTMR3_CONSUMED_eq RTMR3_FRESH_def
        RTMR_BYTES_def LEASE_EVENT_DIGEST_def)

lemma guarded_lease_run:
  "reach (world_start (\<lambda>hw. hw) SysfsRtmr3 sample_boot_id) (world_step SysfsRtmr3 sample_boot_id)
    \<lparr>w_lease = held_lease ''alice'' (Some (leased_guard RTMR3_CONSUMED)), w_flight = None,
     w_events = Granted ''alice'' # first_sweep\<rparr>"
proof -
  let ?R = "reach (world_start (\<lambda>hw. hw) SysfsRtmr3 sample_boot_id) (world_step SysfsRtmr3 sample_boot_id)"
  let ?g = "started_guard RTMR3_FRESH"
  let ?free = "(waiting_lease (Some ?g))\<lparr>cl_draining := None\<rparr>"
  let ?w = "\<lparr>w_lease = ?free, w_flight = None, w_events = first_sweep\<rparr>"
  have "?R \<lparr>w_lease = waiting_lease (Some ?g), w_flight = None, w_events = []\<rparr>"
    by (rule sample_world_start) (simp add: sample_box_start [OF tdx_sample(1)])
  from sweep_steps [OF this, of BOX_START] have free: "?R ?w"
    by (simp add: waiting_lease_def first_sweep_def)
  have a: "acquire_locked SysfsRtmr3 (no_io NoFault) 7 ''alice'' 100 (w_lease ?w) =
      (Inr \<lparr>holder = ''alice'', acquired_at = 7, expires_at = 107\<rparr>,
       held_lease ''alice'' (Some (leased_guard RTMR3_CONSUMED)))"
    by (simp add: acquire_locked_def refuse_other_customer_locked_def expire_locked_def held_lease_def
          waiting_lease_def no_io_def sample_check sample_consume [OF tdx_sample(2,3)] Let_def)
  have "world_step SysfsRtmr3 sample_boot_id ?w (move (held_lease ''alice'' (Some (leased_guard RTMR3_CONSUMED))) ?w)"
    by (rule w_acquire [OF no_io_ok _ _ a])
       (simp_all add: UNKNOWN_CONSUMER_def ttl_ok_def waiting_lease_def MIN_LEASE_SECONDS_def)
  with free have "?R (move (held_lease ''alice'' (Some (leased_guard RTMR3_CONSUMED))) ?w)" by (rule reach_step)
  then show ?thesis by (simp add: move_def seen_def held_lease_def waiting_lease_def)
qed

theorem leased_boot_one_customer_witness:
  "\<exists>w l g. reach (world_start (\<lambda>hw. hw) SysfsRtmr3 sample_boot_id) (world_step SysfsRtmr3 sample_boot_id) w \<and>
     cl_lease (w_lease w) = Some l \<and> cl_boot (w_lease w) = Some g \<and> g_reg g = RTMR3_CONSUMED \<and> ''alice'' = holder l"
proof -
  let ?w = "\<lparr>w_lease = held_lease ''alice'' (Some (leased_guard RTMR3_CONSUMED)), w_flight = None,
     w_events = Granted ''alice'' # first_sweep\<rparr>"
  let ?l = "\<lparr>holder = ''alice'', acquired_at = 7, expires_at = 107\<rparr>"
  have f: "cl_lease (w_lease ?w) = Some ?l" "cl_boot (w_lease ?w) = Some (leased_guard RTMR3_CONSUMED)"
    "Granted ''alice'' \<in> set (w_events ?w)"
    by (simp_all add: held_lease_def)
  note one = leased_boot_one_customer [OF guarded_lease_run f(1,2)]
  from one have "g_reg (leased_guard RTMR3_CONSUMED) = RTMR3_CONSUMED" by (rule conjunct1)
  moreover from one f(3) have "''alice'' = holder ?l" by blast
  ultimately show ?thesis using guarded_lease_run f(1,2) by blast
qed

end
