(* ===== verification/Dpll.thy ===== *)
theory Dpll
  imports Prelude
begin

text \<open>
  \<^verbatim>\<open>src/cathedral/lanes/sat_types.py\<close> and the solver of \<^verbatim>\<open>src/cathedral/lanes/sat.py\<close>:
  instances in DIMACS form, their validation, and the recursive DPLL search.  The assignment
  dictionary is a map from variables to truth values; \<^verbatim>\<open>unit_propagate\<close> and \<^verbatim>\<open>backtrack\<close>
  return the dictionary they leave behind.  Both terminate because every step assigns a variable
  of the instance that had no value.  The solver is shown sound and complete, and its recursion
  depth is bounded by the number of variables.
\<close>

section \<open>Instances\<close>

record SatInstance =
  n_vars :: int
  clauses :: "int list list"

definition MAX_N_VARS :: int where "MAX_N_VARS = 512"
definition MAX_CLAUSES :: nat where "MAX_CLAUSES = 8192"
definition MAX_LITERALS :: nat where "MAX_LITERALS = 65536"
definition MAX_LITERALS_PER_CLAUSE :: nat where "MAX_LITERALS_PER_CLAUSE = 1024"

fun validate_clauses :: "int \<Rightarrow> nat \<Rightarrow> int list list \<Rightarrow> exn + unit" where
  "validate_clauses n count [] = Inr ()"
| "validate_clauses n count (c # cs) =
     (if length c > MAX_LITERALS_PER_CLAUSE then Inl (ValueError ''invalid SAT clause'')
      else if count + length c > MAX_LITERALS then Inl (ValueError ''SAT instance exceeds literal limit'')
      else if list_ex (\<lambda>l. l = 0 \<or> \<bar>l\<bar> > n) c then Inl (ValueError ''invalid SAT literal'')
      else validate_clauses n (count + length c) cs)"

definition validate_sat_instance :: "SatInstance \<Rightarrow> exn + unit" where
  "validate_sat_instance i =
     (if \<not> (1 \<le> n_vars i \<and> n_vars i \<le> MAX_N_VARS) then Inl (ValueError ''invalid SAT n_vars'')
      else if clauses i = [] \<or> length (clauses i) > MAX_CLAUSES then Inl (ValueError ''invalid SAT clauses'')
      else validate_clauses (n_vars i) 0 (clauses i))"

section \<open>Solver\<close>

type_synonym assignment = "int \<rightharpoonup> bool"

text \<open>\<^verbatim>\<open>assign[v] = b\<close>.\<close>

definition set_var :: "assignment \<Rightarrow> int \<Rightarrow> bool \<Rightarrow> assignment" where
  "set_var a v b = a(v \<mapsto> b)"

lemma set_var_apply: "set_var a v b w = (if w = v then Some b else a w)"
  by (simp add: set_var_def)

text \<open>One clause under an assignment: \<open>None\<close> when satisfied, else its unresolved literals.\<close>

fun unresolved :: "assignment \<Rightarrow> int list \<Rightarrow> int list option" where
  "unresolved a [] = Some []"
| "unresolved a (l # ls) = (case a \<bar>l\<bar> of
      Some v \<Rightarrow> if (l > 0) = v then None else unresolved a ls
    | None \<Rightarrow> map_option (Cons l) (unresolved a ls))"

datatype scan_result = Conflict | Unit int | NoUnit

fun scan_clauses :: "assignment \<Rightarrow> int list list \<Rightarrow> scan_result" where
  "scan_clauses a [] = NoUnit"
| "scan_clauses a (c # cs) = (case unresolved a c of
      None \<Rightarrow> scan_clauses a cs
    | Some [] \<Rightarrow> Conflict
    | Some [u] \<Rightarrow> Unit u
    | Some _ \<Rightarrow> scan_clauses a cs)"

definition vars :: "int list list \<Rightarrow> int set" where
  "vars cs = abs ` set (concat cs)"

lemma finite_vars [simp]: "finite (vars cs)"
  by (simp add: vars_def)

lemma unresolved_Some: "unresolved a c = Some us \<Longrightarrow> u \<in> set us \<Longrightarrow> u \<in> set c \<and> a \<bar>u\<bar> = None"
  by (induction c arbitrary: us) (auto split: option.splits if_splits)

lemma scan_Unit: "scan_clauses a cs = Unit u \<Longrightarrow> \<bar>u\<bar> \<in> vars cs \<and> a \<bar>u\<bar> = None"
proof (induction cs)
  case (Cons c cs)
  then show ?case
    using unresolved_Some [of a c]
    by (fastforce simp: vars_def split: option.splits list.splits)
qed simp

lemma free_vars_decrease:
  "v \<in> vars cs \<Longrightarrow> a v = None \<Longrightarrow> card (vars cs - dom (set_var a v b)) < card (vars cs - dom a)"
  by (rule psubset_card_mono) (auto simp: dom_def set_var_apply)

function unit_propagate :: "int list list \<Rightarrow> assignment \<Rightarrow> assignment option" where
  "unit_propagate cs a = (case scan_clauses a cs of
      Conflict \<Rightarrow> None
    | NoUnit \<Rightarrow> Some a
    | Unit u \<Rightarrow> unit_propagate cs (set_var a \<bar>u\<bar> (u > 0)))"
  by pat_completeness auto
termination
  by (relation "measure (\<lambda>(cs, a). card (vars cs - dom a))") (auto dest!: scan_Unit intro: free_vars_decrease)

declare unit_propagate.simps [simp del]

definition lit_holds :: "assignment \<Rightarrow> int \<Rightarrow> bool" where
  "lit_holds a l = (a \<bar>l\<bar> = Some (l > 0))"

definition all_satisfied :: "int list list \<Rightarrow> assignment \<Rightarrow> bool" where
  "all_satisfied cs a = list_all (list_ex (lit_holds a)) cs"

definition unassigned_var :: "int list list \<Rightarrow> assignment \<Rightarrow> int option" where
  "unassigned_var cs a = map_option abs (List.find (\<lambda>l. a \<bar>l\<bar> = None) (concat cs))"

lemma unassigned_var_Some: "unassigned_var cs a = Some v \<Longrightarrow> v \<in> vars cs \<and> a v = None"
  by (auto simp: unassigned_var_def vars_def find_Some_iff simp del: set_concat)

lemma unit_propagate_extends: "unit_propagate cs a = Some a' \<Longrightarrow> a \<subseteq>\<^sub>m a'"
proof (induction cs a rule: unit_propagate.induct)
  case (1 cs a)
  show ?case
  proof (cases "scan_clauses a cs")
    case (Unit u)
    with "1.prems" have "unit_propagate cs (set_var a \<bar>u\<bar> (u > 0)) = Some a'" by (simp add: unit_propagate.simps)
    from "1.IH" [OF Unit this] scan_Unit [OF Unit] show ?thesis
      by (auto simp: map_le_def dom_def set_var_apply split: if_splits)
  qed (use "1.prems" in \<open>simp_all add: unit_propagate.simps\<close>)
qed

lemma free_vars_mono: "a \<subseteq>\<^sub>m a' \<Longrightarrow> card (vars cs - dom a') \<le> card (vars cs - dom a)"
  by (rule card_mono) (auto simp: map_le_def dom_def)

lemma branch_decreases:
  "unit_propagate cs a = Some a' \<Longrightarrow> unassigned_var cs a' = Some v \<Longrightarrow>
     card (vars cs - dom (set_var a' v b)) < card (vars cs - dom a)"
  using free_vars_decrease unassigned_var_Some free_vars_mono unit_propagate_extends
  by (meson order_less_le_trans)

function backtrack :: "int list list \<Rightarrow> assignment \<Rightarrow> assignment option" where
  "backtrack cs a = (case unit_propagate cs a of
      None \<Rightarrow> None
    | Some a' \<Rightarrow>
        if all_satisfied cs a' then Some a'
        else (case unassigned_var cs a' of
            None \<Rightarrow> None
          | Some v \<Rightarrow> (case backtrack cs (set_var a' v True) of
              Some r \<Rightarrow> Some r
            | None \<Rightarrow> backtrack cs (set_var a' v False))))"
  by pat_completeness auto
termination
  by (relation "measure (\<lambda>(cs, a). card (vars cs - dom a))") (simp_all add: branch_decreases)

declare backtrack.simps [simp del]

definition solve_sat :: "SatInstance \<Rightarrow> int list option" where
  "solve_sat i = map_option
     (\<lambda>a. map (\<lambda>v. if a v = Some False then - v else v) [1..n_vars i])
     (backtrack (clauses i) Map.empty)"

text \<open>
  The certificate check of \<^verbatim>\<open>SatLane.verify\<close>: one literal per variable, and a true literal in every
  clause.
\<close>

definition assignment_ok :: "SatInstance \<Rightarrow> int list \<Rightarrow> bool" where
  "assignment_ok i asg = (int (length asg) = n_vars i \<and> abs ` set asg = set [1..n_vars i] \<and>
     list_all (list_ex (\<lambda>l. l \<in> set asg)) (clauses i))"

text \<open>
  The same search with Python's recursion limit: \<open>None\<close> when more than \<open>depth\<close> nested calls
  would be needed.
\<close>

fun backtrack_within :: "nat \<Rightarrow> int list list \<Rightarrow> assignment \<Rightarrow> assignment option option" where
  "backtrack_within 0 cs a = None"
| "backtrack_within (Suc d) cs a = (case unit_propagate cs a of
      None \<Rightarrow> Some None
    | Some a' \<Rightarrow>
        if all_satisfied cs a' then Some (Some a')
        else (case unassigned_var cs a' of
            None \<Rightarrow> Some None
          | Some v \<Rightarrow> (case backtrack_within d cs (set_var a' v True) of
              None \<Rightarrow> None
            | Some (Some r) \<Rightarrow> Some (Some r)
            | Some None \<Rightarrow> backtrack_within d cs (set_var a' v False))))"

section \<open>Meaning\<close>

definition models :: "(int \<Rightarrow> bool) \<Rightarrow> int list list \<Rightarrow> bool" where
  "models A cs = (\<forall>c \<in> set cs. \<exists>l \<in> set c. A \<bar>l\<bar> = (l > 0))"

definition extends :: "(int \<Rightarrow> bool) \<Rightarrow> assignment \<Rightarrow> bool" where
  "extends A a = (\<forall>v b. a v = Some b \<longrightarrow> A v = b)"

lemma unresolved_None: "unresolved a c = None \<longleftrightarrow> (\<exists>l \<in> set c. lit_holds a l)"
  by (induction c) (auto simp: lit_holds_def split: option.splits)

lemma unresolved_model:
  assumes "extends A a" "unresolved a c = Some us" "l \<in> set c" "A \<bar>l\<bar> = (l > 0)"
  shows "l \<in> set us"
  using assms(2-) 
proof (induction c arbitrary: us)
  case (Cons x c)
  have "a \<bar>l\<bar> = Some v \<Longrightarrow> v = (l > 0)" for v using assms(1) Cons.prems(3) by (auto simp: extends_def)
  with Cons show ?case by (auto split: option.splits if_splits)
qed simp

lemma scan_Conflict: "scan_clauses a cs = Conflict \<Longrightarrow> extends A a \<Longrightarrow> \<not> models A cs"
proof (induction cs)
  case (Cons c cs)
  show ?case
  proof (cases "unresolved a c = Some []")
    case True
    then show ?thesis using unresolved_model [OF Cons.prems(2), of c "[]"] by (auto simp: models_def)
  next
    case False
    with Cons show ?thesis by (auto simp: models_def split: option.splits list.splits)
  qed
qed simp

lemma scan_Unit_forced:
  "scan_clauses a cs = Unit u \<Longrightarrow> extends A a \<Longrightarrow> models A cs \<Longrightarrow> A \<bar>u\<bar> = (u > 0)"
proof (induction cs)
  case (Cons c cs)
  show ?case
  proof (cases "unresolved a c = Some [u]")
    case True
    obtain l where "l \<in> set c" "A \<bar>l\<bar> = (l > 0)" using Cons.prems(3) by (auto simp: models_def)
    then show ?thesis using unresolved_model [OF Cons.prems(2) True] by auto
  next
    case False
    with Cons show ?thesis by (auto simp: models_def split: option.splits list.splits)
  qed
qed simp

lemma unit_propagate_model:
  "extends A a \<Longrightarrow> models A cs \<Longrightarrow> \<exists>a'. unit_propagate cs a = Some a' \<and> extends A a'"
proof (induction cs a rule: unit_propagate.induct)
  case (1 cs a)
  show ?case
  proof (cases "scan_clauses a cs")
    case Conflict
    with scan_Conflict "1.prems" show ?thesis by blast
  next
    case NoUnit
    with "1.prems" show ?thesis by (simp add: unit_propagate.simps)
  next
    case (Unit u)
    have "extends A (set_var a \<bar>u\<bar> (u > 0))"
      using "1.prems"(1) scan_Unit_forced [OF Unit "1.prems"] by (auto simp: extends_def set_var_apply)
    from "1.IH" [OF Unit this "1.prems"(2)] Unit show ?thesis by (simp add: unit_propagate.simps)
  qed
qed

lemma all_assigned_model:
  assumes "extends A a" "models A cs" "unassigned_var cs a = None"
  shows "all_satisfied cs a"
proof -
  have "a \<bar>l\<bar> \<noteq> None" if "l \<in> set c" "c \<in> set cs" for l c
    using assms(3) that by (auto simp: unassigned_var_def find_None_iff)
  then have "lit_holds a l" if "l \<in> set c" "c \<in> set cs" "A \<bar>l\<bar> = (l > 0)" for l c
    using assms(1) that by (fastforce simp: lit_holds_def extends_def)
  with assms(2) show ?thesis by (fastforce simp: all_satisfied_def models_def list_all_iff list_ex_iff)
qed

lemma backtrack_complete: "extends A a \<Longrightarrow> models A cs \<Longrightarrow> backtrack cs a \<noteq> None"
proof (induction cs a rule: backtrack.induct)
  case (1 cs a)
  obtain a' where u: "unit_propagate cs a = Some a'" "extends A a'"
    using unit_propagate_model [OF "1.prems"] by blast
  show ?case
  proof (cases "all_satisfied cs a'")
    case True
    with u show ?thesis by (simp add: backtrack.simps)
  next
    case False
    then obtain v where v: "unassigned_var cs a' = Some v"
      using all_assigned_model [OF u(2) "1.prems"(2)] by blast
    have ext: "extends A (set_var a' v (A v))" using u(2) by (auto simp: extends_def set_var_apply)
    show ?thesis
    proof (cases "backtrack cs (set_var a' v True)")
      case (Some r)
      with u v False show ?thesis by (simp add: backtrack.simps [of cs a])
    next
      case None
      then have "\<not> A v" using "1.IH"(1) [OF u(1) False v _ "1.prems"(2)] ext by (cases "A v") auto
      then have "backtrack cs (set_var a' v False) \<noteq> None"
        using "1.IH"(2) [OF u(1) False v None _ "1.prems"(2)] ext by simp
      with u v False None show ?thesis by (simp add: backtrack.simps [of cs a])
    qed
  qed
qed

lemma backtrack_sound: "backtrack cs a = Some r \<Longrightarrow> all_satisfied cs r"
proof (induction cs a arbitrary: r rule: backtrack.induct)
  case (1 cs a)
  from "1.prems" obtain a' where u: "unit_propagate cs a = Some a'"
    by (simp add: backtrack.simps [of cs a] split: option.splits)
  show ?case
  proof (cases "all_satisfied cs a'")
    case True
    with u "1.prems" show ?thesis by (simp add: backtrack.simps [of cs a])
  next
    case False
    with u "1.prems" obtain v where v: "unassigned_var cs a' = Some v"
      by (simp add: backtrack.simps [of cs a] split: option.splits)
    with u False "1.prems" show ?thesis
      using "1.IH"(1) [OF u False v] "1.IH"(2) [OF u False v]
      by (simp add: backtrack.simps [of cs a] split: option.splits)
  qed
qed

lemma backtrack_within_enough:
  "card (vars cs - dom a) < d \<Longrightarrow> backtrack_within d cs a = Some (backtrack cs a)"
proof (induction d arbitrary: a)
  case (Suc d)
  have "backtrack_within d cs (set_var a' v b) = Some (backtrack cs (set_var a' v b))"
    if "unit_propagate cs a = Some a'" "unassigned_var cs a' = Some v" for a' v b
    using Suc.IH branch_decreases [OF that] Suc.prems by (meson order_less_le_trans less_Suc_eq_le)
  then show ?case
    by (simp add: backtrack.simps [of cs a] split: option.split)
qed simp

section \<open>Properties\<close>

lemma validated_clauses:
  "validate_clauses n k cs = Inr () \<Longrightarrow> c \<in> set cs \<Longrightarrow> l \<in> set c \<Longrightarrow> l \<noteq> 0 \<and> \<bar>l\<bar> \<le> n"
  by (induction n k cs rule: validate_clauses.induct) (auto simp: list_ex_iff split: if_splits)

lemma validated_instance:
  assumes "validate_sat_instance i = Inr ()"
  shows "1 \<le> n_vars i" "n_vars i \<le> 512" "c \<in> set (clauses i) \<Longrightarrow> l \<in> set c \<Longrightarrow> l \<noteq> 0 \<and> \<bar>l\<bar> \<le> n_vars i"
  using assms validated_clauses [of "n_vars i" 0 "clauses i" c l]
  by (auto simp: validate_sat_instance_def MAX_N_VARS_def split: if_splits)

lemma validated_vars:
  assumes "validate_sat_instance i = Inr ()"
  shows "vars (clauses i) \<subseteq> {1..n_vars i}"
  using validated_instance(3) [OF assms] by (fastforce simp: vars_def)

lemma distinct_abs:
  assumes "int (length asg) = n" "abs ` set asg = set [1..n]" "l \<in> set asg"
  shows "- l \<in> set asg \<longleftrightarrow> l = 0"
proof
  assume neg: "- l \<in> set asg"
  have "card (set (map abs asg)) = length (map abs asg)" using assms(1,2) by simp
  then have "distinct (map abs asg)" by (rule card_distinct)
  then have "inj_on abs (set asg)" by (simp add: distinct_map)
  from inj_onD [OF this _ neg assms(3)] show "l = 0" by simp
qed (use assms(3) in simp)

lemma assignment_models:
  assumes "assignment_ok i asg"
  shows "models (\<lambda>v. v \<in> set asg) (clauses i)"
  unfolding models_def
proof
  fix c assume "c \<in> set (clauses i)"
  then obtain l where l: "l \<in> set c" "l \<in> set asg"
    using assms by (auto simp: assignment_ok_def list_all_iff list_ex_iff)
  have "- l \<in> set asg \<longleftrightarrow> l = 0"
    using assms distinct_abs l(2) by (auto simp: assignment_ok_def)
  moreover have "\<bar>l\<bar> \<in> {1..n_vars i}" using assms l(2) by (fastforce simp: assignment_ok_def)
  ultimately have "(\<bar>l\<bar> \<in> set asg) = (l > 0)" using l(2) by (cases "l > 0") auto
  with l(1) show "\<exists>l \<in> set c. (\<bar>l\<bar> \<in> set asg) = (l > 0)" by blast
qed

lemma backtrack_assignment_ok:
  assumes v: "validate_sat_instance i = Inr ()" and s: "solve_sat i = Some asg"
  shows "assignment_ok i asg"
proof -
  obtain a where a: "backtrack (clauses i) Map.empty = Some a"
    and asg0: "asg = map (\<lambda>v. if a v = Some False then - v else v) [1..n_vars i]"
    using s by (auto simp: solve_sat_def)
  define f where "f v = (if a v = Some False then - v else v)" for v
  have asg: "asg = map f [1..n_vars i]" using asg0 by (simp add: f_def)
  have "l \<in> set asg" if "lit_holds a l" "c \<in> set (clauses i)" "l \<in> set c" for l c
  proof -
    have mem: "\<bar>l\<bar> \<in> set [1..n_vars i]" using validated_instance(3) [OF v that(2,3)] by auto
    have eq: "f \<bar>l\<bar> = l"
      using that(1) by (cases "l > 0") (simp_all add: lit_holds_def f_def)
    have "f \<bar>l\<bar> \<in> set asg" unfolding asg set_map by (rule imageI [OF mem])
    then show ?thesis by (simp only: eq)
  qed
  moreover have "all_satisfied (clauses i) a" by (rule backtrack_sound [OF a])
  ultimately have "list_all (list_ex (\<lambda>l. l \<in> set asg)) (clauses i)"
    by (fastforce simp: all_satisfied_def list_all_iff list_ex_iff)
  moreover have "int (length asg) = n_vars i" using validated_instance(1) [OF v] by (simp add: asg)
  moreover have "map abs asg = [1..n_vars i]" unfolding asg map_map by (rule map_idI) (auto simp: f_def)
  then have "abs ` set asg = set [1..n_vars i]" by (metis set_map)
  ultimately show ?thesis by (simp add: assignment_ok_def)
qed

text \<open>
  C15: the solver decides satisfiability.  On every validated instance it returns an assignment that the
  lane's own certificate check accepts, or it returns none and no assignment satisfies all clauses.
\<close>

theorem solve_sat_correct:
  assumes "validate_sat_instance i = Inr ()"
  shows "(case solve_sat i of
      Some asg \<Rightarrow> assignment_ok i asg \<and> models (\<lambda>v. v \<in> set asg) (clauses i)
    | None \<Rightarrow> \<not> (\<exists>A. models A (clauses i)))"
proof (cases "solve_sat i")
  case None
  then have "backtrack (clauses i) Map.empty = None" by (simp add: solve_sat_def)
  moreover have "extends A Map.empty" for A by (simp add: extends_def)
  ultimately have "\<not> models A (clauses i)" for A using backtrack_complete [of A Map.empty "clauses i"] by blast
  with None show ?thesis by simp
next
  case (Some asg)
  with backtrack_assignment_ok [OF assms] assignment_models show ?thesis by simp
qed

text \<open>
  C25: the recursion stays shallow.  On every validated instance the search needs at most one nested call
  per variable and one more, at most 513, and with that limit it returns what the unlimited search does.
\<close>

theorem solver_depth_bounded:
  assumes "validate_sat_instance i = Inr ()"
  shows "nat (n_vars i) + 1 \<le> 513 \<and>
    backtrack_within (nat (n_vars i) + 1) (clauses i) Map.empty = Some (backtrack (clauses i) Map.empty)"
proof -
  have "card (vars (clauses i) - dom Map.empty) \<le> card {1..n_vars i}"
    using validated_vars [OF assms] by (intro card_mono) auto
  then have "card (vars (clauses i) - dom Map.empty) < nat (n_vars i) + 1" by simp
  from backtrack_within_enough [OF this] validated_instance(2) [OF assms] show ?thesis by simp
qed

definition sample_instance :: SatInstance where
  "sample_instance = \<lparr>n_vars = 2, clauses = [[1, 2], [-1, 2], [1, -2]]\<rparr>"

lemma sample_instance_valid: "validate_sat_instance sample_instance = Inr ()"
  by (simp add: validate_sat_instance_def sample_instance_def MAX_N_VARS_def MAX_CLAUSES_def MAX_LITERALS_def
        MAX_LITERALS_PER_CLAUSE_def)

lemma sample_instance_solved: "solve_sat sample_instance = Some [1, 2]"
proof -
  let ?cs = "[[1, 2], [-1, 2], [1, -2]] :: int list list"
  let ?a = "set_var Map.empty 1 True" and ?b = "set_var (set_var Map.empty 1 True) 2 True"
  have 1: "unit_propagate ?cs Map.empty = Some Map.empty"
    by (simp add: unit_propagate.simps [of ?cs Map.empty])
  have 2: "unit_propagate ?cs ?a = unit_propagate ?cs ?b"
    by (simp add: unit_propagate.simps [of ?cs ?a] set_var_apply)
  have 3: "unit_propagate ?cs ?b = Some ?b"
    by (simp add: unit_propagate.simps [of ?cs ?b] set_var_apply)
  have "backtrack ?cs ?a = Some ?b"
    by (simp add: backtrack.simps [of ?cs ?a] 2 3 all_satisfied_def lit_holds_def set_var_apply)
  then have "backtrack ?cs Map.empty = Some ?b"
    by (simp add: backtrack.simps [of ?cs Map.empty] 1 all_satisfied_def lit_holds_def unassigned_var_def)
  then show ?thesis by (simp add: solve_sat_def sample_instance_def set_var_apply upto.simps)
qed

theorem solve_sat_correct_witness:
  "validate_sat_instance sample_instance = Inr () \<and> solve_sat sample_instance = Some [1, 2] \<and>
   assignment_ok sample_instance [1, 2]"
  using solve_sat_correct [OF sample_instance_valid] sample_instance_valid
  by (simp add: sample_instance_solved)

theorem solver_depth_bounded_witness:
  "backtrack_within 3 (clauses sample_instance) Map.empty = Some (backtrack (clauses sample_instance) Map.empty)"
proof -
  have "nat (n_vars sample_instance) + 1 = 3" by (simp add: sample_instance_def)
  with solver_depth_bounded [OF sample_instance_valid] show ?thesis by metis
qed

end
