(* ===== verification/PyRandom.thy ===== *)
theory PyRandom
  imports Prelude "HOL-Library.Multiset"
begin

unbundle bit_operations_syntax

text \<open>
  What the code uses of Python's \<^verbatim>\<open>random.Random\<close>: the Mersenne Twister MT19937 with the integer
  seeding of CPython, \<^verbatim>\<open>getrandbits\<close>, the rejection loop \<^verbatim>\<open>_randbelow\<close>, \<^verbatim>\<open>choice\<close> and
  \<^verbatim>\<open>sample\<close> (on a population of at most 21).  The draws are functions of any source \<open>nx\<close> of
  32-bit words; the twister is one.  The rejection loop ends when a draw is in range, which is not
  a fact about every source: it returns \<open>None\<close> when it would not end.
\<close>

section \<open>MT19937\<close>

record mt =
  mt_words :: "32 word list"
  mt_index :: nat

fun init_genrand_from :: "nat \<Rightarrow> nat \<Rightarrow> 32 word \<Rightarrow> 32 word list" where
  "init_genrand_from 0 i w = []"
| "init_genrand_from (Suc n) i w =
     (let w' = 1812433253 * (w XOR drop_bit 30 w) + of_nat i in w' # init_genrand_from n (Suc i) w')"

definition init_genrand :: "32 word \<Rightarrow> 32 word list" where
  "init_genrand s = s # init_genrand_from 623 1 s"

definition mix :: "32 word \<Rightarrow> 32 word \<Rightarrow> 32 word \<Rightarrow> 32 word" where
  "mix m w prev = w XOR ((prev XOR drop_bit 30 prev) * m)"

text \<open>After writing position \<open>i\<close>: the next position, with the wrap to 1 that copies the last word to the front.\<close>

definition wrap_next :: "nat \<Rightarrow> 32 word list \<Rightarrow> nat \<times> 32 word list" where
  "wrap_next i ws = (if Suc i \<ge> 624 then (1, ws[0 := ws ! 623]) else (Suc i, ws))"

fun absorb_key :: "nat \<Rightarrow> 32 word list \<Rightarrow> nat \<Rightarrow> nat \<Rightarrow> 32 word list \<Rightarrow> nat \<times> 32 word list" where
  "absorb_key 0 key i j ws = (i, ws)"
| "absorb_key (Suc n) key i j ws =
     (let ws1 = ws[i := mix 1664525 (ws ! i) (ws ! (i - 1)) + key ! j + of_nat j];
          (i', ws2) = wrap_next i ws1
      in absorb_key n key i' (if Suc j \<ge> length key then 0 else Suc j) ws2)"

fun final_mix :: "nat \<Rightarrow> nat \<Rightarrow> 32 word list \<Rightarrow> 32 word list" where
  "final_mix 0 i ws = ws"
| "final_mix (Suc n) i ws =
     (let ws1 = ws[i := mix 1566083941 (ws ! i) (ws ! (i - 1)) - of_nat i];
          (i', ws2) = wrap_next i ws1
      in final_mix n i' ws2)"

definition init_by_array :: "32 word list \<Rightarrow> 32 word list" where
  "init_by_array key = (case absorb_key (max 624 (length key)) key 1 0 (init_genrand 19650218) of
     (i, ws) \<Rightarrow> (final_mix 623 i ws)[0 := 2147483648])"

text \<open>The seed's magnitude in 32-bit words, least significant first.\<close>

function key_words :: "nat \<Rightarrow> 32 word list" where
  "key_words n = (if n < 2 ^ 32 then [of_nat n] else of_nat (n mod 2 ^ 32) # key_words (n div 2 ^ 32))"
  by pat_completeness auto
termination by (relation "measure id") auto

declare key_words.simps [simp del]

definition seeded :: "int \<Rightarrow> mt" where
  "seeded s = \<lparr>mt_words = init_by_array (key_words (nat \<bar>s\<bar>)), mt_index = 624\<rparr>"

definition twist_at :: "32 word list \<Rightarrow> nat \<Rightarrow> 32 word list" where
  "twist_at ws k = (let y = (ws ! k AND 2147483648) OR (ws ! (Suc k mod 624) AND 2147483647) in
     ws[k := ws ! ((k + 397) mod 624) XOR drop_bit 1 y XOR (if bit y 0 then 2567483615 else 0)])"

definition temper :: "32 word \<Rightarrow> 32 word" where
  "temper y0 = (let y1 = y0 XOR drop_bit 11 y0; y2 = y1 XOR (push_bit 7 y1 AND 2636928640);
     y3 = y2 XOR (push_bit 15 y2 AND 4022730752) in y3 XOR drop_bit 18 y3)"

definition genrand_uint32 :: "mt \<Rightarrow> 32 word \<times> mt" where
  "genrand_uint32 g =
     (let g1 = (if mt_index g \<ge> 624 then \<lparr>mt_words = fold (\<lambda>k ws. twist_at ws k) [0..<624] (mt_words g), mt_index = 0\<rparr>
                else g)
      in (temper (mt_words g1 ! mt_index g1), g1\<lparr>mt_index := Suc (mt_index g1)\<rparr>))"

text \<open>A generator class: how it is seeded and how it produces words.\<close>

record 'g random_source =
  rs_seed :: "int \<Rightarrow> 'g"
  rs_next :: "'g \<Rightarrow> 32 word \<times> 'g"

definition Mersenne :: "mt random_source" where
  "Mersenne = \<lparr>rs_seed = seeded, rs_next = genrand_uint32\<rparr>"

section \<open>Draws\<close>

definition getrandbits :: "('g \<Rightarrow> 32 word \<times> 'g) \<Rightarrow> nat \<Rightarrow> 'g \<Rightarrow> nat \<times> 'g" where
  "getrandbits nx k g = (case nx g of (w, g') \<Rightarrow> (unat (drop_bit (32 - k) w), g'))"

partial_function (option) randbelow_loop ::
  "('g \<Rightarrow> 32 word \<times> 'g) \<Rightarrow> nat \<Rightarrow> nat \<Rightarrow> 'g \<Rightarrow> (nat \<times> 'g) option" where
  "randbelow_loop nx k n g = (case getrandbits nx k g of (r, g') \<Rightarrow>
     if r < n then Some (r, g') else randbelow_loop nx k n g')"

declare randbelow_loop.simps [code]

fun bit_length :: "nat \<Rightarrow> nat" where
  "bit_length n = (if n = 0 then 0 else Suc (bit_length (n div 2)))"

declare bit_length.simps [simp del]

definition randbelow :: "('g \<Rightarrow> 32 word \<times> 'g) \<Rightarrow> nat \<Rightarrow> 'g \<Rightarrow> (nat \<times> 'g) option" where
  "randbelow nx n g = randbelow_loop nx (bit_length n) n g"

definition choice :: "('g \<Rightarrow> 32 word \<times> 'g) \<Rightarrow> 'a list \<Rightarrow> 'g \<Rightarrow> ('a \<times> 'g) option" where
  "choice nx xs g = map_option (\<lambda>(j, g'). (xs ! j, g')) (randbelow nx (length xs) g)"

text \<open>
  \<^verbatim>\<open>sample\<close> from a pool: each drawn element is replaced by the last one still in play.
\<close>

fun sample_pool :: "('g \<Rightarrow> 32 word \<times> 'g) \<Rightarrow> nat \<Rightarrow> 'a list \<Rightarrow> 'g \<Rightarrow> ('a list \<times> 'g) option" where
  "sample_pool nx 0 pool g = Some ([], g)"
| "sample_pool nx (Suc k) pool g = (case randbelow nx (length pool) g of
      None \<Rightarrow> None
    | Some (j, g') \<Rightarrow> map_option (\<lambda>(xs, g''). (pool ! j # xs, g''))
        (sample_pool nx k (butlast (pool[j := last pool])) g'))"

section \<open>Ranges\<close>

lemma randbelow_loop_less: "randbelow_loop nx k n g = Some y \<Longrightarrow> fst y < n"
  by (erule randbelow_loop.raw_induct [where P = "\<lambda>nx k n g y. fst y < n", rotated])
     (auto split: prod.splits if_splits)

lemma randbelow_less: "randbelow nx n g = Some (r, g') \<Longrightarrow> r < n"
  using randbelow_loop_less by (fastforce simp: randbelow_def)

lemma choice_mem: "choice nx xs g = Some (x, g') \<Longrightarrow> x \<in> set xs"
  by (auto simp: choice_def dest: randbelow_less)

lemma pool_step:
  assumes "j < length pool"
  shows "mset pool = add_mset (pool ! j) (mset (butlast (pool[j := last pool])))"
proof -
  obtain xs x where p: "pool = xs @ [x]" using assms by (cases pool rule: rev_cases) auto
  show ?thesis
  proof (cases "j = length xs")
    case True
    then show ?thesis by (simp add: p list_update_append)
  next
    case False
    then have j: "j < length xs" using assms p by simp
    then have "mset (xs[j := x]) = add_mset x (mset xs - {#xs ! j#})" by (simp add: mset_update)
    with j show ?thesis by (simp add: p list_update_append nth_append)
  qed
qed

lemma sample_pool_sub:
  "sample_pool nx k pool g = Some (xs, g') \<Longrightarrow> length xs = k \<and> mset xs \<subseteq># mset pool"
proof (induction k arbitrary: pool g xs g')
  case (Suc k)
  then obtain j g1 ys where j: "randbelow nx (length pool) g = Some (j, g1)"
    and ys: "sample_pool nx k (butlast (pool[j := last pool])) g1 = Some (ys, g')" "xs = pool ! j # ys"
    by (auto split: option.splits prod.splits)
  from Suc.IH [OF ys(1)] pool_step [OF randbelow_less [OF j]] ys(2) show ?case by simp
qed simp

end
