(* ===== verification/SatLane.thy ===== *)
theory SatLane
  imports Common Dpll PyRandom Json
begin

text \<open>
  \<^verbatim>\<open>src/cathedral/lanes/sat.py\<close>, the rest: challenge ids, the work-unit rule, canonical
  (backfill) instances, and the lane itself, whose operations are functions on its state.

  \<^verbatim>\<open>random.Random\<close> is the argument \<open>rnd\<close>, a source that can be seeded; the program's is
  \<open>Mersenne\<close>.  A result \<open>None\<close> means that its rejection loop does not end.  Work units are the
  small whole floats of the code, as rationals.
\<close>

section \<open>Work items\<close>

record SatWorkItem =
  wi_instance :: SatInstance
  wi_seed :: int
  wi_challenge_id :: string

record SatCertificate =
  ct_satisfiable :: bool
  ct_assignment :: "int list option"
  ct_work_units :: rat
  ct_challenge_id :: string
  ct_assigned_hotkey :: string

definition MIN_SEED :: int where "MIN_SEED = - (2 ^ 63)"
definition MAX_SEED :: int where "MAX_SEED = 2 ^ 63 - 1"
definition MAX_CUSTOMER_WORK_BYTES :: nat where "MAX_CUSTOMER_WORK_BYTES = 60 * 1024"
definition CUSTOMER_SAT_WORK_UNITS :: rat where "CUSTOMER_SAT_WORK_UNITS = 20"
definition SAT_WORK_UNIT_RULE :: string where "SAT_WORK_UNIT_RULE = ''sat_work_units_v1''"
definition QUALIFIED_TIERS :: "Tier set" where "QUALIFIED_TIERS = {CC_CPU_SNP, CC_CPU_TDX}"

text \<open>
  \<^verbatim>\<open>json.dumps(payload, sort_keys=True)\<close> with its default separators: the elements of a list after the
  first follow a comma and a space.
\<close>

fun list_tail :: "('a \<Rightarrow> string) \<Rightarrow> 'a list \<Rightarrow> string" where
  "list_tail f [] = '']''"
| "list_tail f (x # xs) = '', '' @ f x @ list_tail f xs"

fun list_text :: "('a \<Rightarrow> string) \<Rightarrow> 'a list \<Rightarrow> string" where
  "list_text f [] = ''[]''"
| "list_text f (x # xs) = ''['' @ f x @ list_tail f xs"

definition quoted :: "string \<Rightarrow> string" where
  "quoted s = CHR 0x22 # s @ [CHR 0x22]"

definition challenge_text :: "SatInstance \<Rightarrow> int \<Rightarrow> string" where
  "challenge_text i seed = ''{'' @ quoted ''clauses'' @ '': '' @ list_text (list_text show_int) (clauses i) @
     '', '' @ quoted ''n_vars'' @ '': '' @ show_int (n_vars i) @
     '', '' @ quoted ''seed'' @ '': '' @ show_int seed @ ''}''"

definition compute_challenge_id :: "SatInstance \<Rightarrow> int \<Rightarrow> string" where
  "compute_challenge_id i seed = hex_of (sha256 (ascii (challenge_text i seed)))"

definition work_item_document :: "SatWorkItem \<Rightarrow> json" where
  "work_item_document w = JObj [(''challenge_id'', JStr (wi_challenge_id w)),
     (''assigned_hotkey'', JStr (replicate 256 (CHR ''x''))), (''seed'', JInt (wi_seed w)),
     (''instance'', JObj [(''n_vars'', JInt (n_vars (wi_instance w))),
        (''clauses'', JArr (map (\<lambda>c. JArr (map JInt c)) (clauses (wi_instance w))))])]"

definition validate_sat_work_item :: "SatWorkItem \<Rightarrow> exn + unit" where
  "validate_sat_work_item w =
     (if length (wi_challenge_id w) \<noteq> 64 \<or> \<not> is_lower_hex (wi_challenge_id w)
      then Inl (ValueError ''invalid SAT challenge_id'')
      else if \<not> (MIN_SEED \<le> wi_seed w \<and> wi_seed w \<le> MAX_SEED) then Inl (ValueError ''invalid SAT seed'')
      else bindE (validate_sat_instance (wi_instance w)) (\<lambda>_.
        if compute_challenge_id (wi_instance w) (wi_seed w) \<noteq> wi_challenge_id w
        then Inl (ValueError ''challenge_id mismatch'')
        else if length (dumps (\<lambda>_. []) (work_item_document w)) > MAX_CUSTOMER_WORK_BYTES
        then Inl (ValueError ''SAT work item exceeds request size limit'')
        else Inr ()))"

section \<open>Canonical work\<close>

definition hmac_sha256 :: "bytes \<Rightarrow> bytes \<Rightarrow> bytes" where
  "hmac_sha256 key msg =
     (let k0 = (if length key > 64 then sha256 key else key);
          k = k0 @ replicate (64 - length k0) 0
      in sha256 (map (\<lambda>b. b XOR 0x5C) k @ sha256 (map (\<lambda>b. b XOR 0x36) k @ msg)))"

definition derive_canonical_seed :: "string \<Rightarrow> nat \<Rightarrow> int" where
  "derive_canonical_seed namespace counter =
     int (nat_of_be (take 8 (hmac_sha256 (utf8 namespace) (ascii (show_nat counter)))) mod 2 ^ 63)"

fun draw_planted :: "('g \<Rightarrow> 32 word \<times> 'g) \<Rightarrow> nat \<Rightarrow> 'g \<Rightarrow> (bool list \<times> 'g) option" where
  "draw_planted nx 0 g = Some ([], g)"
| "draw_planted nx (Suc n) g = Option.bind (choice nx [True, False] g) (\<lambda>(b, g1).
     map_option (\<lambda>(bs, g2). (b # bs, g2)) (draw_planted nx n g1))"

text \<open>The literal of variable \<open>v\<close> with a given sign; the planted value of \<open>v\<close> is at position \<open>v - 1\<close>.\<close>

definition signed_lit :: "int \<Rightarrow> bool \<Rightarrow> int" where
  "signed_lit v b = (if b then v else - v)"

definition planted_value :: "bool list \<Rightarrow> int \<Rightarrow> bool" where
  "planted_value planted v = planted ! nat (v - 1)"

fun draw_clause :: "('g \<Rightarrow> 32 word \<times> 'g) \<Rightarrow> bool list \<Rightarrow> int \<Rightarrow> int list \<Rightarrow> 'g \<Rightarrow> (int list \<times> 'g) option" where
  "draw_clause nx planted true_var [] g = Some ([], g)"
| "draw_clause nx planted true_var (v # vs) g =
     (if v = true_var
      then map_option (\<lambda>(c, g1). (signed_lit v (planted_value planted v) # c, g1)) (draw_clause nx planted true_var vs g)
      else Option.bind (choice nx [True, False] g) (\<lambda>(b, g1).
        map_option (\<lambda>(c, g2). (signed_lit v b # c, g2)) (draw_clause nx planted true_var vs g1)))"

fun draw_clauses :: "('g \<Rightarrow> 32 word \<times> 'g) \<Rightarrow> bool list \<Rightarrow> nat \<Rightarrow> 'g \<Rightarrow> int list list option" where
  "draw_clauses nx planted 0 g = Some []"
| "draw_clauses nx planted (Suc n) g =
     Option.bind (sample_pool nx 3 [1..8] g) (\<lambda>(vs, g1).
     Option.bind (choice nx vs g1) (\<lambda>(true_var, g2).
     Option.bind (draw_clause nx planted true_var vs g2) (\<lambda>(c, g3).
       map_option (Cons c) (draw_clauses nx planted n g3))))"

definition canonical_instance :: "'g random_source \<Rightarrow> int \<Rightarrow> SatInstance option" where
  "canonical_instance rnd seed = Option.bind (draw_planted (rs_next rnd) 8 (rs_seed rnd seed)) (\<lambda>(planted, g).
     map_option (\<lambda>cs. \<lparr>n_vars = 8, clauses = cs\<rparr>) (draw_clauses (rs_next rnd) planted 20 g))"

definition derived_work_units_for :: "'g random_source \<Rightarrow> SatInstance \<Rightarrow> int \<Rightarrow> rat option" where
  "derived_work_units_for rnd i seed = map_option
     (\<lambda>c. if i = c then of_nat (length (clauses i)) else CUSTOMER_SAT_WORK_UNITS) (canonical_instance rnd seed)"

definition derived_work_units :: "'g random_source \<Rightarrow> SatWorkItem \<Rightarrow> rat option" where
  "derived_work_units rnd w = derived_work_units_for rnd (wi_instance w) (wi_seed w)"

section \<open>The lane\<close>

record sat_lane =
  sl_queue :: "SatWorkItem list"
  sl_namespace :: string
  sl_seed_counter :: nat
  sl_issued_ids :: "string set"
  sl_customer_ids :: "string set"
  sl_challenge_owner :: "string \<rightharpoonup> string"
  sl_verified_credits :: "string \<rightharpoonup> rat"

text \<open>A lane without a given namespace draws a random one; it is the argument here.\<close>

definition new_lane :: "string \<Rightarrow> sat_lane" where
  "new_lane namespace = \<lparr>sl_queue = [], sl_namespace = namespace, sl_seed_counter = 0, sl_issued_ids = {},
     sl_customer_ids = {}, sl_challenge_owner = Map.empty, sl_verified_credits = Map.empty\<rparr>"

text \<open>What a worker's tier gives; \<open>gpu_score_eligible\<close> is the answer of the GPU gate of \<^verbatim>\<open>cathedral/gpu.py\<close>.\<close>

definition qualify :: "bool \<Rightarrow> Tier \<Rightarrow> bool" where
  "qualify gpu_score_eligible t =
     (if t \<in> QUALIFIED_TIERS then True else if t = CC_GPU then gpu_score_eligible else False)"

definition enqueue :: "SatWorkItem \<Rightarrow> sat_lane \<Rightarrow> exn + sat_lane" where
  "enqueue w st = (case validate_sat_work_item w of
      Inl (ValueError m) \<Rightarrow> Inl (ValueError (''enqueue: '' @ m))
    | Inl e \<Rightarrow> Inl e
    | Inr _ \<Rightarrow> Inr (st\<lparr>sl_customer_ids := insert (wi_challenge_id w) (sl_customer_ids st), sl_queue := sl_queue st @ [w]\<rparr>))"

definition issue :: "string \<Rightarrow> string \<Rightarrow> sat_lane \<Rightarrow> sat_lane" where
  "issue cid miner st = st\<lparr>sl_issued_ids := insert cid (sl_issued_ids st),
     sl_challenge_owner := (sl_challenge_owner st)(cid \<mapsto> miner)\<rparr>"

definition dispatch :: "'g random_source \<Rightarrow> string \<Rightarrow> sat_lane \<Rightarrow> (SatWorkItem \<times> sat_lane) option" where
  "dispatch rnd miner st = (case sl_queue st of
      w # q \<Rightarrow> Some (w, issue (wi_challenge_id w) miner (st\<lparr>sl_queue := q\<rparr>))
    | [] \<Rightarrow> let seed = derive_canonical_seed (sl_namespace st) (sl_seed_counter st) in
        map_option (\<lambda>i. let cid = compute_challenge_id i seed in
            (\<lparr>wi_instance = i, wi_seed = seed, wi_challenge_id = cid\<rparr>,
             issue cid miner (st\<lparr>sl_seed_counter := Suc (sl_seed_counter st)\<rparr>)))
          (canonical_instance rnd seed))"

text \<open>The outer \<open>None\<close>: the work-unit rule does not return; the inner: the result is refused.\<close>

definition verify ::
  "'g random_source \<Rightarrow> SatWorkItem \<Rightarrow> SatCertificate option \<Rightarrow> sat_lane \<Rightarrow> (SatCertificate option \<times> sat_lane) option" where
  "verify rnd w result st = (case result of
      None \<Rightarrow> Some (None, st)
    | Some r \<Rightarrow>
        if ct_challenge_id r \<noteq> wi_challenge_id w then Some (None, st)
        else if ct_challenge_id r \<notin> sl_issued_ids st then Some (None, st)
        else if sl_verified_credits st (ct_challenge_id r) \<noteq> None then Some (None, st)
        else if ct_assigned_hotkey r = [] \<or> Some (ct_assigned_hotkey r) \<noteq> sl_challenge_owner st (ct_challenge_id r)
        then Some (None, st)
        else map_option (\<lambda>units.
          if units < 0 then (None, st)
          else if ct_satisfiable r then
            (case ct_assignment r of
               None \<Rightarrow> (None, st)
             | Some asg \<Rightarrow>
                 if \<not> assignment_ok (wi_instance w) asg then (None, st)
                 else (Some \<lparr>ct_satisfiable = True, ct_assignment = Some asg, ct_work_units = units,
                         ct_challenge_id = ct_challenge_id r, ct_assigned_hotkey = ct_assigned_hotkey r\<rparr>,
                       st\<lparr>sl_verified_credits := (sl_verified_credits st)(ct_challenge_id r \<mapsto> units)\<rparr>))
          else (None, st)) (derived_work_units rnd w))"

fun score_from :: "sat_lane \<Rightarrow> string \<Rightarrow> string set \<Rightarrow> rat \<Rightarrow> string list \<Rightarrow> rat" where
  "score_from st miner seen acc [] = acc"
| "score_from st miner seen acc (cid # cids) = (case sl_verified_credits st cid of
      Some u \<Rightarrow> if cid \<notin> seen \<and> sl_challenge_owner st cid = Some miner
        then score_from st miner (insert cid seen) (acc + u) cids
        else score_from st miner seen acc cids
    | None \<Rightarrow> score_from st miner seen acc cids)"

definition score :: "string \<Rightarrow> SatCertificate list \<Rightarrow> sat_lane \<Rightarrow> rat" where
  "score miner certs st = score_from st miner {} 0 (map ct_challenge_id certs)"

section \<open>The challenge id\<close>

lemma list_tail_inject:
  assumes "delimited f"
  shows "list_tail f xs @ r = list_tail f ys @ s \<Longrightarrow> xs = ys \<and> r = s"
proof (induction xs arbitrary: ys)
  case Nil
  then show ?case by (cases ys) auto
next
  case (Cons x xs)
  then obtain y ys' where ys: "ys = y # ys'" by (cases ys) auto
  have st: "\<exists>c r'. c \<in> set '',]}'' \<and> list_tail f zs @ q = c # r'" for zs q by (cases zs) auto
  from Cons.prems have "f x @ list_tail f xs @ r = f y @ list_tail f ys' @ s" by (simp add: ys)
  then have "x = y \<and> list_tail f xs @ r = list_tail f ys' @ s"
    using assms st [of xs r] st [of ys' s] unfolding delimited_def by metis
  with Cons.IH show ?case by (simp add: ys)
qed

lemma list_text_inject:
  assumes "delimited f" "\<forall>x. \<exists>c r. f x = c # r \<and> c \<noteq> CHR '']''" "list_text f xs @ r = list_text f ys @ s"
  shows "xs = ys \<and> r = s"
proof -
  have first: "f x @ t \<noteq> CHR '']'' # q" for x t q using assms(2) by (metis append_Cons list.inject)
  have st: "\<exists>c r'. c \<in> set '',]}'' \<and> list_tail f zs @ q = c # r'" for zs q by (cases zs) auto
  show ?thesis
  proof (cases xs)
    case Nil
    then show ?thesis using assms(3) first [of _ _ r, symmetric] by (cases ys) auto
  next
    case (Cons x xs')
    then obtain y ys' where ys: "ys = y # ys'" using assms(3) first by (cases ys) auto
    have "f x @ list_tail f xs' @ r = f y @ list_tail f ys' @ s" using assms(3) by (simp add: Cons ys)
    then have "x = y \<and> list_tail f xs' @ r = list_tail f ys' @ s"
      using assms(1) st [of xs' r] st [of ys' s] unfolding delimited_def by metis
    then show ?thesis using list_tail_inject [OF assms(1)] Cons ys by blast
  qed
qed

lemma show_int_starts: "\<exists>c r. show_int i = c # r \<and> c \<noteq> CHR '']''"
proof -
  have "show_int i \<noteq> []" using show_nat_digits by (simp add: show_int_def)
  then obtain c r where "show_int i = c # r" by (cases "show_int i") auto
  moreover from this have "c \<noteq> CHR '']''" using show_int_chars [of c i] delimiter_not_digit(3) by auto
  ultimately show ?thesis by blast
qed

lemma delimited_ints: "delimited (list_text show_int)"
  unfolding delimited_def using list_text_inject [OF delimited_int] show_int_starts by blast

lemma list_text_starts: "\<exists>c r. list_text f xs = c # r \<and> c \<noteq> CHR '']''"
  by (cases xs) auto

lemma challenge_text_inject:
  assumes "challenge_text i s = challenge_text j t"
  shows "i = j \<and> s = t"
proof -
  let ?n = "\<lambda>i s. '', '' @ quoted ''n_vars'' @ '': '' @ show_int (n_vars i) @ '', '' @ quoted ''seed'' @ '': '' @ show_int s @ ''}''"
  have "list_text (list_text show_int) (clauses i) @ ?n i s = list_text (list_text show_int) (clauses j) @ ?n j t"
    using assms unfolding challenge_text_def by (simp only: same_append_eq)
  moreover have "\<forall>xs :: int list. \<exists>c r. list_text show_int xs = c # r \<and> c \<noteq> CHR '']''"
    using list_text_starts by blast
  ultimately have l: "clauses i = clauses j \<and> ?n i s = ?n j t"
    by (intro list_text_inject [OF delimited_ints])
  then have c: "clauses i = clauses j" by blast
  from l have "show_int (n_vars i) @ CHR '','' # '' '' @ quoted ''seed'' @ '': '' @ show_int s @ ''}'' =
      show_int (n_vars j) @ CHR '','' # '' '' @ quoted ''seed'' @ '': '' @ show_int t @ ''}''"
    by (simp add: quoted_def)
  then have "n_vars i = n_vars j \<and> CHR '','' # '' '' @ quoted ''seed'' @ '': '' @ show_int s @ ''}'' =
      CHR '','' # '' '' @ quoted ''seed'' @ '': '' @ show_int t @ ''}''"
    by (rule delimitedD [OF delimited_int, rotated 2]) simp_all
  then have n: "n_vars i = n_vars j" and "show_int s = show_int t"
    by (simp_all add: quoted_def)
  then have "s = t" using show_int_inject by simp
  with c n show ?thesis by (cases i, cases j) simp
qed

text \<open>
  A challenge id names one challenge.  Two challenges with the same id have the same number of
  variables, the same clauses and the same seed, unless SHA-256 collides on their two texts.
\<close>

lemma challenge_id_binds:
  "compute_challenge_id i s = compute_challenge_id j t \<longleftrightarrow>
     i = j \<and> s = t \<or>
     challenge_text i s \<noteq> challenge_text j t \<and> sha256 (ascii (challenge_text i s)) = sha256 (ascii (challenge_text j t))"
  using challenge_text_inject [of i s j t] by (auto simp: compute_challenge_id_def)

section \<open>Canonical instances\<close>

lemma draw_planted_length: "draw_planted nx n g = Some (bs, g') \<Longrightarrow> length bs = n"
  by (induction n arbitrary: g bs g') (auto split: bind_splits)

lemma draw_clause_props:
  "draw_clause nx planted tv vs g = Some (c, g') \<Longrightarrow>
     map abs c = map abs vs \<and> (tv \<in> set vs \<longrightarrow> signed_lit tv (planted_value planted tv) \<in> set c)"
proof (induction vs arbitrary: g c g')
  case (Cons v vs)
  then show ?case by (auto simp: signed_lit_def split: if_splits bind_splits)
qed simp

lemma sampled_vars:
  assumes "sample_pool nx 3 [1..8] g = Some (vs, g')"
  shows "length vs = 3" "distinct vs" "set vs \<subseteq> {1..8}"
proof -
  have s: "length vs = 3 \<and> mset vs \<subseteq># mset ([1..8] :: int list)" by (rule sample_pool_sub [OF assms])
  then show "length vs = 3" by blast
  have "set_mset (mset vs) \<subseteq> set_mset (mset ([1..8] :: int list))" using s by (intro set_mset_mono) blast
  then show "set vs \<subseteq> {1..8}" by simp
  have "distinct ([1..8] :: int list)" by simp
  then have "count (mset ([1..8] :: int list)) x \<le> 1" for x by (simp only: distinct_count_atmost_1) simp
  then have "count (mset vs) x \<le> 1" for x using s by (meson mset_subset_eq_count order_trans)
  moreover have "x \<in> set vs \<Longrightarrow> 1 \<le> count (mset vs) x" for x by (simp add: Suc_le_eq)
  ultimately show "distinct vs" by (auto simp: distinct_count_atmost_1 intro!: antisym)
qed

lemma draw_clauses_props:
  "draw_clauses nx planted n g = Some cs \<Longrightarrow> length cs = n \<and>
     (\<forall>c \<in> set cs. length c = 3 \<and> distinct (map abs c) \<and> abs ` set c \<subseteq> {1..8} \<and>
        (\<exists>l \<in> set c. l > 0 \<longleftrightarrow> planted_value planted \<bar>l\<bar>))"
proof (induction n arbitrary: g cs)
  case (Suc n)
  then obtain vs g1 tv g2 c g3 cs' where
    vs: "sample_pool nx 3 [1..8] g = Some (vs, g1)" and tv: "choice nx vs g1 = Some (tv, g2)"
    and c: "draw_clause nx planted tv vs g2 = Some (c, g3)" and cs: "draw_clauses nx planted n g3 = Some cs'" "cs = c # cs'"
    by (auto simp: bind_eq_Some_conv)
  note v = sampled_vars [OF vs] and t = choice_mem [OF tv] and d = draw_clause_props [OF c]
  have abs: "map abs vs = vs" using v(3) by (intro map_idI) auto
  then have m: "map abs c = vs" using d by simp
  have "length c = 3" using m v(1) by (metis length_map)
  moreover have "distinct (map abs c)" using m v(2) by simp
  moreover have "abs ` set c = set vs" using m by (metis set_map)
  moreover have "signed_lit tv (planted_value planted tv) \<in> set c" using d t by blast
  moreover have "1 \<le> tv" using t v(3) by auto
  then have "(signed_lit tv (planted_value planted tv) > 0) = planted_value planted \<bar>signed_lit tv (planted_value planted tv)\<bar>"
    by (simp add: signed_lit_def)
  ultimately show ?case using Suc.IH [OF cs(1)] v(3) cs(2) by auto
qed simp

lemma canonical_facts:
  assumes "canonical_instance rnd seed = Some i"
  shows "n_vars i = 8" "length (clauses i) = 20" "validate_sat_instance i = Inr ()" "\<exists>A. models A (clauses i)"
proof -
  obtain planted g cs where p: "draw_clauses (rs_next rnd) planted 20 g = Some cs" and i: "i = \<lparr>n_vars = 8, clauses = cs\<rparr>"
    using assms by (auto simp: canonical_instance_def bind_eq_Some_conv)
  note d = draw_clauses_props [OF p]
  have "validate_clauses 8 k cs' = Inr ()" if "k + 3 * length cs' \<le> 60" "set cs' \<subseteq> set cs" for k cs'
    using that
  proof (induction cs' arbitrary: k)
    case (Cons c cs')
    then have c: "length c = 3" "abs ` set c \<subseteq> {1..8}" using d by auto
    then have "\<not> list_ex (\<lambda>l. l = 0 \<or> \<bar>l\<bar> > 8) c" by (fastforce simp: list_ex_iff)
    with c Cons show ?case by (simp add: MAX_LITERALS_def MAX_LITERALS_PER_CLAUSE_def)
  qed simp
  from this [of 0 cs] d show "validate_sat_instance i = Inr ()"
    by (auto simp: validate_sat_instance_def i MAX_N_VARS_def MAX_CLAUSES_def)
  have "models (planted_value planted) (clauses i)" using d by (fastforce simp: models_def i)
  then show "\<exists>A. models A (clauses i)" by blast
  show "n_vars i = 8" "length (clauses i) = 20" using d by (simp_all add: i)
qed

lemma satisfiable_solved:
  assumes "validate_sat_instance i = Inr ()" "models A (clauses i)"
  shows "\<exists>asg. solve_sat i = Some asg \<and> assignment_ok i asg"
proof -
  have "solve_sat i \<noteq> None"
    using backtrack_complete [OF _ assms(2), of Map.empty] by (simp add: solve_sat_def extends_def)
  then show ?thesis using backtrack_assignment_ok [OF assms(1)] by blast
qed

text \<open>
  Canonical work always has a certificate.  Whatever the random source draws, a canonical instance
  that is produced has 8 variables and 20 clauses, passes the lane's own validation, and is satisfied
  by the planted assignment, so that the solver finds a certificate for it.
\<close>

lemma canonical_solvable:
  assumes "canonical_instance rnd seed = Some i"
  shows "n_vars i = 8 \<and> length (clauses i) = 20 \<and> validate_sat_instance i = Inr () \<and>
    (\<exists>asg. solve_sat i = Some asg \<and> assignment_ok i asg)"
  using canonical_facts [OF assms] satisfiable_solved by blast

text \<open>A source whose words are all zero.\<close>

definition zeros :: "unit random_source" where
  "zeros = \<lparr>rs_seed = (\<lambda>_. ()), rs_next = (\<lambda>g. (0, g))\<rparr>"

lemma zeros_below: "0 < n \<Longrightarrow> randbelow (rs_next zeros) n g = Some (0, g)"
  by (simp add: randbelow_def randbelow_loop.simps getrandbits_def zeros_def)

definition zeros_instance :: SatInstance where
  "zeros_instance = \<lparr>n_vars = 8, clauses = replicate 20 [1, 8, 7]\<rparr>"

lemma zeros_canonical: "canonical_instance zeros seed = Some zeros_instance"
proof -
  let ?nx = "rs_next zeros"
  have ch': "choice ?nx (x # xs) g = Some (x, g)" for x :: int and xs g
    using zeros_below [of "Suc (length xs)"] by (simp add: choice_def)
  have chb: "choice ?nx [True, False] g = Some (True, g)" for g
    using zeros_below [of "Suc (Suc 0)"] by (simp add: choice_def)
  have pl: "draw_planted ?nx n g = Some (replicate n True, g)" for n g
    by (induction n) (simp_all add: chb)
  have pool: "sample_pool ?nx 3 [1..8] g = Some ([1, 8, 7 :: int], g)" for g
    by (simp add: numeral_3_eq_3 zeros_below upto.simps)
  have cl: "draw_clause ?nx (replicate 8 True) 1 [1, 8, 7] g = Some ([1, 8, 7], g)" for g
    by (simp add: chb signed_lit_def planted_value_def)
  have "draw_clauses ?nx (replicate 8 True) n g = Some (replicate n [1, 8, 7])" for n g
    by (induction n arbitrary: g) (simp_all add: pool ch' cl del: draw_clause.simps)
  then show ?thesis by (simp add: canonical_instance_def pl zeros_instance_def)
qed

lemma canonical_solvable_witness:
  "canonical_instance zeros 0 = Some zeros_instance \<and> validate_sat_instance zeros_instance = Inr () \<and>
   (\<exists>asg. solve_sat zeros_instance = Some asg \<and> assignment_ok zeros_instance asg)"
  using canonical_solvable [OF zeros_canonical] zeros_canonical by blast

section \<open>Verification and credit\<close>

lemma verify_Some:
  assumes "verify rnd w (Some r) st = Some (Some c, st')"
  shows "\<exists>u asg. ct_challenge_id r = wi_challenge_id w \<and> wi_challenge_id w \<in> sl_issued_ids st \<and>
    sl_verified_credits st (wi_challenge_id w) = None \<and> ct_assigned_hotkey r \<noteq> [] \<and>
    sl_challenge_owner st (wi_challenge_id w) = Some (ct_assigned_hotkey r) \<and>
    derived_work_units rnd w = Some u \<and> ct_assignment r = Some asg \<and> assignment_ok (wi_instance w) asg \<and>
    c = \<lparr>ct_satisfiable = True, ct_assignment = Some asg, ct_work_units = u,
      ct_challenge_id = wi_challenge_id w, ct_assigned_hotkey = ct_assigned_hotkey r\<rparr> \<and>
    st' = st\<lparr>sl_verified_credits := (sl_verified_credits st)(wi_challenge_id w \<mapsto> u)\<rparr>"
  using assms by (auto simp: verify_def split: if_splits option.splits)

text \<open>
  C14: credit is earned.  When a certificate is accepted, it carries an assignment under which every clause of
  the item's instance holds; the challenge had been issued to that very hotkey and had no credit
  yet; and the credit recorded and returned is the lane's own figure, not the miner's claim.
\<close>

theorem verify_sound:
  assumes "verify rnd w (Some r) st = Some (Some c, st')"
  shows "\<exists>asg. ct_assignment c = Some asg \<and> models (\<lambda>v. v \<in> set asg) (clauses (wi_instance w)) \<and>
    wi_challenge_id w \<in> sl_issued_ids st \<and> sl_challenge_owner st (wi_challenge_id w) = Some (ct_assigned_hotkey c) \<and>
    ct_assigned_hotkey c \<noteq> [] \<and> sl_verified_credits st (wi_challenge_id w) = None \<and>
    derived_work_units rnd w = Some (ct_work_units c) \<and>
    st' = st\<lparr>sl_verified_credits := (sl_verified_credits st)(wi_challenge_id w \<mapsto> ct_work_units c)\<rparr>"
  using verify_Some [OF assms] assignment_models by fastforce

text \<open>
  C34: honest work is credited.  A satisfiable validated item that was issued to a hotkey and has no credit
  yet is solved by the bundled solver, and the certificate built from its answer is accepted.
\<close>

theorem solved_work_accepted:
  assumes "validate_sat_instance (wi_instance w) = Inr ()" "models A (clauses (wi_instance w))"
    and "wi_challenge_id w \<in> sl_issued_ids st" "sl_challenge_owner st (wi_challenge_id w) = Some hk" "hk \<noteq> []"
    and "sl_verified_credits st (wi_challenge_id w) = None" "derived_work_units rnd w = Some u"
  shows "\<exists>asg c st'. solve_sat (wi_instance w) = Some asg \<and>
    verify rnd w (Some \<lparr>ct_satisfiable = True, ct_assignment = Some asg, ct_work_units = claimed,
      ct_challenge_id = wi_challenge_id w, ct_assigned_hotkey = hk\<rparr>) st = Some (Some c, st') \<and>
    sl_verified_credits st' (wi_challenge_id w) = Some u"
proof -
  obtain asg where s: "solve_sat (wi_instance w) = Some asg" "assignment_ok (wi_instance w) asg"
    using satisfiable_solved [OF assms(1,2)] by blast
  have "0 \<le> u" using assms(7)
    by (auto simp: derived_work_units_def derived_work_units_for_def CUSTOMER_SAT_WORK_UNITS_def)
  with assms(3-) s show ?thesis by (simp add: verify_def)
qed

lemma score_from_sum:
  "finite seen \<Longrightarrow> score_from st m seen acc cids =
     acc + (\<Sum>cid \<in> {cid \<in> set cids. sl_challenge_owner st cid = Some m \<and> sl_verified_credits st cid \<noteq> None} - seen.
        the (sl_verified_credits st cid))"
proof (induction cids arbitrary: seen acc)
  case (Cons c cids)
  let ?S = "\<lambda>cs. {cid \<in> set cs. sl_challenge_owner st cid = Some m \<and> sl_verified_credits st cid \<noteq> None}"
  show ?case
  proof (cases "c \<notin> seen \<and> sl_challenge_owner st c = Some m \<and> sl_verified_credits st c \<noteq> None")
    case True
    then obtain u where u: "sl_verified_credits st c = Some u" by blast
    have "?S (c # cids) - seen = insert c (?S cids - insert c seen)" using True by auto
    then show ?thesis using Cons True u by (simp add: add.assoc)
  next
    case False
    then have "?S (c # cids) - seen = ?S cids - seen" by auto
    then show ?thesis using Cons False by (auto split: option.split)
  qed
qed simp

text \<open>
  A score counts every verified challenge once.  For any list of certificates, with any repetitions,
  unknown challenge ids and forged work units, a miner's score is the sum of the recorded credits of
  the distinct challenges that are listed, verified and owned by that miner.
\<close>

lemma score_exact:
  "score m certs st = (\<Sum>cid \<in> {cid \<in> ct_challenge_id ` set certs.
       sl_challenge_owner st cid = Some m \<and> sl_verified_credits st cid \<noteq> None}.
     the (sl_verified_credits st cid))"
  by (simp add: score_def score_from_sum)

section \<open>Runs of the lane\<close>

inductive lane_step :: "'g random_source \<Rightarrow> sat_lane \<Rightarrow> sat_lane \<Rightarrow> bool" for rnd :: "'g random_source" where
  ls_enqueue: "enqueue w st = Inr st' \<Longrightarrow> lane_step rnd st st'"
| ls_dispatch: "dispatch rnd miner st = Some (w, st') \<Longrightarrow> lane_step rnd st st'"
| ls_verify: "verify rnd w r st = Some (c, st') \<Longrightarrow> lane_step rnd st st'"

definition lane_start :: "sat_lane \<Rightarrow> bool" where
  "lane_start st = (\<exists>ns. st = new_lane ns)"

definition lane_inv :: "sat_lane \<Rightarrow> bool" where
  "lane_inv st = (dom (sl_verified_credits st) \<subseteq> sl_issued_ids st \<and> sl_issued_ids st = dom (sl_challenge_owner st))"

lemma verify_cases:
  assumes "verify rnd w r st = Some (c, st')"
  shows "st' = st \<or> (\<exists>u. st' = st\<lparr>sl_verified_credits := (sl_verified_credits st)(wi_challenge_id w \<mapsto> u)\<rparr> \<and>
    wi_challenge_id w \<in> sl_issued_ids st \<and> sl_verified_credits st (wi_challenge_id w) = None)"
proof (cases c)
  case None
  with assms show ?thesis by (auto simp: verify_def split: if_splits option.splits)
next
  case (Some c')
  then obtain r' where "r = Some r'" using assms by (cases r) (auto simp: verify_def)
  then show ?thesis using verify_Some [of rnd w r' st c' st'] assms Some by auto
qed

lemma enqueue_fields:
  assumes "enqueue w st = Inr st'"
  shows "sl_verified_credits st' = sl_verified_credits st" "sl_issued_ids st' = sl_issued_ids st"
    "sl_challenge_owner st' = sl_challenge_owner st"
  using assms by (auto simp: enqueue_def split: sum.splits exn.splits)

lemma dispatch_fields:
  assumes "dispatch rnd miner st = Some (w, st')"
  shows "sl_verified_credits st' = sl_verified_credits st"
    "sl_issued_ids st' = insert (wi_challenge_id w) (sl_issued_ids st)"
    "sl_challenge_owner st' = (sl_challenge_owner st)(wi_challenge_id w \<mapsto> miner)"
  using assms by (auto simp: dispatch_def issue_def Let_def split: list.splits)

lemma lane_step_inv: "lane_step rnd st st' \<Longrightarrow> lane_inv st \<Longrightarrow> lane_inv st'"
proof (induction rule: lane_step.induct)
  case (ls_verify w r st c st')
  from verify_cases [OF ls_verify.hyps] show ?case
  proof (elim disjE exE conjE)
    fix u assume "st' = st\<lparr>sl_verified_credits := (sl_verified_credits st)(wi_challenge_id w \<mapsto> u)\<rparr>"
      "wi_challenge_id w \<in> sl_issued_ids st"
    then have "dom (sl_verified_credits st') \<subseteq> insert (wi_challenge_id w) (dom (sl_verified_credits st))"
      "sl_issued_ids st' = sl_issued_ids st" "sl_challenge_owner st' = sl_challenge_owner st" by auto
    with \<open>wi_challenge_id w \<in> sl_issued_ids st\<close> ls_verify.prems show "lane_inv st'"
      unfolding lane_inv_def by (metis insert_subset subset_trans)
  qed (use ls_verify.prems in simp)
qed (auto simp: lane_inv_def enqueue_fields dispatch_fields)

lemma lane_step_credits: "lane_step rnd st st' \<Longrightarrow> sl_verified_credits st \<subseteq>\<^sub>m sl_verified_credits st'"
proof (induction rule: lane_step.induct)
  case (ls_verify w r st c st')
  then show ?case using verify_cases [OF ls_verify.hyps] by (auto simp: map_le_def dom_def)
qed (auto simp: enqueue_fields dispatch_fields map_le_def)

interpretation lane_run: invariant_system lane_start "lane_step rnd" lane_inv for rnd
proof
  show "lane_inv s" if "lane_start s" for s using that by (auto simp: lane_start_def new_lane_def lane_inv_def)
  show "lane_inv t" if "lane_inv s" "lane_step rnd s t" for s t by (rule lane_step_inv [OF that(2,1)])
qed

lemma lane_run_credits: "(lane_step rnd)\<^sup>*\<^sup>* st st' \<Longrightarrow> sl_verified_credits st \<subseteq>\<^sub>m sl_verified_credits st'"
  by (induction rule: rtranclp_induct) (auto intro: map_le_trans lane_step_credits)

text \<open>
  C29: a challenge is credited at most once.  In every run of a lane a credited challenge had been
  issued; through any further steps its credit stays what it was, and every later result for it
  is refused without changing the lane.
\<close>

theorem credited_once:
  assumes "reach lane_start (lane_step rnd) st" "sl_verified_credits st cid = Some u"
    and "(lane_step rnd)\<^sup>*\<^sup>* st st'" "wi_challenge_id w = cid"
  shows "cid \<in> sl_issued_ids st \<and> sl_verified_credits st' cid = Some u \<and> verify rnd w r st' = Some (None, st')"
proof -
  have "lane_inv st" by (rule lane_run.reach_inv [OF assms(1)])
  then have "cid \<in> sl_issued_ids st" using assms(2) by (auto simp: lane_inv_def)
  moreover have c: "sl_verified_credits st' cid = Some u"
    using lane_run_credits [OF assms(3)] assms(2) by (auto simp: map_le_def dom_def)
  ultimately show ?thesis using assms(4) by (auto simp: verify_def split: option.split)
qed

text \<open>
  C38: a second dispatch moves a credit.  The owner of a challenge is whoever it was dispatched to last, also
  after it was credited: when a credited customer job is still queued and is dispatched to another miner, the
  whole credit counts for that miner and the miner that solved it scores nothing for it.
\<close>

theorem redispatch_moves_credit:
  assumes "verify rnd w (Some r) st = Some (Some c, st1)" "dispatch rnd other st1 = Some (w, st2)"
    and "other \<noteq> ct_assigned_hotkey c"
  shows "score other [c] st2 = ct_work_units c \<and> score (ct_assigned_hotkey c) [c] st2 = 0"
proof -
  obtain u asg where v: "c = \<lparr>ct_satisfiable = True, ct_assignment = Some asg, ct_work_units = u,
      ct_challenge_id = wi_challenge_id w, ct_assigned_hotkey = ct_assigned_hotkey r\<rparr>"
    "st1 = st\<lparr>sl_verified_credits := (sl_verified_credits st)(wi_challenge_id w \<mapsto> u)\<rparr>"
    using verify_Some [OF assms(1)] by blast
  show ?thesis using dispatch_fields [OF assms(2)] assms(3) by (simp add: score_def v)
qed

section \<open>A concrete run\<close>

definition sample_item :: SatWorkItem where
  "sample_item = (let s = derive_canonical_seed ''ns'' 0 in
     \<lparr>wi_instance = zeros_instance, wi_seed = s, wi_challenge_id = compute_challenge_id zeros_instance s\<rparr>)"

definition sample_lane :: sat_lane where
  "sample_lane = issue (wi_challenge_id sample_item) ''alice'' ((new_lane ''ns'')\<lparr>sl_seed_counter := 1\<rparr>)"

lemma sample_dispatch: "dispatch zeros ''alice'' (new_lane ''ns'') = Some (sample_item, sample_lane)"
  by (simp add: dispatch_def new_lane_def zeros_canonical sample_item_def sample_lane_def Let_def)

lemma sample_lane_fields:
  "wi_challenge_id sample_item \<in> sl_issued_ids sample_lane"
  "sl_challenge_owner sample_lane (wi_challenge_id sample_item) = Some ''alice''"
  "sl_verified_credits sample_lane (wi_challenge_id sample_item) = None"
  by (simp_all add: sample_lane_def issue_def new_lane_def)

lemma sample_units: "derived_work_units zeros sample_item = Some 20"
  by (simp add: derived_work_units_def derived_work_units_for_def zeros_canonical sample_item_def zeros_instance_def Let_def)

lemma sample_item_instance: "wi_instance sample_item = zeros_instance"
  by (simp add: sample_item_def Let_def)

theorem solved_work_accepted_witness:
  "\<exists>asg c st'. solve_sat (wi_instance sample_item) = Some asg \<and>
    verify zeros sample_item (Some \<lparr>ct_satisfiable = True, ct_assignment = Some asg, ct_work_units = 1000,
      ct_challenge_id = wi_challenge_id sample_item, ct_assigned_hotkey = ''alice''\<rparr>) sample_lane = Some (Some c, st') \<and>
    sl_verified_credits st' (wi_challenge_id sample_item) = Some 20"
proof (rule solved_work_accepted)
  show "validate_sat_instance (wi_instance sample_item) = Inr ()"
    using canonical_facts(3) [OF zeros_canonical] by (simp add: sample_item_instance)
  show "models (\<lambda>_. True) (clauses (wi_instance sample_item))"
    by (simp add: models_def sample_item_instance zeros_instance_def)
qed (simp_all add: sample_lane_fields sample_units)

definition sample_certificate :: SatCertificate where
  "sample_certificate = \<lparr>ct_satisfiable = True, ct_assignment = Some [1, 2, 3, 4, 5, 6, 7, 8], ct_work_units = 0,
     ct_challenge_id = wi_challenge_id sample_item, ct_assigned_hotkey = ''alice''\<rparr>"

lemma sample_assignment: "assignment_ok zeros_instance [1, 2, 3, 4, 5, 6, 7, 8]"
  by (simp add: assignment_ok_def zeros_instance_def upto.simps list_all_iff)

lemma sample_verified: "\<exists>c st'. verify zeros sample_item (Some sample_certificate) sample_lane = Some (Some c, st')"
  using sample_lane_fields sample_assignment by (simp add: verify_def sample_units sample_item_instance sample_certificate_def)

theorem redispatch_moves_credit_witness:
  "\<exists>c st1 st2. verify zeros sample_item (Some sample_certificate) (sample_lane\<lparr>sl_queue := [sample_item]\<rparr>) = Some (Some c, st1) \<and>
     dispatch zeros ''bob'' st1 = Some (sample_item, st2) \<and> score ''bob'' [c] st2 = 20 \<and> score ''alice'' [c] st2 = 0"
proof -
  obtain c st1 where v: "verify zeros sample_item (Some sample_certificate) (sample_lane\<lparr>sl_queue := [sample_item]\<rparr>) = Some (Some c, st1)"
    and c: "ct_assigned_hotkey c = ''alice''" "ct_work_units c = 20" and q: "sl_queue st1 = [sample_item]"
    using sample_lane_fields sample_assignment by (simp add: verify_def sample_units sample_item_instance sample_certificate_def)
  from q obtain st2 where d: "dispatch zeros ''bob'' st1 = Some (sample_item, st2)" by (simp add: dispatch_def)
  from redispatch_moves_credit [OF v d] have "score ''bob'' [c] st2 = 20" "score ''alice'' [c] st2 = 0" by (simp_all add: c)
  with v d show ?thesis by blast
qed

theorem verify_sound_witness:
  "\<exists>c st' asg. verify zeros sample_item (Some sample_certificate) sample_lane = Some (Some c, st') \<and>
     ct_assignment c = Some asg \<and> models (\<lambda>v. v \<in> set asg) (clauses (wi_instance sample_item))"
  using sample_verified verify_sound by metis

theorem credited_once_witness:
  "\<exists>st u. reach lane_start (lane_step zeros) st \<and> sl_verified_credits st (wi_challenge_id sample_item) = Some u \<and>
     verify zeros sample_item None st = Some (None, st)"
proof -
  obtain c st' where v: "verify zeros sample_item (Some sample_certificate) sample_lane = Some (Some c, st')"
    using sample_verified by blast
  have "reach lane_start (lane_step zeros) (new_lane ''ns'')" by (rule reach_start) (auto simp: lane_start_def)
  then have "reach lane_start (lane_step zeros) sample_lane" by (rule reach_step) (rule ls_dispatch [OF sample_dispatch])
  then have r: "reach lane_start (lane_step zeros) st'" by (rule reach_step) (rule ls_verify [OF v])
  obtain u where u: "sl_verified_credits st' (wi_challenge_id sample_item) = Some u"
    using verify_Some [OF v] by auto
  from credited_once [OF r u rtranclp.rtrancl_refl refl, of None] r u show ?thesis by blast
qed

end
