(* ===== verification/CapChallenge.thy ===== *)
theory CapChallenge
  imports Sha2 Json
begin

text \<open>
  \<^verbatim>\<open>src/cathedral/capacity/challenge.py\<close>: the memory-hard capacity challenge.  A lane's buffer is
  the list of its 32-byte blocks.  The sampling loop ends: its counter is written in four bytes,
  and \<^verbatim>\<open>to_bytes\<close> raises when it no longer fits.
\<close>

section \<open>Parameters\<close>

definition DOMAIN :: bytes where "DOMAIN = ascii ''cathedral.capacity.challenge.v1'' @ [0]"
definition BLOCK_BYTES :: nat where "BLOCK_BYTES = 32"
definition MAX_LANES :: nat where "MAX_LANES = 1024"
definition MAX_BLOCKS :: nat where "MAX_BLOCKS = 2 ^ 28"
definition MAX_STEPS :: nat where "MAX_STEPS = 2 ^ 29"
definition MEMORY_NUMERATOR :: nat where "MEMORY_NUMERATOR = 4"
definition MEMORY_DENOMINATOR :: nat where "MEMORY_DENOMINATOR = 5"
definition STEPS_PER_BLOCK :: nat where "STEPS_PER_BLOCK = 2"
definition MIN_SAMPLES :: nat where "MIN_SAMPLES = 4"
definition MIN_LANE_BYTES :: nat where "MIN_LANE_BYTES = 512 * 2 ^ 20"
definition DEADLINE_STARTUP_MS :: nat where "DEADLINE_STARTUP_MS = 5000"
definition DEADLINE_NS_PER_STEP :: nat where "DEADLINE_NS_PER_STEP = 1000"
definition ASSUMED_NATIVE_NS_PER_STEP :: nat where "ASSUMED_NATIVE_NS_PER_STEP = 250"

lemmas challenge_params = BLOCK_BYTES_def MAX_LANES_def MAX_BLOCKS_def MAX_STEPS_def MEMORY_NUMERATOR_def
  MEMORY_DENOMINATOR_def STEPS_PER_BLOCK_def MIN_SAMPLES_def MIN_LANE_BYTES_def DEADLINE_STARTUP_MS_def
  DEADLINE_NS_PER_STEP_def

text \<open>\<open>ChallengeOverflow\<close> is the \<^verbatim>\<open>OverflowError\<close> of the sample counter, which no caller handles.\<close>

datatype ChallengeError = ChallengeError string | ChallengeOverflow

record ChallengeSpec =
  cs_seed :: bytes
  cs_lanes :: nat
  cs_blocks :: nat
  cs_steps :: nat

text \<open>The dataclass constructor, on values that may be anything JSON can hold.\<close>

definition bounded_int :: "string \<Rightarrow> nat \<Rightarrow> json \<Rightarrow> ChallengeError + nat" where
  "bounded_int name hi v = (case v of
      JInt i \<Rightarrow> if 1 \<le> i \<and> i \<le> int hi then Inr (nat i) else Inl (ChallengeError (name @ '' out of range''))
    | _ \<Rightarrow> Inl (ChallengeError (name @ '' must be an integer'')))"

definition make_spec :: "bytes \<Rightarrow> json \<Rightarrow> json \<Rightarrow> json \<Rightarrow> ChallengeError + ChallengeSpec" where
  "make_spec seed lanes blocks steps =
     (if length seed \<noteq> 32 then Inl (ChallengeError ''seed must be 32 bytes'')
      else bindE (bounded_int ''lanes'' MAX_LANES lanes) (\<lambda>l.
           bindE (bounded_int ''blocks'' MAX_BLOCKS blocks) (\<lambda>b.
           bindE (bounded_int ''steps'' MAX_STEPS steps) (\<lambda>s.
           Inr \<lparr>cs_seed = seed, cs_lanes = l, cs_blocks = b, cs_steps = s\<rparr>))))"

definition memory_bytes :: "ChallengeSpec \<Rightarrow> nat" where
  "memory_bytes sp = cs_lanes sp * cs_blocks sp * BLOCK_BYTES"

definition spec_to_json :: "ChallengeSpec \<Rightarrow> json" where
  "spec_to_json sp = JObj [(''seed'', JStr (hex_of (cs_seed sp))), (''lanes'', JInt (int (cs_lanes sp))),
     (''blocks'', JInt (int (cs_blocks sp))), (''steps'', JInt (int (cs_steps sp)))]"

text \<open>
  \<^verbatim>\<open>bytes.fromhex\<close> of a text without upper-case letters: white space is allowed between bytes.
\<close>

definition is_ascii_space :: "char \<Rightarrow> bool" where
  "is_ascii_space c = (let n = of_char c :: nat in (9 \<le> n \<and> n \<le> 13) \<or> n = 32)"

fun fromhex :: "string \<Rightarrow> bytes option" where
  "fromhex [] = Some []"
| "fromhex [c] = (if is_ascii_space c then Some [] else None)"
| "fromhex (c # d # r) =
     (if is_ascii_space c then fromhex (d # r)
      else case (hex_value c, hex_value d) of
        (Some h, Some l) \<Rightarrow> map_option (Cons (of_nat (16 * h + l))) (fromhex r)
      | _ \<Rightarrow> None)"

definition is_lowered :: "string \<Rightarrow> bool" where
  "is_lowered s = list_all (\<lambda>c. \<not> char_in_range 65 90 c \<and> \<not> (char_in_range 192 222 c \<and> of_char c \<noteq> (215 :: nat))) s"

definition spec_from_json :: "json \<Rightarrow> ChallengeError + ChallengeSpec" where
  "spec_from_json v = (case v of
      JObj kvs \<Rightarrow>
        if obj_keys kvs \<noteq> {''seed'', ''lanes'', ''blocks'', ''steps''}
        then Inl (ChallengeError ''challenge spec must have exactly seed, lanes, blocks, steps'')
        else (case obj_at kvs ''seed'' of
          JStr s \<Rightarrow>
            if length s \<noteq> 64 \<or> \<not> is_lowered s then Inl (ChallengeError ''seed must be 64 lowercase hex characters'')
            else (case fromhex s of
              None \<Rightarrow> Inl (ChallengeError ''seed must be 64 lowercase hex characters'')
            | Some raw \<Rightarrow> make_spec raw (obj_at kvs ''lanes'') (obj_at kvs ''blocks'') (obj_at kvs ''steps''))
        | _ \<Rightarrow> Inl (ChallengeError ''seed must be 64 lowercase hex characters''))
    | _ \<Rightarrow> Inl (ChallengeError ''challenge spec must have exactly seed, lanes, blocks, steps''))"

section \<open>The claim\<close>

definition per_lane_bytes :: "nat \<Rightarrow> nat \<Rightarrow> nat" where
  "per_lane_bytes vcpus memory_gib =
     memory_gib * 2 ^ 30 * MEMORY_NUMERATOR div (MEMORY_DENOMINATOR * vcpus)"

definition spec_for :: "bytes \<Rightarrow> int \<Rightarrow> int \<Rightarrow> ChallengeError + ChallengeSpec" where
  "spec_for seed vcpus memory_gib =
     (if vcpus < 1 then Inl (ChallengeError ''vcpus must be a positive integer'')
      else if memory_gib < 1 then Inl (ChallengeError ''memory_gib must be a positive integer'')
      else if vcpus > int MAX_LANES then Inl (ChallengeError ''a claim of more than 1024 vCPUs cannot be proven'')
      else let per_lane = per_lane_bytes (nat vcpus) (nat memory_gib) in
        if per_lane < MIN_LANE_BYTES then Inl (ChallengeError ''a claim needs at least 512 MiB of lane per vCPU'')
        else let blocks = per_lane div BLOCK_BYTES in
          if blocks > MAX_BLOCKS
          then Inl (ChallengeError ''the claimed memory per vCPU is outside what one lane can prove'')
          else make_spec seed (JInt vcpus) (JInt (int blocks)) (JInt (int (blocks * STEPS_PER_BLOCK))))"

definition provable_memory_gib :: "int \<Rightarrow> int \<Rightarrow> int" where
  "provable_memory_gib vcpus memory_gib = (let limit = int MAX_BLOCKS * int BLOCK_BYTES * vcpus * int MEMORY_DENOMINATOR
       div (int MEMORY_NUMERATOR * 2 ^ 30) in max 0 (min memory_gib limit))"

definition provable_vcpus :: "int \<Rightarrow> int \<Rightarrow> int" where
  "provable_vcpus vcpus memory_gib = (let limit = memory_gib * 2 ^ 30 * int MEMORY_NUMERATOR
       div (int MEMORY_DENOMINATOR * int MIN_LANE_BYTES) in max 0 (min vcpus (min (int MAX_LANES) limit)))"

definition required_samples :: "nat \<Rightarrow> ChallengeError + nat" where
  "required_samples lanes =
     (if \<not> (1 \<le> lanes \<and> lanes \<le> MAX_LANES) then Inl (ChallengeError ''lanes must be an integer from 1 to 1024'')
      else Inr (min lanes (max MIN_SAMPLES ((lanes + 1) div 2))))"

text \<open>\<^verbatim>\<open>math.ceil\<close> of a quotient whose fraction is a multiple of a thousandth: the division is exact enough.\<close>

definition max_deadline_ms :: "ChallengeSpec \<Rightarrow> nat" where
  "max_deadline_ms sp = DEADLINE_STARTUP_MS + (cs_steps sp * DEADLINE_NS_PER_STEP + 999999) div 1000000"

section \<open>Lanes\<close>

fun fill_blocks :: "nat \<Rightarrow> bytes \<Rightarrow> bytes list \<times> bytes" where
  "fill_blocks 0 x = ([], x)"
| "fill_blocks (Suc n) x = (let y = sha256 x; (bs, z) = fill_blocks n y in (y # bs, z))"

fun walk_steps :: "nat \<Rightarrow> nat \<Rightarrow> bytes list \<Rightarrow> bytes \<Rightarrow> bytes" where
  "walk_steps 0 blocks buf x = x"
| "walk_steps (Suc n) blocks buf x =
     (let j = nat_of_le (take 8 x) mod blocks; y = sha256 (x @ buf ! j) in walk_steps n blocks (buf[j := y]) y)"

definition lane_output :: "ChallengeSpec \<Rightarrow> nat \<Rightarrow> ChallengeError + bytes" where
  "lane_output sp lane =
     (if \<not> lane < cs_lanes sp then Inl (ChallengeError ''lane out of range'')
      else case fill_blocks (cs_blocks sp) (sha256 (DOMAIN @ cs_seed sp @ be_bytes 4 lane)) of
        (buf, x) \<Rightarrow> Inr (walk_steps (cs_steps sp) (cs_blocks sp) buf x))"

text \<open>The worker pool returns the lanes in order, so its size does not matter.\<close>

fun collect :: "('e + 'a) list \<Rightarrow> 'e + 'a list" where
  "collect [] = Inr []"
| "collect (r # rs) = bindE r (\<lambda>x. bindE (collect rs) (\<lambda>xs. Inr (x # xs)))"

definition run_lanes :: "ChallengeSpec \<Rightarrow> ChallengeError + bytes list" where
  "run_lanes sp = collect (map (lane_output sp) [0..<cs_lanes sp])"

definition check_outputs :: "ChallengeSpec \<Rightarrow> bytes list \<Rightarrow> ChallengeError + unit" where
  "check_outputs sp outputs = ensure (length outputs = cs_lanes sp \<and> list_all (\<lambda>o1. length o1 = 32) outputs)
     (ChallengeError ''outputs must be one 32-byte value per lane'')"

definition result_digest :: "ChallengeSpec \<Rightarrow> bytes list \<Rightarrow> ChallengeError + bytes" where
  "result_digest sp outputs = bindE (check_outputs sp outputs) (\<lambda>_.
     Inr (sha256 (DOMAIN @ (ascii ''result'' @ [0]) @ cs_seed sp @ concat outputs)))"

definition sample_block :: "bytes \<Rightarrow> bytes \<Rightarrow> nat \<Rightarrow> nat" where
  "sample_block digest nonce counter =
     nat_of_be (take 8 (sha256 (DOMAIN @ (ascii ''sample'' @ [0]) @ digest @ nonce @ be_bytes 4 counter)))"

function sample_loop :: "bytes \<Rightarrow> bytes \<Rightarrow> nat \<Rightarrow> nat \<Rightarrow> nat \<Rightarrow> nat set \<Rightarrow> ChallengeError + nat set" where
  "sample_loop digest nonce lanes target counter chosen =
     (if \<not> card chosen < target then Inr chosen
      else if \<not> counter < 2 ^ 32 then Inl ChallengeOverflow
      else sample_loop digest nonce lanes target (Suc counter)
        (insert (sample_block digest nonce counter mod lanes) chosen))"
  by pat_completeness auto
termination
  by (relation "measure (\<lambda>(d, n, l, t, counter, c). 2 ^ 32 - counter)") auto

declare sample_loop.simps [simp del]

definition sample_lanes :: "ChallengeSpec \<Rightarrow> bytes \<Rightarrow> bytes \<Rightarrow> int \<Rightarrow> ChallengeError + nat list" where
  "sample_lanes sp digest nonce count =
     (if count < 1 then Inl (ChallengeError ''sample count must be a positive integer'')
      else if length digest \<noteq> 32 then Inl (ChallengeError ''digest must be 32 bytes'')
      else if length nonce \<noteq> 32 then Inl (ChallengeError ''nonce must be 32 bytes'')
      else bindE (sample_loop digest nonce (cs_lanes sp) (min (nat count) (cs_lanes sp)) 0 {})
        (\<lambda>chosen. Inr (sorted_list_of_set chosen)))"

text \<open>
  \<^verbatim>\<open>verify\<close>: every \<^verbatim>\<open>ChallengeError\<close> is an answer of false; the final comparison stops at the
  first lane that differs.
\<close>

definition challenge_verify :: "ChallengeSpec \<Rightarrow> bytes list \<Rightarrow> bytes \<Rightarrow> int option \<Rightarrow> ChallengeError + bool" where
  "challenge_verify sp outputs nonce sample =
     (case bindE (required_samples (cs_lanes sp)) (\<lambda>need.
        let count = (case sample of None \<Rightarrow> int need | Some c \<Rightarrow> c) in
        if count < int need then Inr None
        else bindE (result_digest sp outputs) (\<lambda>d. bindE (sample_lanes sp d nonce count) (\<lambda>ls. Inr (Some ls)))) of
       Inl ChallengeOverflow \<Rightarrow> Inl ChallengeOverflow
     | Inl (ChallengeError _) \<Rightarrow> Inr False
     | Inr None \<Rightarrow> Inr False
     | Inr (Some ls) \<Rightarrow> Inr (list_all (\<lambda>lane. lane_output sp lane = Inr (outputs ! lane)) ls))"

section \<open>Sampling\<close>

lemma sample_loop_props:
  "sample_loop d n lanes target k chosen = Inr res \<Longrightarrow> 0 < lanes \<Longrightarrow> finite chosen \<Longrightarrow> chosen \<subseteq> {..<lanes} \<Longrightarrow>
     card chosen \<le> target \<Longrightarrow> finite res \<and> res \<subseteq> {..<lanes} \<and> card res = target"
proof (induction d n lanes target k chosen rule: sample_loop.induct)
  case (1 d n lanes target k chosen)
  show ?case
  proof (cases "card chosen < target")
    case False
    with "1.prems" show ?thesis by (simp add: sample_loop.simps [of d n lanes target k chosen])
  next
    case True
    let ?c = "insert (sample_block d n k mod lanes) chosen"
    have k: "k < 2 ^ 32" and next': "sample_loop d n lanes target (Suc k) ?c = Inr res"
      using True "1.prems"(1) by (simp_all add: sample_loop.simps [of d n lanes target k chosen] split: if_splits)
    have "card ?c \<le> target" using True card_insert_le_m1 [of target chosen] by (simp add: card_insert_if "1.prems")
    moreover have "?c \<subseteq> {..<lanes}" using "1.prems"(2,4) by simp
    ultimately show ?thesis using "1.IH" [OF _ _ next' "1.prems"(2)] True k "1.prems"(3) by simp
  qed
qed

text \<open>
  The sample is what it should be: when it is drawn, the sample is a strictly increasing list of exactly
  as many lanes as asked for (all of them at most), each a lane of the challenge.
\<close>

lemma sample_lanes_exact:
  assumes "sample_lanes sp digest nonce count = Inr ls" "0 < cs_lanes sp"
  shows "sorted_wrt (<) ls \<and> set ls \<subseteq> {..<cs_lanes sp} \<and> length ls = min (nat count) (cs_lanes sp)"
proof -
  obtain res where r: "sample_loop digest nonce (cs_lanes sp) (min (nat count) (cs_lanes sp)) 0 {} = Inr res"
    and ls: "ls = sorted_list_of_set res"
    using assms(1) by (auto simp: sample_lanes_def split: if_splits)
  from sample_loop_props [OF r assms(2)] show ?thesis by (simp add: ls)
qed

lemma required_samples_Inr:
  "required_samples n = Inr k \<longleftrightarrow> 1 \<le> n \<and> n \<le> 1024 \<and> k = min n (max 4 ((n + 1) div 2))"
  by (auto simp: required_samples_def challenge_params)

section \<open>Claims\<close>

lemma per_lane_bytes_bounds:
  fixes v m :: nat
  assumes "0 < v" "v \<le> 1024"
  shows "536870912 \<le> per_lane_bytes v m \<longleftrightarrow> 5 * v \<le> 8 * m" "per_lane_bytes v m div 32 \<le> 268435456 \<longleftrightarrow> m \<le> 10 * v"
proof -
  have p: "per_lane_bytes v m = 4294967296 * m div (5 * v)"
    by (simp add: per_lane_bytes_def challenge_params mult.commute)
  have "536870912 \<le> per_lane_bytes v m \<longleftrightarrow> 536870912 * (5 * v) \<le> 4294967296 * m"
    unfolding p using assms(1) by (simp add: less_eq_div_iff_mult_less_eq)
  then show "536870912 \<le> per_lane_bytes v m \<longleftrightarrow> 5 * v \<le> 8 * m" by auto
  have "per_lane_bytes v m div 32 \<le> 268435456 \<longleftrightarrow> per_lane_bytes v m < 8589934624" by auto
  also have "\<dots> \<longleftrightarrow> 4294967296 * m < 8589934624 * (5 * v)"
    unfolding p using assms(1) by (simp add: div_less_iff_less_mult)
  also have "\<dots> \<longleftrightarrow> m \<le> 10 * v" using assms by auto
  finally show "per_lane_bytes v m div 32 \<le> 268435456 \<longleftrightarrow> m \<le> 10 * v" .
qed

lemma provable_limits:
  assumes "1 \<le> v" "1 \<le> m"
  shows "provable_memory_gib v m = m \<longleftrightarrow> m \<le> 10 * v" "provable_vcpus v m = v \<longleftrightarrow> v \<le> 1024 \<and> 5 * v \<le> 8 * m"
proof -
  have "8589934592 * v * 5 div (4 * 1073741824) = 10 * v" by simp
  then show "provable_memory_gib v m = m \<longleftrightarrow> m \<le> 10 * v"
    using assms by (auto simp: provable_memory_gib_def challenge_params)
  have "v \<le> m * 1073741824 * 4 div (5 * 536870912) \<longleftrightarrow> 5 * v \<le> 8 * m" by auto
  then show "provable_vcpus v m = v \<longleftrightarrow> v \<le> 1024 \<and> 5 * v \<le> 8 * m"
    using assms by (auto simp: provable_vcpus_def challenge_params)
qed

lemma spec_for_claim:
  assumes "length seed = 32" "1 \<le> v" "1 \<le> m"
  shows "(is_ok (spec_for seed v m) \<longleftrightarrow> provable_vcpus v m = v \<and> provable_memory_gib v m = m) \<and>
    (\<forall>sp. spec_for seed v m = Inr sp \<longrightarrow> int (cs_lanes sp) = v \<and> cs_steps sp = 2 * cs_blocks sp \<and>
       int (memory_bytes sp) * 5 \<le> 4 * 2 ^ 30 * m \<and>
       4 * 2 ^ 30 * m < int (memory_bytes sp) * 5 + 5 * 33 * v)"
proof -
  let ?p = "per_lane_bytes (nat v) (nat m)"
  show ?thesis
  proof (cases "v \<le> 1024")
    case False
    then show ?thesis using assms provable_limits [OF assms(2,3)] by (simp add: spec_for_def challenge_params is_ok_def)
  next
    case True
    have v: "0 < nat v" "nat v \<le> 1024" using assms(2) True by auto
    have lo: "536870912 \<le> ?p \<longleftrightarrow> 5 * v \<le> 8 * m" and hi: "?p div 32 \<le> 268435456 \<longleftrightarrow> m \<le> 10 * v"
      using per_lane_bytes_bounds [OF v, of "nat m"] assms by auto
    have spec: "spec_for seed v m =
        (if ?p < 536870912 then Inl (ChallengeError ''a claim needs at least 512 MiB of lane per vCPU'')
         else if 268435456 < ?p div 32
           then Inl (ChallengeError ''the claimed memory per vCPU is outside what one lane can prove'')
         else Inr \<lparr>cs_seed = seed, cs_lanes = nat v, cs_blocks = ?p div 32, cs_steps = 2 * (?p div 32)\<rparr>)"
      using assms True by (auto simp: spec_for_def make_spec_def bounded_int_def challenge_params nat_mult_distrib Let_def)
    have p: "?p = nat m * 4294967296 div (5 * nat v)" by (simp add: per_lane_bytes_def challenge_params mult.commute)
    have d: "?p * (5 * nat v) \<le> nat m * 4294967296" "nat m * 4294967296 < (?p + 1) * (5 * nat v)"
      unfolding p using v(1) by (simp_all add: div_times_less_eq_dividend dividend_less_div_times)
    have b: "?p div 32 * 32 \<le> ?p" "?p < ?p div 32 * 32 + 32" by simp_all
    have "nat v * (?p div 32) * 32 * 5 \<le> ?p * (5 * nat v)" using b(1) by simp
    then have m1: "nat v * (?p div 32) * 32 * 5 \<le> nat m * 4294967296" using d(1) by linarith
    have "(?p + 1) * (5 * nat v) \<le> (?p div 32 * 32 + 32) * (5 * nat v)" using b(2) by (intro mult_le_mono1) simp
    then have m2: "nat m * 4294967296 < nat v * (?p div 32) * 32 * 5 + 5 * 33 * nat v"
      using d(2) v(1) by (simp add: algebra_simps)
    have "int (nat v * (?p div 32) * 32) * 5 \<le> 4294967296 * m \<and>
        4294967296 * m < int (nat v * (?p div 32) * 32) * 5 + 5 * 33 * v"
      using m1 m2 assms by (simp flip: of_nat_mult of_nat_add) linarith
    moreover have "is_ok (spec_for seed v m) \<longleftrightarrow> provable_vcpus v m = v \<and> provable_memory_gib v m = m"
      using spec lo hi True provable_limits [OF assms(2,3)] by (auto simp: is_ok_def not_less)
    ultimately show ?thesis
      using spec assms by (auto simp: memory_bytes_def BLOCK_BYTES_def ac_simps split: if_splits)
  qed
qed

text \<open>
  C36: the limits that are advertised are the limits that are enforced.  For a 32-byte seed and a positive
  claim, a challenge exists exactly when neither cap changes the claim; it then has one lane per vCPU and
  holds at most 80% of the claimed memory, short of it by fewer than 33 bytes per lane.
\<close>

theorem spec_for_exact:
  assumes "length seed = 32" "1 \<le> v" "1 \<le> m"
  shows "(is_ok (spec_for seed v m) \<longleftrightarrow> provable_vcpus v m = v \<and> provable_memory_gib v m = m) \<and>
    (\<forall>sp. spec_for seed v m = Inr sp \<longrightarrow> int (cs_lanes sp) = v \<and> cs_steps sp = 2 * cs_blocks sp \<and>
       int (memory_bytes sp) * 5 \<le> 4 * 2 ^ 30 * m \<and>
       4 * 2 ^ 30 * m < int (memory_bytes sp) * 5 + 5 * 33 * v)"
  using spec_for_claim [OF assms] .

section \<open>Answers\<close>

lemma collect_Inr: "collect rs = Inr xs \<longleftrightarrow> rs = map Inr xs"
  by (induction rs arbitrary: xs) (auto simp: Cons_eq_map_conv)

lemma length_lane_output: "lane_output sp lane = Inr x \<Longrightarrow> 0 < cs_steps sp \<Longrightarrow> length x = 32"
proof -
  have "length (walk_steps (Suc n) b buf x) = 32" for n b buf x
    by (induction n arbitrary: buf x) (simp_all add: Let_def)
  then show "lane_output sp lane = Inr x \<Longrightarrow> 0 < cs_steps sp \<Longrightarrow> length x = 32"
    by (cases "cs_steps sp") (auto simp: lane_output_def split: if_splits prod.splits)
qed

lemma run_lanes_total: "\<exists>outs. run_lanes sp = Inr outs"
proof -
  have "map (lane_output sp) [0..<cs_lanes sp] =
      map Inr (map (\<lambda>l. case lane_output sp l of Inr x \<Rightarrow> x | Inl _ \<Rightarrow> []) [0..<cs_lanes sp])"
    by (auto simp: lane_output_def split: prod.splits)
  then show ?thesis unfolding run_lanes_def collect_Inr by blast
qed

lemma run_lanes_nth:
  assumes "run_lanes sp = Inr outs"
  shows "length outs = cs_lanes sp" "lane < cs_lanes sp \<Longrightarrow> lane_output sp lane = Inr (outs ! lane)"
proof -
  have m: "map (lane_output sp) [0..<cs_lanes sp] = map Inr outs"
    using assms by (simp add: run_lanes_def collect_Inr)
  from arg_cong [OF m, of length] show l: "length outs = cs_lanes sp" by simp
  show "lane < cs_lanes sp \<Longrightarrow> lane_output sp lane = Inr (outs ! lane)"
    using arg_cong [OF m, of "\<lambda>xs. xs ! lane"] l by simp
qed

lemma sampled_below:
  assumes "sample_lanes sp d n c = Inr ls" "0 < cs_lanes sp"
  shows "set ls \<subseteq> {..<cs_lanes sp} \<and> length ls = min (nat c) (cs_lanes sp) \<and> distinct ls"
proof -
  obtain res where r: "sample_loop d n (cs_lanes sp) (min (nat c) (cs_lanes sp)) 0 {} = Inr res" "ls = sorted_list_of_set res"
    using assms(1) by (auto simp: sample_lanes_def split: if_splits)
  from sample_loop_props [OF r(1) assms(2)] show ?thesis by (simp add: r(2))
qed

text \<open>
  C32: an honest answer passes.  The answer that computes every lane is accepted for every nonce and every
  sample size allowed, unless the draw of the sample itself runs out of its 32-bit counter.
\<close>

theorem honest_answer_verifies:
  assumes "make_spec seed l b s = Inr sp" "run_lanes sp = Inr outs" "length nonce = 32"
    and "required_samples (cs_lanes sp) = Inr need" "\<forall>c. sample = Some c \<longrightarrow> int need \<le> c"
  shows "challenge_verify sp outs nonce sample = Inr True \<or> challenge_verify sp outs nonce sample = Inl ChallengeOverflow"
proof -
  have pos: "0 < cs_lanes sp" "0 < cs_steps sp"
    using assms(1) by (auto simp: make_spec_def bounded_int_def split: if_splits json.splits)
  note run = run_lanes_nth [OF assms(2)]
  define c where "c = (case sample of None \<Rightarrow> int need | Some c \<Rightarrow> c)"
  have need: "1 \<le> need" using assms(4) pos(1) by (auto simp: required_samples_Inr)
  have c: "int need \<le> c" using assms(5) by (auto simp: c_def split: option.split)
  have "length x = 32" if "x \<in> set outs" for x
    using that run length_lane_output [OF _ pos(2)] by (metis in_set_conv_nth)
  then obtain d where d: "result_digest sp outs = Inr d" "length d = 32"
    using run(1) by (auto simp: result_digest_def check_outputs_def ensure_def list_all_iff)
  have sl: "sample_lanes sp d nonce c =
      bindE (sample_loop d nonce (cs_lanes sp) (min (nat c) (cs_lanes sp)) 0 {}) (\<lambda>x. Inr (sorted_list_of_set x))"
    using c need assms(3) d(2) by (simp add: sample_lanes_def)
  show ?thesis
  proof (cases "sample_lanes sp d nonce c")
    case (Inr ls)
    then have "list_all (\<lambda>lane. lane_output sp lane = Inr (outs ! lane)) ls"
      using sampled_below [OF Inr pos(1)] run(2) by (auto simp: list_all_iff)
    then show ?thesis using Inr c d(1) assms(4) by (simp add: challenge_verify_def c_def [symmetric] Let_def)
  next
    case (Inl e)
    have "sample_loop d n l t k ch = Inl e \<Longrightarrow> e = ChallengeOverflow" for n l t k ch
      by (induction d n l t k ch rule: sample_loop.induct) (metis Inl_inject Inr_not_Inl sample_loop.simps)
    then have "e = ChallengeOverflow" using Inl sl by (auto simp: bindE_Inl_iff)
    then show ?thesis using Inl c d(1) assms(4) by (simp add: challenge_verify_def c_def [symmetric] Let_def)
  qed
qed

text \<open>
  C21: an accepted answer is mostly honest.  Whoever made it and however, at least the required number of lanes
  of an accepted answer, and so at least half of them, hold exactly the output of the reference.
\<close>

theorem accepted_answer_sampled:
  assumes "challenge_verify sp outs nonce sample = Inr True"
  shows "\<exists>need. required_samples (cs_lanes sp) = Inr need \<and> cs_lanes sp \<le> 2 * need \<and> length outs = cs_lanes sp \<and>
    need \<le> card {lane. lane < cs_lanes sp \<and> lane_output sp lane = Inr (outs ! lane)}"
proof -
  obtain need c d ls where need: "required_samples (cs_lanes sp) = Inr need" and c: "int need \<le> c"
    and d: "result_digest sp outs = Inr d" and ls: "sample_lanes sp d nonce c = Inr ls"
    and all: "list_all (\<lambda>lane. lane_output sp lane = Inr (outs ! lane)) ls"
    using assms
    by (cases sample) (auto simp: challenge_verify_def Let_def not_less
        split: sum.splits ChallengeError.splits option.splits if_splits)
  have n: "1 \<le> cs_lanes sp" "need \<le> cs_lanes sp" "cs_lanes sp \<le> 2 * need" using need by (auto simp: required_samples_Inr)
  note s = sampled_below [OF ls] n(1)
  have "set ls \<subseteq> {lane. lane < cs_lanes sp \<and> lane_output sp lane = Inr (outs ! lane)}"
    using s all by (auto simp: list_all_iff)
  then have "card (set ls) \<le> card {lane. lane < cs_lanes sp \<and> lane_output sp lane = Inr (outs ! lane)}"
    by (intro card_mono) auto
  moreover have "card (set ls) = min (nat c) (cs_lanes sp)" using s by (simp add: distinct_card)
  moreover have "need \<le> min (nat c) (cs_lanes sp)" using c n(2) by simp
  moreover have "length outs = cs_lanes sp" using d by (auto simp: result_digest_def check_outputs_def)
  ultimately show ?thesis using need n(3) by force
qed

section \<open>Round trip of a spec\<close>

lemma hex_digit_props:
  assumes "n < 16"
  shows "\<not> is_ascii_space (hex_digit n) \<and> hex_value (hex_digit n) = Some n \<and> is_lowered [hex_digit n]"
proof -
  have "(of_char (hex_digit n) :: nat) = (if n < 10 then 48 + n else 87 + n)"
    using assms by (simp add: hex_digit_def of_char_of)
  moreover have "c = CHR '' '' \<Longrightarrow> (of_char c :: nat) = 32" for c by simp
  ultimately show ?thesis
    using assms by (auto simp: is_ascii_space_def is_lowered_def char_in_range_def)
qed

lemma nibbles: "unat (b :: byte) div 16 < 16" "unat b mod 16 < 16"
  using unat_byte_less [of b] by (simp_all add: less_mult_imp_div_less)

lemma fromhex_hex_of: "fromhex (hex_of bs) = Some bs"
proof (induction bs)
  case (Cons b bs)
  note nibbles [of b]
  moreover have "(of_nat (16 * (unat b div 16) + unat b mod 16) :: byte) = b" by (simp del: of_nat_add of_nat_mult)
  ultimately show ?case using Cons hex_digit_props [of "unat b div 16"] hex_digit_props [of "unat b mod 16"]
    by (simp del: of_nat_add of_nat_mult)
qed simp

lemma is_lowered_hex_of: "is_lowered (hex_of bs)"
proof (induction bs)
  case (Cons b bs)
  note nibbles [of b]
  with Cons show ?case using hex_digit_props [of "unat b div 16"] hex_digit_props [of "unat b mod 16"]
    by (simp add: is_lowered_def)
qed (simp add: is_lowered_def)

text \<open>
  A challenge survives the wire: every spec that the constructor accepts is read back from its JSON
  form unchanged.
\<close>

lemma spec_json_roundtrip:
  assumes "make_spec seed l b s = Inr sp"
  shows "spec_from_json (spec_to_json sp) = Inr sp"
proof -
  have sp: "length (cs_seed sp) = 32" "1 \<le> cs_lanes sp" "cs_lanes sp \<le> MAX_LANES" "1 \<le> cs_blocks sp"
    "cs_blocks sp \<le> MAX_BLOCKS" "1 \<le> cs_steps sp" "cs_steps sp \<le> MAX_STEPS"
    using assms by (auto simp: make_spec_def bounded_int_def split: if_splits json.splits)
  have k: "obj_keys [(''seed'', w), (''lanes'', x), (''blocks'', y), (''steps'', z)] =
      {''seed'', ''lanes'', ''blocks'', ''steps''}" for w x y z
    by (auto simp: obj_keys_def)
  have "length (hex_of (cs_seed sp)) = 64" using sp(1) by simp
  then show ?thesis
    using sp by (simp add: spec_from_json_def spec_to_json_def k obj_at_def obj_get_def fromhex_hex_of
        is_lowered_hex_of make_spec_def bounded_int_def)
qed

section \<open>A small challenge\<close>

definition small_spec :: ChallengeSpec where
  "small_spec = \<lparr>cs_seed = replicate 32 7, cs_lanes = 1, cs_blocks = 1, cs_steps = 1\<rparr>"

lemma small_spec_made: "make_spec (replicate 32 7) (JInt 1) (JInt 1) (JInt 1) = Inr small_spec"
  by (simp add: make_spec_def bounded_int_def small_spec_def challenge_params)

lemma small_need: "required_samples (cs_lanes small_spec) = Inr 1"
  by (simp add: required_samples_def small_spec_def challenge_params)

lemma small_loop: "sample_loop d n 1 1 0 {} = Inr {0}"
  by (simp add: sample_loop.simps [of d n "Suc 0" "Suc 0" 0 "{}"] sample_loop.simps [of d n "Suc 0" "Suc 0" "Suc 0" "{0}"])

lemma small_sample: "length d = 32 \<Longrightarrow> sample_lanes small_spec d (replicate 32 0) 1 = Inr [0]"
  using small_loop by (simp add: sample_lanes_def small_spec_def)

theorem spec_for_exact_witness:
  "is_ok (spec_for (replicate 32 7) 4 16) \<and> provable_vcpus 4 16 = 4 \<and> provable_memory_gib 4 16 = 16"
proof -
  have "provable_vcpus 4 16 = 4" "provable_memory_gib 4 16 = 16"
    by (simp_all add: provable_vcpus_def provable_memory_gib_def challenge_params)
  with spec_for_exact [of "replicate 32 7" 4 16] show ?thesis by simp
qed

lemma small_no_overflow: "challenge_verify small_spec outs (replicate 32 0) None \<noteq> Inl ChallengeOverflow"
proof -
  have "length d = 32" if "result_digest small_spec outs = Inr d" for d
    using that by (auto simp: result_digest_def)
  moreover have "result_digest small_spec outs \<noteq> Inl ChallengeOverflow"
    by (auto simp: result_digest_def bindE_Inl_iff check_outputs_def)
  ultimately show ?thesis
    using small_need small_sample
    by (cases "result_digest small_spec outs")
       (auto simp: challenge_verify_def split: ChallengeError.splits)
qed

theorem honest_answer_verifies_witness:
  "\<exists>outs. run_lanes small_spec = Inr outs \<and> challenge_verify small_spec outs (replicate 32 0) None = Inr True"
proof -
  obtain outs where r: "run_lanes small_spec = Inr outs" using run_lanes_total by blast
  have "challenge_verify small_spec outs (replicate 32 0) None = Inr True \<or>
      challenge_verify small_spec outs (replicate 32 0) None = Inl ChallengeOverflow"
    by (rule honest_answer_verifies [OF small_spec_made r _ small_need]) simp_all
  with small_no_overflow r show ?thesis by blast
qed

lemma small_verified: "\<exists>outs. challenge_verify small_spec outs (replicate 32 0) None = Inr True"
proof -
  obtain outs where r: "run_lanes small_spec = Inr outs" using run_lanes_total by blast
  note n = run_lanes_nth [OF r]
  obtain x where x: "outs = [x]" using n(1) by (cases outs) (simp_all add: small_spec_def)
  have "lane_output small_spec 0 = Inr x" using n(2) [of 0] by (simp add: small_spec_def x)
  moreover from this have "length x = 32" by (rule length_lane_output) (simp add: small_spec_def)
  moreover have "cs_lanes small_spec = 1" by (simp add: small_spec_def)
  ultimately have "challenge_verify small_spec [x] (replicate 32 0) None = Inr True"
    using small_need small_sample
    by (simp add: challenge_verify_def result_digest_def check_outputs_def ensure_def)
  then show ?thesis by blast
qed

theorem accepted_answer_sampled_witness:
  "\<exists>outs need. challenge_verify small_spec outs (replicate 32 0) None = Inr True \<and>
     required_samples (cs_lanes small_spec) = Inr need \<and>
     need \<le> card {lane. lane < cs_lanes small_spec \<and> lane_output small_spec lane = Inr (outs ! lane)}"
  using small_verified accepted_answer_sampled by blast

end
