(* ===== verification/Base64.thy ===== *)
theory Base64
  imports Prelude
begin

text \<open>
  The standard library's base64, as the code uses it: \<^verbatim>\<open>base64.b64encode\<close> and
  \<^verbatim>\<open>base64.b64decode(..., validate=True)\<close>, which is the strict mode of CPython's
  \<^verbatim>\<open>binascii.a2b_base64\<close>.  The decoder is the loop of that function over its state: the
  position in the group of four, the bits left over, the pads seen, and whether padding has
  begun.  It ignores the unused bits of the last character, and pads after a complete group; the
  round trip holds from bytes to text and back.
\<close>

definition b64_char :: "nat \<Rightarrow> byte" where
  "b64_char n = of_nat (if n < 26 then 65 + n else if n < 52 then 71 + n else if n < 62 then n - 4
     else if n = 62 then 43 else 47)"

definition b64_value :: "byte \<Rightarrow> nat option" where
  "b64_value c = (let n = unat c in
     if 65 \<le> n \<and> n \<le> 90 then Some (n - 65) else if 97 \<le> n \<and> n \<le> 122 then Some (n - 71)
     else if 48 \<le> n \<and> n \<le> 57 then Some (n + 4) else if n = 43 then Some 62
     else if n = 47 then Some 63 else None)"

definition b64_pad :: byte where "b64_pad = 61"

fun b64encode :: "bytes \<Rightarrow> bytes" where
  "b64encode (a # b # c # r) =
     b64_char (unat a div 4) # b64_char (unat a mod 4 * 16 + unat b div 16) #
     b64_char (unat b mod 16 * 4 + unat c div 64) # b64_char (unat c mod 64) # b64encode r"
| "b64encode [a, b] =
     [b64_char (unat a div 4), b64_char (unat a mod 4 * 16 + unat b div 16), b64_char (unat b mod 16 * 4), b64_pad]"
| "b64encode [a] = [b64_char (unat a div 4), b64_char (unat a mod 4 * 16), b64_pad, b64_pad]"
| "b64encode [] = []"

fun b64_loop :: "nat \<Rightarrow> nat \<Rightarrow> nat \<Rightarrow> bool \<Rightarrow> bytes \<Rightarrow> exn + bytes" where
  "b64_loop q left pads started [] = (if q = 0 then Inr [] else Inl (ValueError ''Incorrect padding''))"
| "b64_loop q left pads started (c # cs) =
     (if c = b64_pad then
        if 2 \<le> q then
          if 4 \<le> q + Suc pads then
            (if cs \<noteq> [] then Inl (ValueError ''Excess data after padding'') else Inr [])
          else b64_loop q left (Suc pads) True cs
        else b64_loop q left pads True cs
      else case b64_value c of
        None \<Rightarrow> Inl (ValueError ''Only base64 data is allowed'')
      | Some v \<Rightarrow>
          if started then Inl (ValueError ''Discontinuous padding not allowed'')
          else if q = 0 then b64_loop 1 v 0 started cs
          else if q = 1 then bindE (b64_loop 2 (v mod 16) 0 started cs) (\<lambda>r. Inr (of_nat (left * 4 + v div 16) # r))
          else if q = 2 then bindE (b64_loop 3 (v mod 4) 0 started cs) (\<lambda>r. Inr (of_nat (left * 16 + v div 4) # r))
          else bindE (b64_loop 0 0 0 started cs) (\<lambda>r. Inr (of_nat (left * 64 + v) # r)))"

definition b64decode :: "bytes \<Rightarrow> exn + bytes" where
  "b64decode s = (if s \<noteq> [] \<and> hd s = b64_pad then Inl (ValueError ''Leading padding not allowed'')
     else b64_loop 0 0 0 False s)"

lemma b64_value_char: "n < 64 \<Longrightarrow> b64_value (b64_char n) = Some n"
proof -
  have "list_all (\<lambda>n. b64_value (b64_char n) = Some n) [0..<64]" by code_simp
  then show "n < 64 \<Longrightarrow> b64_value (b64_char n) = Some n" by (simp add: list_all_iff)
qed

lemma b64_char_not_pad: "n < 64 \<Longrightarrow> b64_char n \<noteq> b64_pad"
proof
  assume "n < 64" "b64_char n = b64_pad"
  then have "b64_value b64_pad = Some n" using b64_value_char by metis
  moreover have "b64_value b64_pad = None" by code_simp
  ultimately show False by simp
qed

lemma b64_loop_char:
  "n < 64 \<Longrightarrow> b64_loop q left pads False (b64_char n # cs) =
     (if q = 0 then b64_loop 1 n 0 False cs
      else if q = 1 then bindE (b64_loop 2 (n mod 16) 0 False cs) (\<lambda>r. Inr (of_nat (left * 4 + n div 16) # r))
      else if q = 2 then bindE (b64_loop 3 (n mod 4) 0 False cs) (\<lambda>r. Inr (of_nat (left * 16 + n div 4) # r))
      else bindE (b64_loop 0 0 0 False cs) (\<lambda>r. Inr (of_nat (left * 64 + n) # r)))"
  using b64_value_char b64_char_not_pad by simp

lemma b64_bits:
  fixes a b c :: nat
  assumes "a < 256" "b < 256" "c < 256"
  shows "a div 4 < 64" "a mod 4 * 16 + b div 16 < 64" "b mod 16 * 4 + c div 64 < 64" "c mod 64 < 64"
    "a mod 4 * 16 < 64" "b mod 16 * 4 < 64"
    "a div 4 * 4 + (a mod 4 * 16 + b div 16) div 16 = a" "(a mod 4 * 16 + b div 16) mod 16 = b div 16"
    "b div 16 * 16 + (b mod 16 * 4 + c div 64) div 4 = b" "(b mod 16 * 4 + c div 64) mod 4 = c div 64"
    "c div 64 * 64 + c mod 64 = c"
    "a div 4 * 4 + a mod 4 * 16 div 16 = a" "b div 16 * 16 + b mod 16 * 4 div 4 = b"
  using assms by auto

lemma b64_top [simp]:
  "unat (b :: byte) div 16 div 16 = 0" "unat b div 16 mod 16 = unat b div 16"
  "unat b div 64 div 4 = 0" "unat b div 64 mod 4 = unat b div 64"
  "unat b div 16 * 16 + unat b mod 16 = unat b" "unat b div 64 * 64 + unat b mod 64 = unat b"
  using unat_byte_less [of b] by (simp_all add: div_mult2_eq [symmetric] less_mult_imp_div_less mod_less)

lemma b64_loop_encode: "b64_loop 0 left pads False (b64encode bs) = Inr bs"
proof (induction bs arbitrary: left pads rule: b64encode.induct)
  case (1 a b c r)
  note bits = b64_bits [OF unat_byte_less [of a] unat_byte_less [of b] unat_byte_less [of c]]
  show ?case
    by (simp add: b64_loop_char [OF bits(1)] b64_loop_char [OF bits(2)] b64_loop_char [OF bits(3)]
          b64_loop_char [OF bits(4)] bits(7-) "1.IH" del: of_nat_add of_nat_mult b64_loop.simps)
next
  case (2 a b)
  note bits = b64_bits [OF unat_byte_less [of a] unat_byte_less [of b] unat_byte_less [of 0]]
  have "b64_loop 3 l 0 False [b64_pad] = Inr []" for l by simp
  then show ?case
    by (simp add: b64_loop_char [OF bits(1)] b64_loop_char [OF bits(2)] b64_loop_char [OF bits(6)]
          bits(7-) del: of_nat_add of_nat_mult b64_loop.simps)
next
  case (3 a)
  note bits = b64_bits [OF unat_byte_less [of a] unat_byte_less [of 0] unat_byte_less [of 0]]
  have "b64_loop 2 l 0 False [b64_pad, b64_pad] = Inr []" for l by simp
  then show ?case
    by (simp add: b64_loop_char [OF bits(1)] b64_loop_char [OF bits(5)] bits(7-)
          del: of_nat_add of_nat_mult b64_loop.simps)
qed simp

lemma hd_b64encode: "bs \<noteq> [] \<Longrightarrow> hd (b64encode bs) \<noteq> b64_pad"
  by (cases bs rule: b64encode.cases)
     (simp_all add: b64_char_not_pad [OF b64_bits(1) [OF unat_byte_less unat_byte_less unat_byte_less]])

lemma b64decode_encode [simp]: "b64decode (b64encode bs) = Inr bs"
  using hd_b64encode [of bs] by (cases "bs = []") (simp_all add: b64decode_def b64_loop_encode)

lemma length_b64encode: "length (b64encode bs) = 4 * ((length bs + 2) div 3)"
proof (induction bs rule: b64encode.induct)
  case (1 a b c r)
  have "(length r + 5) div 3 = (length r + 2) div 3 + 1" by simp
  with 1 show ?case by (simp add: add.commute)
qed simp_all

lemma b64encode_inject [simp]: "b64encode xs = b64encode ys \<longleftrightarrow> xs = ys"
  using b64decode_encode by (metis Inr_inject)

lemma length_b64_loop: "b64_loop q left pads started s = Inr bs \<Longrightarrow> length bs \<le> length s"
  by (induction q left pads started s arbitrary: bs rule: b64_loop.induct)
     (fastforce split: if_splits option.splits)+

end
