(* ===== verification/Calendar.thy ===== *)
theory Calendar
  imports Lifecycle
begin

text \<open>
  The arithmetic of aware \<^verbatim>\<open>datetime\<close> values: instants are counted in microseconds from the first day of
  year 1, two values are compared and subtracted by their instants, and an instant is turned back into the
  wall clock of UTC.
\<close>

section \<open>Instants\<close>

definition days_before_year :: "nat \<Rightarrow> nat" where
  "days_before_year y = (let p = y - 1 in p * 365 + p div 4 - p div 100 + p div 400)"

definition days_before_month :: "nat \<Rightarrow> nat \<Rightarrow> nat" where
  "days_before_month y m = sum_list (map (days_in_month y) [1..<m])"

definition day_number :: "civil \<Rightarrow> nat" where
  "day_number d = days_before_year (c_year d) + days_before_month (c_year d) (c_month d) + (c_day d - 1)"

text \<open>The wall clock as a number of microseconds, and the instant it names; an offset counts in seconds.\<close>

definition wall_micros :: "civil \<Rightarrow> int" where
  "wall_micros d = int ((((day_number d * 24 + c_hour d) * 60 + c_minute d) * 60 + c_second d) * 1000000 + c_microsecond d)"

definition instant :: "civil \<Rightarrow> int" where
  "instant d = wall_micros d - (case utc_offset d of None \<Rightarrow> 0 | Some s \<Rightarrow> s * 1000000)"

definition MAX_WALL :: int where "MAX_WALL = int (days_before_year 10000) * 86400 * 1000000"

text \<open>The UTC wall clock of an instant: the year and the month are those that begin last on or before the day.\<close>

definition find_period :: "(nat \<Rightarrow> nat) \<Rightarrow> nat \<Rightarrow> nat \<Rightarrow> nat \<Rightarrow> nat" where
  "find_period starts lo hi d = (case find (\<lambda>p. d < starts (Suc p)) [lo..<hi] of None \<Rightarrow> hi | Some p \<Rightarrow> p)"

definition civil_of_instant :: "int \<Rightarrow> civil" where
  "civil_of_instant w =
     (let micro = nat w; sec = micro div 1000000; minutes = sec div 60; hours = minutes div 60; days = hours div 24;
          y = find_period days_before_year 1 10000 days; r = days - days_before_year y;
          m = find_period (days_before_month y) 1 13 r
      in \<lparr>c_year = y, c_month = m, c_day = r - days_before_month y m + 1, c_hour = hours mod 24, c_minute = minutes mod 60,
          c_second = sec mod 60, c_microsecond = micro mod 1000000, utc_offset = Some 0\<rparr>)"

section \<open>The calendar\<close>

lemma find_period:
  assumes "starts lo \<le> d" "d < starts hi" "lo < hi"
  shows "lo \<le> find_period starts lo hi d \<and> find_period starts lo hi d < hi \<and>
    starts (find_period starts lo hi d) \<le> d \<and> d < starts (Suc (find_period starts lo hi d))"
proof (cases "find (\<lambda>p. d < starts (Suc p)) [lo..<hi]")
  case None
  obtain k where k: "hi = Suc k" using assms(3) by (cases hi) auto
  with None assms(2,3) show ?thesis unfolding find_None_iff by auto
next
  case (Some p)
  then obtain i where i: "i < hi - lo" "d < starts (Suc (lo + i))" "p = lo + i" "\<forall>k<i. \<not> d < starts (Suc (lo + k))"
    unfolding find_Some_iff by auto
  have "starts (lo + i) \<le> d"
  proof (cases i)
    case (Suc k)
    with i(4) show ?thesis by (simp add: not_less)
  qed (use assms(1) in simp)
  with i Some show ?thesis by (simp add: find_period_def)
qed

lemma leap_count:
  fixes p4 q4 p100 q100 p400 q400 :: nat
  assumes "q4 = p4 + of_bool l4" "q100 = p100 + of_bool l100" "q400 = p400 + of_bool l400" "p100 \<le> p4"
    and "l400 \<Longrightarrow> l100" "l100 \<Longrightarrow> l4"
  shows "Suc p * 365 + q4 - q100 + q400 = p * 365 + p4 - p100 + p400 + (if l4 \<and> (\<not> l100 \<or> l400) then 366 else 365)"
  using assms by (cases l4; cases l100; cases l400) simp_all

lemma days_before_year_Suc:
  assumes "1 \<le> y"
  shows "days_before_year (Suc y) = days_before_year y + (if is_leap y then 366 else 365)"
proof -
  have c: "Suc p div n = p div n + of_bool (Suc p mod n = 0)" for p n :: nat
    by (simp add: div_Suc)
  obtain p where y: "y = Suc p" using assms by (cases y) auto
  have "p div 100 \<le> p div 4" by (rule div_le_mono2) simp_all
  moreover have "Suc p mod 400 = 0 \<Longrightarrow> Suc p mod 100 = 0" "Suc p mod 100 = 0 \<Longrightarrow> Suc p mod 4 = 0"
    by presburger+
  ultimately have "Suc p * 365 + Suc p div 4 - Suc p div 100 + Suc p div 400 =
      p * 365 + p div 4 - p div 100 + p div 400 + (if Suc p mod 4 = 0 \<and> (Suc p mod 100 \<noteq> 0 \<or> Suc p mod 400 = 0) then 366 else 365)"
    by (rule leap_count [OF c c c])
  then show ?thesis unfolding days_before_year_def is_leap_def y Let_def diff_Suc_1 .
qed

lemma days_before_month_Suc: "1 \<le> m \<Longrightarrow> days_before_month y (Suc m) = days_before_month y m + days_in_month y m"
  by (simp add: days_before_month_def)

lemma days_before_month_13: "days_before_month y 13 = (if is_leap y then 366 else 365)"
proof -
  have "[1..<13] = [1, 2, 3, 4, 5, 6, 7, 8, 9, 10, 11, 12 :: nat]" by code_simp
  then show ?thesis by (simp add: days_before_month_def days_in_month_def)
qed

lemma days_before_year_1: "days_before_year 1 = 0"
  by (simp add: days_before_year_def)

lemma days_before_month_1: "days_before_month y 1 = 0"
  by (simp add: days_before_month_def)

lemma civil_of_instant:
  assumes "0 \<le> w" "w < MAX_WALL"
  shows "valid_civil (civil_of_instant w)" "instant (civil_of_instant w) = w" "c_microsecond (civil_of_instant w) = nat w mod 1000000"
    "nat w div 86400000000 < days_before_year (Suc (c_year (civil_of_instant w)))"
proof -
  define sec where "sec = nat w div 1000000"
  define minutes where "minutes = sec div 60"
  define hours where "hours = minutes div 60"
  define days where "days = hours div 24"
  define y where "y = find_period days_before_year 1 10000 days"
  define r where "r = days - days_before_year y"
  define m where "m = find_period (days_before_month y) 1 13 r"
  note ds = sec_def minutes_def hours_def days_def
  have "nat w < days_before_year 10000 * 86400000000" using assms by (simp add: MAX_WALL_def)
  then have dl: "days < days_before_year 10000" by (simp add: ds div_mult2_eq [symmetric] less_mult_imp_div_less)
  have dg: "days_before_year 1 \<le> days" by (simp only: days_before_year_1)
  have y: "1 \<le> y" "y < 10000" "days_before_year y \<le> days" "days < days_before_year (Suc y)"
    using find_period [of days_before_year 1 days 10000, OF dg dl] unfolding y_def [symmetric] by simp_all
  have ml: "r < days_before_month y 13"
    unfolding days_before_month_13 r_def using y(3,4) days_before_year_Suc [OF y(1)] by linarith
  have mg: "days_before_month y 1 \<le> r" by (simp only: days_before_month_1)
  have m: "1 \<le> m" "m < 13" "days_before_month y m \<le> r" "r < days_before_month y (Suc m)"
    using find_period [of "days_before_month y" 1 r 13, OF mg ml] unfolding m_def [symmetric] by simp_all
  have c: "civil_of_instant w = \<lparr>c_year = y, c_month = m, c_day = r - days_before_month y m + 1, c_hour = hours mod 24,
      c_minute = minutes mod 60, c_second = sec mod 60, c_microsecond = nat w mod 1000000, utc_offset = Some 0\<rparr>"
    by (simp only: civil_of_instant_def Let_def ds y_def r_def m_def)
  show "c_microsecond (civil_of_instant w) = nat w mod 1000000" by (simp add: c)
  show "nat w div 86400000000 < days_before_year (Suc (c_year (civil_of_instant w)))"
    using y(4) by (simp add: c ds div_mult2_eq [symmetric])
  show "valid_civil (civil_of_instant w)"
    unfolding c valid_civil_def using y(1,2) m(1-3) m(4) [unfolded days_before_month_Suc [OF m(1)]] by simp
  have d: "day_number (civil_of_instant w) = days" unfolding c day_number_def r_def using y(3) m(3) [unfolded r_def] by simp
  have "(((days * 24 + hours mod 24) * 60 + minutes mod 60) * 60 + sec mod 60) * 1000000 + nat w mod 1000000 = nat w"
    by (simp only: days_def div_mult_mod_eq) (simp only: hours_def div_mult_mod_eq, simp only: minutes_def div_mult_mod_eq,
        simp only: sec_def div_mult_mod_eq)
  then have "wall_micros (civil_of_instant w) = int (nat w)" unfolding wall_micros_def d by (simp only: c civil.simps)
  then show "instant (civil_of_instant w) = w" using assms(1) by (simp add: instant_def) (simp add: c)
qed

lemma days_before_year_mono: "1 \<le> a \<Longrightarrow> a \<le> b \<Longrightarrow> days_before_year a \<le> days_before_year b"
proof (induction b)
  case (Suc b)
  then show ?case using days_before_year_Suc [of b] by (cases "a = Suc b") auto
qed simp

text \<open>The instants whose year has four digits.\<close>

definition FOUR_DIGIT_YEARS :: int where "FOUR_DIGIT_YEARS = int (days_before_year 1000) * 86400000000"

lemma four_digit_year:
  assumes "FOUR_DIGIT_YEARS \<le> w" "w < MAX_WALL"
  shows "1000 \<le> c_year (civil_of_instant w)"
proof (rule ccontr)
  assume n: "\<not> 1000 \<le> c_year (civil_of_instant w)"
  have "int (days_before_year 1000) * 86400000000 \<le> w" using assms(1) by (simp only: FOUR_DIGIT_YEARS_def)
  then have w: "0 \<le> w" "days_before_year 1000 * 86400000000 \<le> nat w" by (simp_all add: nat_le_iff le_nat_iff)
  then have "days_before_year 1000 \<le> nat w div 86400000000" by (simp add: less_eq_div_iff_mult_less_eq)
  also have "\<dots> < days_before_year (Suc (c_year (civil_of_instant w)))" by (rule civil_of_instant(4) [OF w(1) assms(2)])
  also have "\<dots> \<le> days_before_year 1000" using n by (intro days_before_year_mono) simp_all
  finally show False by simp
qed

end
