(* ===== verification/Receipt.thy ===== *)
theory Receipt
  imports CapChallenge Common Base64 Calendar
begin

text \<open>
  \<^verbatim>\<open>src/cathedral/capacity/receipt.py\<close>: the signed receipts of the capacity prober.  A receipt is a JSON
  object; objects are dicts, so a key has one member.  Ed25519 belongs to the \<^verbatim>\<open>cryptography\<close> package:
  signing and verifying are the arguments \<open>ed_sign\<close> and \<open>ed_verify\<close>.  The messages of errors that list
  keys or bounds are shortened.
\<close>

section \<open>Validity\<close>

definition MAX_VALIDITY :: int where "MAX_VALIDITY = 2 * 3600 * 1000000"
definition CLOCK_SKEW :: int where "CLOCK_SKEW = 5 * 60 * 1000000"

section \<open>Field syntax\<close>

definition RECEIPT_SCHEMA :: string where "RECEIPT_SCHEMA = ''cathedral_capacity_receipt_v2''"
definition BOX_KINDS :: "string list" where "BOX_KINDS = [''tee'', ''bare_metal'']"

fun HARDWARE_ID_KINDS :: "string \<times> string option \<Rightarrow> string option" where
  "HARDWARE_ID_KINDS (kind, tee_kind) =
     (if kind = ''tee'' \<and> tee_kind = Some ''tdx'' then Some ''tdx_platform''
      else if kind = ''tee'' \<and> tee_kind = Some ''sev_snp'' then Some ''chip_id''
      else if kind = ''bare_metal'' \<and> tee_kind = None then Some ''probe_fingerprint''
      else None)"

declare HARDWARE_ID_KINDS.simps [simp del]

definition RAW_ID_BYTES :: "string \<Rightarrow> nat option" where
  "RAW_ID_BYTES k = map_of [(''tdx_platform'', 32), (''chip_id'', 64), (''probe_fingerprint'', 9)] k"

definition HARDWARE_ID_DOMAIN :: bytes where
  "HARDWARE_ID_DOMAIN = ascii ''cathedral.capacity.hardware_id.v1'' @ [0]"

text \<open>A full match of a character class repeated between \<open>lo\<close> and \<open>hi\<close> times.\<close>

definition class_match :: "(char \<Rightarrow> bool) \<Rightarrow> nat \<Rightarrow> nat \<Rightarrow> string \<Rightarrow> bool" where
  "class_match p lo hi s = (lo \<le> length s \<and> length s \<le> hi \<and> list_all p s)"

definition is_name_char :: "char \<Rightarrow> bool" where
  "is_name_char c = (is_alnum c \<or> c \<in> set ''._:-'')"

definition is_ss58_char :: "char \<Rightarrow> bool" where
  "is_ss58_char c = (is_alnum c \<and> c \<notin> set ''0IOl'')"

definition is_hex64 :: "string \<Rightarrow> bool" where
  "is_hex64 s = (length s = 64 \<and> is_lower_hex s)"

definition is_key_id :: "string \<Rightarrow> bool" where "is_key_id = class_match is_name_char 1 64"
definition is_box_id :: "string \<Rightarrow> bool" where "is_box_id = class_match is_name_char 1 128"
definition is_ss58 :: "string \<Rightarrow> bool" where "is_ss58 = class_match is_ss58_char 46 48"

definition is_lane_key :: "string \<Rightarrow> bool" where
  "is_lane_key s = (s = ''0'' \<or> (class_match is_digit 1 4 s \<and> hd s \<noteq> CHR ''0''))"

text \<open>\<open>d\<close> in a pattern stands for a digit, every other character for itself.\<close>

definition shape_match :: "string \<Rightarrow> string \<Rightarrow> bool" where
  "shape_match p s = list_all2 (\<lambda>a c. if a = CHR ''d'' then is_digit c else c = a) p s"

definition TIME_SHAPE :: string where "TIME_SHAPE = ''dddd-dd-ddTdd:dd:ddZ''"

definition is_prefixed_hex64 :: "string \<Rightarrow> string \<Rightarrow> bool" where
  "is_prefixed_hex64 p s = (starts_with p s \<and> is_hex64 (drop (length p) s))"

definition is_measurement :: "string \<Rightarrow> string \<Rightarrow> bool" where
  "is_measurement tee_kind s =
     (if tee_kind = ''tdx''
      then is_prefixed_hex64 ''tdx-measurement-sha256:'' s \<or> is_prefixed_hex64 ''tdx-image-sha256:'' s
      else length s = 96 \<and> is_lower_hex s)"

definition EVIDENCE_KEYS :: "string set" where
  "EVIDENCE_KEYS = {''evidence_kind'', ''evidence_sha256'', ''measurement'', ''verifier_digest'', ''tls_spki_sha256'',
     ''attestation_nonce'', ''attested_at''}"

definition BODY_KEYS :: "string set" where
  "BODY_KEYS = {''schema'', ''netuid'', ''round'', ''validator_nonce'', ''box'', ''capacity'', ''challenge'', ''timings_ms'',
     ''issued_at'', ''expires_at'', ''prober_key_id'', ''evidence''}"

definition BOX_KEYS :: "string set" where
  "BOX_KEYS = {''box_id'', ''miner_hotkey'', ''kind'', ''tee_kind'', ''hardware_id'', ''hardware_id_kind''}"

definition CHALLENGE_KEYS :: "string set" where
  "CHALLENGE_KEYS = {''seed'', ''lanes'', ''blocks'', ''steps'', ''result_digest'', ''sample_nonce'', ''sample_count'',
     ''sampled_outputs'', ''deadline_ms''}"

section \<open>Records\<close>

text \<open>
  \<open>Uncaught\<close> is an exception of the challenge module that \<^verbatim>\<open>_check_body\<close> does not convert;
  \<open>ReceiptOverflow\<close> is the \<^verbatim>\<open>OverflowError\<close> of a \<^verbatim>\<open>datetime\<close> past year 9999.
\<close>

datatype ReceiptError = ReceiptError string | Uncaught ChallengeError | ReceiptOverflow

record ReceiptEvidence =
  re_evidence_kind :: string
  re_evidence_sha256 :: string
  re_measurement :: string
  re_verifier_digest :: string
  re_tls_spki_sha256 :: string
  re_attestation_nonce :: string
  re_attested_at :: string

record VerifiedReceipt =
  vr_box_id :: string
  vr_miner_hotkey :: string
  vr_kind :: string
  vr_tee_kind :: "string option"
  vr_hardware_id :: string
  vr_hardware_id_kind :: string
  vr_vcpus :: int
  vr_memory_gib :: int
  vr_challenge :: ChallengeSpec
  vr_result_digest :: bytes
  vr_sample_nonce :: bytes
  vr_sample_count :: int
  vr_sampled_outputs :: "(nat \<times> bytes) list"
  vr_deadline_ms :: int
  vr_timings_ms :: "(string \<times> json) list"
  vr_round :: int
  vr_issued_at :: civil
  vr_evidence :: "ReceiptEvidence option"

section \<open>Readers of one field\<close>

text \<open>Receipts and price tables hold no float that survives the checks, so the text of floats does not matter.\<close>

definition json_canonical_bytes :: "json \<Rightarrow> bytes" where
  "json_canonical_bytes body = utf8 (dumps_utf8 (\<lambda>_. []) body)"

definition two :: "nat \<Rightarrow> string \<Rightarrow> nat" where
  "two i s = read_nat (slice i (i + 2) s)"

definition strptime_z :: "string \<Rightarrow> civil" where
  "strptime_z s = \<lparr>c_year = read_nat (slice 0 4 s), c_month = two 5 s, c_day = two 8 s, c_hour = two 11 s,
     c_minute = two 14 s, c_second = two 17 s, c_microsecond = 0, utc_offset = Some 0\<rparr>"

definition parse_time :: "json \<Rightarrow> string \<Rightarrow> ReceiptError + civil" where
  "parse_time v name = (case v of
      JStr s \<Rightarrow>
        if \<not> shape_match TIME_SHAPE s then Inl (ReceiptError (name @ '' must be YYYY-MM-DDTHH:MM:SSZ''))
        else if \<not> valid_civil (strptime_z s) then Inl (ReceiptError (name @ '' is not a real date and time''))
        else Inr (strptime_z s)
    | _ \<Rightarrow> Inl (ReceiptError (name @ '' must be YYYY-MM-DDTHH:MM:SSZ'')))"

definition aware :: "civil \<Rightarrow> ReceiptError + civil" where
  "aware now = (if utc_offset now = None then Inl (ReceiptError ''now must be a timezone-aware datetime'') else Inr now)"

definition count_field :: "json \<Rightarrow> string \<Rightarrow> int \<Rightarrow> ReceiptError + int" where
  "count_field v name minimum = (case v of
      JInt i \<Rightarrow> if i < minimum then Inl (ReceiptError (name @ '' must be an integer of at least '' @ show_int minimum)) else Inr i
    | _ \<Rightarrow> Inl (ReceiptError (name @ '' must be an integer of at least '' @ show_int minimum)))"

text \<open>A field that must be a string of a given syntax.\<close>

definition text_field :: "(string \<Rightarrow> bool) \<Rightarrow> json \<Rightarrow> string \<Rightarrow> ReceiptError + string" where
  "text_field p v msg = (case v of
      JStr s \<Rightarrow> if p s then Inr s else Inl (ReceiptError msg)
    | _ \<Rightarrow> Inl (ReceiptError msg))"

definition hex64 :: "json \<Rightarrow> string \<Rightarrow> ReceiptError + string" where
  "hex64 v name = text_field is_hex64 v (name @ '' must be 64 lowercase hex characters'')"

text \<open>\<^verbatim>\<open>.decode()\<close> of ASCII bytes.\<close>

definition text_of :: "bytes \<Rightarrow> string" where
  "text_of bs = map (\<lambda>b. char_of (unat b)) bs"

text \<open>\<^verbatim>\<open>bytes.fromhex\<close> of a text that was matched before.\<close>

definition hex_bytes :: "string \<Rightarrow> bytes" where
  "hex_bytes s = (case fromhex s of None \<Rightarrow> [] | Some bs \<Rightarrow> bs)"

definition object_field :: "(string set \<Rightarrow> bool) \<Rightarrow> json \<Rightarrow> string \<Rightarrow> ReceiptError + (string \<times> json) list" where
  "object_field p v msg = (case v of
      JObj kvs \<Rightarrow> if p (obj_keys kvs) then Inr kvs else Inl (ReceiptError msg)
    | _ \<Rightarrow> Inl (ReceiptError msg))"

section \<open>Hardware identities\<close>

definition hardware_id_payload :: "string \<Rightarrow> bytes \<Rightarrow> bytes" where
  "hardware_id_payload k raw = HARDWARE_ID_DOMAIN @ utf8 k @ [0] @ raw"

definition derive_hardware_id :: "string \<Rightarrow> bytes \<Rightarrow> ReceiptError + string" where
  "derive_hardware_id k raw = (case RAW_ID_BYTES k of
      None \<Rightarrow> Inl (ReceiptError ''hardware_id_kind must be tdx_platform, chip_id or probe_fingerprint'')
    | Some n \<Rightarrow>
        if length raw \<noteq> n then Inl (ReceiptError (''a raw '' @ k @ '' is '' @ show_nat n @ '' bytes''))
        else if all_zero raw then Inl (ReceiptError (''the '' @ k @ '' is all zeros (masked or missing)''))
        else Inr (hex_of (sha256 (hardware_id_payload k raw))))"

definition STABLE_PLATFORM_PREFIX :: string where "STABLE_PLATFORM_PREFIX = ''tdx-platform-sha256:''"

definition tdx_hardware_id :: "string \<Rightarrow> ReceiptError + string" where
  "tdx_hardware_id s =
     (if \<not> is_prefixed_hex64 STABLE_PLATFORM_PREFIX s
      then Inl (ReceiptError ''stable_platform_id must be tdx-platform-sha256:<64 lowercase hex>'')
      else derive_hardware_id ''tdx_platform'' (hex_bytes (drop (length STABLE_PLATFORM_PREFIX) s)))"

text \<open>
  \<^verbatim>\<open>ipaddress.ip_address\<close> gives the address as a number of its family, and \<open>None\<close> stands for a text
  that is not an address.
\<close>

fun probe_raw :: "ip_address \<Rightarrow> bytes" where
  "probe_raw (IPv4Address a) = [4] @ be_bytes 4 a @ replicate 4 0"
| "probe_raw (IPv6Address a) = (case ipv4_mapped a of
      Some b \<Rightarrow> [4] @ be_bytes 4 b @ replicate 4 0
    | None \<Rightarrow> [6] @ take 8 (be_bytes 16 a))"

definition probe_fingerprint :: "ip_address option \<Rightarrow> ReceiptError + string" where
  "probe_fingerprint address = (case address of
      None \<Rightarrow> Inl (ReceiptError ''probe address must be an IP address'')
    | Some ip \<Rightarrow> derive_hardware_id ''probe_fingerprint'' (probe_raw ip))"

section \<open>Checking a body\<close>

definition last_part :: "string \<Rightarrow> string" where
  "last_part s = rev (takeWhile (\<lambda>c. c \<noteq> CHR '':'') (rev s))"

definition check_evidence :: "json \<Rightarrow> string option \<Rightarrow> civil option \<Rightarrow> ReceiptError + ReceiptEvidence option" where
  "check_evidence evidence tee_kind issued_at = (case tee_kind of
      None \<Rightarrow> if evidence \<noteq> JNull then Inl (ReceiptError ''a bare-metal receipt carries no evidence (null)'') else Inr None
    | Some tk \<Rightarrow>
        bindE (object_field (\<lambda>ks. ks = EVIDENCE_KEYS) evidence ''a tee receipt's evidence must have exactly the evidence keys'') (\<lambda>ev.
        bindE (text_field (\<lambda>s. s = tk) (obj_at ev ''evidence_kind'') ''evidence_kind must equal the box's tee_kind'') (\<lambda>_.
        bindE (text_field (is_measurement tk) (obj_at ev ''measurement'') ''measurement is malformed'') (\<lambda>m.
        bindE (ensure (\<not> all_zero (hex_bytes (last_part m))) (ReceiptError ''measurement is all zeros'')) (\<lambda>_.
        bindE (text_field (is_prefixed_hex64 ''sha256:'') (obj_at ev ''verifier_digest'')
                 ''verifier_digest must be sha256:<64 lowercase hex>'') (\<lambda>vd.
        bindE (hex64 (obj_at ev ''attestation_nonce'') ''attestation_nonce'') (\<lambda>an.
        bindE (ensure (\<not> all_zero (hex_bytes an)) (ReceiptError ''attestation_nonce is all zeros'')) (\<lambda>_.
        bindE (parse_time (obj_at ev ''attested_at'') ''attested_at'') (\<lambda>att.
        bindE (ensure (case issued_at of None \<Rightarrow> True | Some i \<Rightarrow> \<not> instant att > instant i) (ReceiptError ''attested_at is after the receipt's issued_at'')) (\<lambda>_.
        bindE (hex64 (obj_at ev ''evidence_sha256'') ''evidence_sha256'') (\<lambda>es.
        bindE (hex64 (obj_at ev ''tls_spki_sha256'') ''tls_spki_sha256'') (\<lambda>tls.
        bindE (text_field (\<lambda>_. True) (obj_at ev ''attested_at'') []) (\<lambda>ats.
          Inr (Some \<lparr>re_evidence_kind = tk, re_evidence_sha256 = es, re_measurement = m, re_verifier_digest = vd,
            re_tls_spki_sha256 = tls, re_attestation_nonce = an, re_attested_at = ats\<rparr>))))))))))))))"

text \<open>The part of \<^verbatim>\<open>_check_body\<close> on \<^verbatim>\<open>body["box"]\<close>: id, hotkey, kind, TEE kind, hardware id and its kind.\<close>

definition check_box :: "json \<Rightarrow> ReceiptError + string \<times> string \<times> string \<times> string option \<times> string \<times> string" where
  "check_box v =
     bindE (object_field (\<lambda>ks. ks = BOX_KEYS) v ''box must have exactly the box keys'') (\<lambda>box.
     bindE (text_field is_box_id (obj_at box ''box_id'') ''box_id is malformed'') (\<lambda>box_id.
     bindE (text_field is_ss58 (obj_at box ''miner_hotkey'') ''miner_hotkey is not an SS58 address'') (\<lambda>hotkey.
     bindE (text_field (\<lambda>s. s \<in> set BOX_KINDS) (obj_at box ''kind'') ''box kind must be tee or bare_metal'') (\<lambda>kind.
     bindE (case obj_at box ''tee_kind'' of JNull \<Rightarrow> Inr None | JStr t \<Rightarrow> Inr (Some t)
              | _ \<Rightarrow> Inl (ReceiptError ''tee_kind must be tdx or sev_snp for a tee box, and null for bare metal'')) (\<lambda>tee_kind.
     bindE (of_option (ReceiptError ''tee_kind must be tdx or sev_snp for a tee box, and null for bare metal'')
              (HARDWARE_ID_KINDS (kind, tee_kind))) (\<lambda>id_kind.
     bindE (ensure (obj_at box ''hardware_id_kind'' = JStr id_kind)
              (ReceiptError ''hardware_id_kind must be the one of the box kind'')) (\<lambda>_.
     bindE (hex64 (obj_at box ''hardware_id'') ''hardware_id'') (\<lambda>hardware_id.
       Inr (box_id, hotkey, kind, tee_kind, hardware_id, id_kind)))))))))"

text \<open>The specification of the challenge, as the capacity of the receipt fixes it.\<close>

definition from_challenge :: "ChallengeError + 'a \<Rightarrow> ReceiptError + 'a" where
  "from_challenge r = (case r of
      Inl (ChallengeError m) \<Rightarrow> Inl (ReceiptError (''challenge: '' @ m))
    | Inl ChallengeOverflow \<Rightarrow> Inl (Uncaught ChallengeOverflow)
    | Inr x \<Rightarrow> Inr x)"

definition uncaught :: "ChallengeError + 'a \<Rightarrow> ReceiptError + 'a" where
  "uncaught r = (case r of Inl e \<Rightarrow> Inl (Uncaught e) | Inr x \<Rightarrow> Inr x)"

definition check_spec :: "(string \<times> json) list \<Rightarrow> int \<Rightarrow> int \<Rightarrow> ReceiptError + ChallengeSpec" where
  "check_spec chal vcpus memory_gib =
     bindE (from_challenge (spec_from_json (JObj (map (\<lambda>n. (n, obj_at chal n)) [''seed'', ''lanes'', ''blocks'', ''steps''])))) (\<lambda>sp.
     bindE (from_challenge (spec_for (cs_seed sp) vcpus memory_gib)) (\<lambda>expected.
     bindE (ensure (sp = expected) (ReceiptError ''the challenge does not prove the capacity the receipt pays for'')) (\<lambda>_.
       Inr sp)))"

fun check_outputs_field :: "(string \<times> json) list \<Rightarrow> ReceiptError + (nat \<times> bytes) list" where
  "check_outputs_field [] = Inr []"
| "check_outputs_field ((lane, v) # rest) =
     bindE (ensure (is_lane_key lane) (ReceiptError ''sampled lane keys must be plain decimal lane numbers'')) (\<lambda>_.
     bindE (hex64 v ''sampled output'') (\<lambda>h.
     bindE (check_outputs_field rest) (\<lambda>r. Inr ((read_nat lane, hex_bytes h) # r))))"

text \<open>
  The part on \<^verbatim>\<open>body["challenge"]\<close>: specification, committed digest, sample nonce, sample count, sampled
  outputs and deadline.
\<close>

definition check_challenge ::
  "json \<Rightarrow> int \<Rightarrow> int \<Rightarrow> ReceiptError + ChallengeSpec \<times> bytes \<times> bytes \<times> int \<times> (nat \<times> bytes) list \<times> int" where
  "check_challenge v vcpus memory_gib =
     bindE (object_field (\<lambda>ks. ks = CHALLENGE_KEYS) v ''challenge must have exactly the challenge keys'') (\<lambda>chal.
     bindE (check_spec chal vcpus memory_gib) (\<lambda>sp.
     bindE (hex64 (obj_at chal ''result_digest'') ''result_digest'') (\<lambda>digest.
     bindE (hex64 (obj_at chal ''sample_nonce'') ''sample_nonce'') (\<lambda>nonce.
     bindE (object_field (\<lambda>_. True) (obj_at chal ''sampled_outputs'') ''sampled_outputs must be an object'') (\<lambda>sampled.
     bindE (check_outputs_field sampled) (\<lambda>outputs.
     bindE (count_field (obj_at chal ''sample_count'') ''sample_count'' 1) (\<lambda>sample_count.
     bindE (uncaught (required_samples (cs_lanes sp))) (\<lambda>need.
     bindE (ensure (int need \<le> sample_count \<and> sample_count \<le> int (cs_lanes sp)) (ReceiptError ''sample_count is out of bounds'')) (\<lambda>_.
     bindE (uncaught (sample_lanes sp (hex_bytes digest) (hex_bytes nonce) sample_count)) (\<lambda>wanted.
     bindE (ensure (sort (map fst outputs) = wanted)
              (ReceiptError ''sampled_outputs must be exactly the lanes the sample nonce picks'')) (\<lambda>_.
     bindE (count_field (obj_at chal ''deadline_ms'') ''deadline_ms'' 1) (\<lambda>deadline.
     bindE (ensure (\<not> deadline > int (max_deadline_ms sp)) (ReceiptError ''deadline_ms is too loose for this challenge'')) (\<lambda>_.
       Inr (sp, hex_bytes digest, hex_bytes nonce, sample_count, outputs, deadline))))))))))))))"

fun check_counts :: "(string \<times> json) list \<Rightarrow> ReceiptError + unit" where
  "check_counts [] = Inr ()"
| "check_counts ((name, v) # rest) = bindE (count_field v (''timings_ms.'' @ name) 0) (\<lambda>_. check_counts rest)"

definition check_timings :: "json \<Rightarrow> int \<Rightarrow> ReceiptError + (string \<times> json) list" where
  "check_timings v deadline =
     bindE (object_field (\<lambda>ks. ks = {''create'', ''exec'', ''delete''}) v ''timings_ms must have create, exec and delete'') (\<lambda>t.
     bindE (check_counts t) (\<lambda>_.
     bindE (count_field (obj_at t ''exec'') ''timings_ms.exec'' 0) (\<lambda>exec.
     bindE (ensure (\<not> exec > deadline) (ReceiptError ''the challenge finished after its deadline'')) (\<lambda>_. Inr t))))"

definition check_validity :: "json \<Rightarrow> json \<Rightarrow> ReceiptError + civil" where
  "check_validity issued expires =
     bindE (parse_time issued ''issued_at'') (\<lambda>i.
     bindE (parse_time expires ''expires_at'') (\<lambda>e.
     bindE (ensure (0 < instant e - instant i \<and> instant e - instant i \<le> MAX_VALIDITY)
              (ReceiptError ''receipt validity must be positive and at most 2 hours'')) (\<lambda>_. Inr i)))"

definition check_body :: "(string \<times> json) list \<Rightarrow> ReceiptError + VerifiedReceipt" where
  "check_body body =
     bindE (ensure (obj_keys body = BODY_KEYS \<and> obj_at body ''schema'' = JStr RECEIPT_SCHEMA)
              (ReceiptError ''receipt body has the wrong fields or schema'')) (\<lambda>_.
     bindE (count_field (obj_at body ''netuid'') ''netuid'' 0) (\<lambda>_.
     bindE (count_field (obj_at body ''round'') ''round'' 0) (\<lambda>rnd.
     bindE (hex64 (obj_at body ''validator_nonce'') ''validator_nonce'') (\<lambda>_.
     bindE (text_field is_key_id (obj_at body ''prober_key_id'') ''prober_key_id is malformed'') (\<lambda>_.
     bindE (check_box (obj_at body ''box'')) (\<lambda>(box_id, hotkey, kind, tee_kind, hardware_id, id_kind).
     bindE (object_field (\<lambda>ks. ks = {''vcpus'', ''memory_gib''}) (obj_at body ''capacity'') ''capacity must have vcpus and memory_gib'') (\<lambda>cap.
     bindE (count_field (obj_at cap ''vcpus'') ''vcpus'' 1) (\<lambda>vcpus.
     bindE (count_field (obj_at cap ''memory_gib'') ''memory_gib'' 1) (\<lambda>memory_gib.
     bindE (check_challenge (obj_at body ''challenge'') vcpus memory_gib) (\<lambda>(sp, digest, nonce, sample_count, outputs, deadline).
     bindE (check_timings (obj_at body ''timings_ms'') deadline) (\<lambda>timings.
     bindE (check_validity (obj_at body ''issued_at'') (obj_at body ''expires_at'')) (\<lambda>issued_at.
     bindE (check_evidence (obj_at body ''evidence'') tee_kind (Some issued_at)) (\<lambda>evidence.
       Inr \<lparr>vr_box_id = box_id, vr_miner_hotkey = hotkey, vr_kind = kind, vr_tee_kind = tee_kind, vr_hardware_id = hardware_id,
         vr_hardware_id_kind = id_kind, vr_vcpus = vcpus, vr_memory_gib = memory_gib, vr_challenge = sp, vr_result_digest = digest,
         vr_sample_nonce = nonce, vr_sample_count = sample_count, vr_sampled_outputs = outputs, vr_deadline_ms = deadline,
         vr_timings_ms = timings, vr_round = rnd, vr_issued_at = issued_at, vr_evidence = evidence\<rparr>)))))))))))))"

section \<open>Making a body\<close>

text \<open>
  \<^verbatim>\<open>value.astimezone(timezone.utc).strftime(...)\<close> of the instant of a \<^verbatim>\<open>datetime\<close>; one without an offset counts as
  UTC, the zone of the process.  Outside the years 1 to 9999 the conversion raises.
\<close>

definition iso :: "int \<Rightarrow> ReceiptError + string" where
  "iso w = (if w < 0 \<or> MAX_WALL \<le> w then Inl ReceiptOverflow else
     (let d = civil_of_instant w in Inr (show_nat (c_year d) @ ''-'' @ pad_nat 2 (c_month d) @ ''-'' @ pad_nat 2 (c_day d) @ ''T'' @
        pad_nat 2 (c_hour d) @ '':'' @ pad_nat 2 (c_minute d) @ '':'' @ pad_nat 2 (c_second d) @ ''Z'')))"

text \<open>What the prober saw; the sampled outputs and the timings are dicts, \<open>pr_evidence\<close> any value.\<close>

record probe =
  pr_netuid :: int
  pr_round :: int
  pr_validator_nonce :: string
  pr_box_id :: string
  pr_miner_hotkey :: string
  pr_kind :: string
  pr_tee_kind :: "string option"
  pr_hardware_id :: string
  pr_vcpus :: int
  pr_memory_gib :: int
  pr_challenge :: ChallengeSpec
  pr_result_digest :: bytes
  pr_sample_nonce :: bytes
  pr_sample_count :: int
  pr_sampled_outputs :: "(nat \<times> bytes) list"
  pr_deadline_ms :: int
  pr_timings_ms :: "(string \<times> int) list"
  pr_issued_at :: civil
  pr_valid_for :: int
  pr_prober_key_id :: string
  pr_evidence :: json

definition opt_str :: "string option \<Rightarrow> json" where
  "opt_str s = (case s of None \<Rightarrow> JNull | Some t \<Rightarrow> JStr t)"

definition box_json :: "probe \<Rightarrow> json" where
  "box_json p = JObj [(''box_id'', JStr (pr_box_id p)), (''miner_hotkey'', JStr (pr_miner_hotkey p)), (''kind'', JStr (pr_kind p)),
     (''tee_kind'', opt_str (pr_tee_kind p)), (''hardware_id'', JStr (pr_hardware_id p)),
     (''hardware_id_kind'', opt_str (HARDWARE_ID_KINDS (pr_kind p, pr_tee_kind p)))]"

definition challenge_json :: "probe \<Rightarrow> json" where
  "challenge_json p = JObj ((case spec_to_json (pr_challenge p) of JObj kvs \<Rightarrow> kvs | _ \<Rightarrow> []) @
     [(''result_digest'', JStr (hex_of (pr_result_digest p))), (''sample_nonce'', JStr (hex_of (pr_sample_nonce p))),
      (''sample_count'', JInt (pr_sample_count p)),
      (''sampled_outputs'', JObj (map (\<lambda>(k, v). (show_nat k, JStr (hex_of v))) (sort_key fst (pr_sampled_outputs p)))),
      (''deadline_ms'', JInt (pr_deadline_ms p))])"

definition make_body :: "probe \<Rightarrow> ReceiptError + json" where
  "make_body p =
     bindE (iso (instant (pr_issued_at p))) (\<lambda>issued_at.
     bindE (ensure (0 \<le> wall_micros (pr_issued_at p) + pr_valid_for p \<and> wall_micros (pr_issued_at p) + pr_valid_for p < MAX_WALL)
              ReceiptOverflow) (\<lambda>_.
     bindE (iso (instant (pr_issued_at p) + pr_valid_for p)) (\<lambda>expires_at.
       Inr (JObj [(''schema'', JStr RECEIPT_SCHEMA), (''netuid'', JInt (pr_netuid p)), (''round'', JInt (pr_round p)),
         (''validator_nonce'', JStr (pr_validator_nonce p)), (''box'', box_json p),
         (''capacity'', JObj [(''vcpus'', JInt (pr_vcpus p)), (''memory_gib'', JInt (pr_memory_gib p))]),
         (''challenge'', challenge_json p), (''timings_ms'', JObj (map (\<lambda>(k, t). (k, JInt t)) (pr_timings_ms p))),
         (''issued_at'', JStr issued_at), (''expires_at'', JStr expires_at), (''prober_key_id'', JStr (pr_prober_key_id p)),
         (''evidence'', pr_evidence p)]))))"

section \<open>Signing and verifying\<close>

definition sign_receipt :: "('sk \<Rightarrow> bytes \<Rightarrow> bytes) \<Rightarrow> json \<Rightarrow> 'sk \<Rightarrow> bool \<Rightarrow> ReceiptError + json" where
  "sign_receipt ed_sign v private_key allow_bare_metal = (case v of
      JObj body \<Rightarrow>
        if ''signature'' \<in> obj_keys body then Inl (ReceiptError ''body already carries a signature'')
        else bindE (check_body body) (\<lambda>p.
             bindE (ensure (\<not> (vr_kind p = ''bare_metal'' \<and> \<not> allow_bare_metal))
                      (ReceiptError ''refusing to sign a bare-metal receipt: TEE boxes come first'')) (\<lambda>_.
               Inr (JObj (body @ [(''signature'',
                 JStr (text_of (b64encode (ed_sign private_key (json_canonical_bytes (JObj body))))))]))))
    | _ \<Rightarrow> Inl (ReceiptError ''body must be an object''))"

definition drop_signature :: "(string \<times> json) list \<Rightarrow> (string \<times> json) list" where
  "drop_signature kvs = filter (\<lambda>kv. fst kv \<noteq> ''signature'') kvs"

text \<open>\<^verbatim>\<open>key.verify(base64.b64decode(signature, validate=True), message)\<close>: every exception is a refusal.\<close>

definition signature_ok :: "('pk \<Rightarrow> bytes \<Rightarrow> bytes \<Rightarrow> bool) \<Rightarrow> 'pk \<Rightarrow> json \<Rightarrow> bytes \<Rightarrow> bool" where
  "signature_ok ed_verify key v message = (case v of
      JStr s \<Rightarrow> (case b64decode (ascii s) of Inl _ \<Rightarrow> False | Inr sig \<Rightarrow> ed_verify key sig message)
    | _ \<Rightarrow> False)"

definition check_age :: "civil \<Rightarrow> int option \<Rightarrow> ReceiptEvidence option \<Rightarrow> ReceiptError + unit" where
  "check_age now max_evidence_age evidence = (case (max_evidence_age, evidence) of
      (Some age, Some ev) \<Rightarrow>
        bindE (parse_time (JStr (re_attested_at ev)) ''attested_at'') (\<lambda>att.
          ensure (\<not> instant now - instant att > age) (ReceiptError ''the receipt's evidence is older than max_evidence_age''))
    | _ \<Rightarrow> Inr ())"

definition verify_receipt ::
  "('pk \<Rightarrow> bytes \<Rightarrow> bytes \<Rightarrow> bool) \<Rightarrow> (string \<rightharpoonup> 'pk) \<Rightarrow> int \<Rightarrow> string \<Rightarrow> civil \<Rightarrow> int \<Rightarrow> int option \<Rightarrow> json \<Rightarrow>
     ReceiptError + VerifiedReceipt" where
  "verify_receipt ed_verify prober_keys netuid validator_nonce now expected_round max_evidence_age receipt =
     bindE (aware now) (\<lambda>_.
     bindE (count_field (JInt expected_round) ''expected_round'' 0) (\<lambda>_.
     bindE (ensure (case max_evidence_age of None \<Rightarrow> True | Some age \<Rightarrow> \<not> age \<le> 0)
              (ReceiptError ''max_evidence_age must be a positive timedelta or None'')) (\<lambda>_.
     bindE (object_field (\<lambda>ks. ''signature'' \<in> ks) receipt ''receipt is not a signed object'') (\<lambda>kvs.
     let body = drop_signature kvs in
     bindE (check_body body) (\<lambda>parsed.
     bindE (text_field is_key_id (obj_at body ''prober_key_id'') ''prober_key_id is malformed'') (\<lambda>key_id.
     bindE (of_option (ReceiptError ''receipt is signed by an unknown prober key'') (prober_keys key_id)) (\<lambda>key.
     bindE (ensure (signature_ok ed_verify key (obj_at kvs ''signature'') (json_canonical_bytes (JObj body)))
              (ReceiptError ''receipt signature does not verify'')) (\<lambda>_.
     bindE (ensure (obj_at body ''netuid'' = JInt netuid) (ReceiptError ''receipt is for another netuid'')) (\<lambda>_.
     bindE (ensure (obj_at body ''validator_nonce'' = JStr validator_nonce)
              (ReceiptError ''receipt answers another validator's nonce'')) (\<lambda>_.
     bindE (ensure (vr_round parsed = expected_round) (ReceiptError ''receipt is from another round'')) (\<lambda>_.
     bindE (parse_time (obj_at body ''expires_at'') ''expires_at'') (\<lambda>expires_at.
     bindE (ensure (wall_micros now + CLOCK_SKEW < MAX_WALL) ReceiptOverflow) (\<lambda>_.
     bindE (ensure (instant (vr_issued_at parsed) \<le> instant now + CLOCK_SKEW \<and> instant now < instant expires_at)
              (ReceiptError ''receipt is not currently valid'')) (\<lambda>_.
     bindE (check_age now max_evidence_age (vr_evidence parsed)) (\<lambda>_.
       Inr parsed)))))))))))))))"

definition expected_report_data :: "VerifiedReceipt \<Rightarrow> ReceiptError + bytes" where
  "expected_report_data v = (case vr_evidence v of
      None \<Rightarrow> Inl (ReceiptError ''only a verified TEE receipt has evidence to audit'')
    | Some ev \<Rightarrow> (case bindE (mk_ChannelBinding TLS_SPKI_SHA256 (hex_bytes (re_tls_spki_sha256 ev)))
          (\<lambda>b. report_data_v2 (hex_bytes (re_attestation_nonce ev)) (vr_miner_hotkey v) b) of
        Inr rd \<Rightarrow> Inr rd
      | Inl (ValueError m) \<Rightarrow> Inl (ReceiptError (''evidence: '' @ m))
      | Inl _ \<Rightarrow> Inl (ReceiptError ''evidence'')))"

section \<open>What a field reader accepts\<close>

lemma parse_time_Inr [simp]:
  "parse_time v name = Inr c \<longleftrightarrow> (\<exists>s. v = JStr s \<and> shape_match TIME_SHAPE s \<and> valid_civil c \<and> c = strptime_z s)"
  by (auto simp: parse_time_def split: json.splits if_splits)

lemma count_field_Inr [simp]: "count_field v name lo = Inr i \<longleftrightarrow> v = JInt i \<and> lo \<le> i"
  by (auto simp: count_field_def split: json.splits if_splits)

lemma text_field_Inr [simp]: "text_field p v msg = Inr s \<longleftrightarrow> v = JStr s \<and> p s"
  by (auto simp: text_field_def split: json.splits if_splits)

lemma hex64_Inr [simp]: "hex64 v name = Inr s \<longleftrightarrow> v = JStr s \<and> is_hex64 s"
  by (simp add: hex64_def)

lemma object_field_Inr [simp]: "object_field p v msg = Inr kvs \<longleftrightarrow> v = JObj kvs \<and> p (obj_keys kvs)"
  by (auto simp: object_field_def split: json.splits if_splits)

lemma uncaught_Inr [simp]: "uncaught r = Inr x \<longleftrightarrow> r = Inr x"
  by (auto simp: uncaught_def split: sum.splits)

lemma from_challenge_Inr [simp]: "from_challenge r = Inr x \<longleftrightarrow> r = Inr x"
  by (auto simp: from_challenge_def split: sum.splits ChallengeError.splits)

lemma check_outputs_field_Inr:
  "check_outputs_field kvs = Inr outs \<longleftrightarrow>
     list_all2 (\<lambda>(k, v) (n, b). is_lane_key k \<and> n = read_nat k \<and> (\<exists>h. v = JStr h \<and> is_hex64 h \<and> b = hex_bytes h)) kvs outs"
  by (induction kvs arbitrary: outs) (fastforce simp: list_all2_Cons1)+

lemma check_counts_Inr: "check_counts kvs = Inr u \<longleftrightarrow> (\<forall>(k, v) \<in> set kvs. \<exists>i. v = JInt i \<and> 0 \<le> i)"
  by (induction kvs) auto

section \<open>Hex texts\<close>

lemma hex_digit_of_value: "hex_value c = Some n \<Longrightarrow> hex_digit n = c \<and> n < 16"
proof -
  assume "hex_value c = Some n"
  then have n: "(48 \<le> (of_char c :: nat) \<and> of_char c \<le> (57 :: nat) \<and> n = of_char c - 48) \<or>
      (97 \<le> (of_char c :: nat) \<and> of_char c \<le> (102 :: nat) \<and> n = of_char c - 87)"
    by (simp add: hex_value_def Let_def split: if_splits)
  then have "hex_digit n = char_of (of_char c :: nat)" by (auto simp: hex_digit_def)
  with n show "hex_digit n = c \<and> n < 16" by auto
qed

lemma lower_hex_bytes:
  assumes "is_lower_hex s" "even (length s)"
  shows "\<exists>bs. s = hex_of bs"
  using assms
proof (induction s rule: induct_list012)
  case 1
  then show ?case using hex_of.simps(1) by metis
next
  case (3 c d s)
  obtain h l where hl: "hex_value c = Some h" "hex_value d = Some l" using 3(3) by (auto simp: is_lower_hex_def)
  obtain bs where bs: "s = hex_of bs" using 3 by (auto simp: is_lower_hex_def)
  have "16 * h + l < 256" using hl by (auto dest!: hex_digit_of_value)
  then have "c # d # s = hex_of (of_nat (16 * h + l) # bs)"
    using hl [THEN hex_digit_of_value] by (simp add: bs del: of_nat_add of_nat_mult)
  then show ?case by blast
qed simp

lemma hex_bytes_hex_of [simp]: "hex_bytes (hex_of bs) = bs"
  by (simp add: hex_bytes_def fromhex_hex_of)

lemma is_hex64_iff: "is_hex64 s \<longleftrightarrow> (\<exists>bs. length bs = 32 \<and> s = hex_of bs)"
  using lower_hex_bytes [of s] by (auto simp: is_hex64_def)

lemma length_hex_bytes: "is_hex64 s \<Longrightarrow> length (hex_bytes s) = 32"
  by (auto simp: is_hex64_iff)

section \<open>What an accepted body says\<close>

lemma make_spec_Inr:
  "make_spec seed l b s = Inr sp \<Longrightarrow> cs_seed sp = seed \<and> length seed = 32 \<and> 1 \<le> cs_lanes sp \<and> cs_lanes sp \<le> 1024"
  by (auto simp: make_spec_def bounded_int_def MAX_LANES_def split: if_splits json.splits)

lemma spec_for_Inr:
  "spec_for seed v m = Inr sp \<Longrightarrow> cs_seed sp = seed \<and> length seed = 32 \<and> 1 \<le> cs_lanes sp \<and> cs_lanes sp \<le> 1024"
  using make_spec_Inr by (simp add: spec_for_def Let_def split: if_splits)

lemma check_spec_Inr:
  assumes "check_spec chal v m = Inr sp"
  shows "spec_for (cs_seed sp) v m = Inr sp \<and> length (cs_seed sp) = 32 \<and> 1 \<le> cs_lanes sp \<and> cs_lanes sp \<le> 1024"
  using assms spec_for_Inr [of "cs_seed sp" v m sp] by (auto simp: check_spec_def)

text \<open>The sampled lanes of an accepted challenge section.\<close>

lemma check_challenge_Inr:
  assumes "check_challenge v vcpus mem = Inr (sp, digest, nonce, cnt, outs, deadline)"
  shows "spec_for (cs_seed sp) vcpus mem = Inr sp" "length (cs_seed sp) = 32" "1 \<le> cs_lanes sp" "cs_lanes sp \<le> 1024"
    "length digest = 32" "length nonce = 32"
    "\<exists>need. required_samples (cs_lanes sp) = Inr need \<and> int need \<le> cnt \<and> cnt \<le> int (cs_lanes sp)"
    "sample_lanes sp digest nonce cnt = Inr (sort (map fst outs))"
    "\<forall>(lane, out) \<in> set outs. length out = 32"
    "1 \<le> deadline" "deadline \<le> int (max_deadline_ms sp)"
proof -
  from assms obtain chal where c: "check_spec chal vcpus mem = Inr sp" by (auto simp: check_challenge_def)
  from check_spec_Inr [OF c] show "spec_for (cs_seed sp) vcpus mem = Inr sp" "length (cs_seed sp) = 32"
    "1 \<le> cs_lanes sp" "cs_lanes sp \<le> 1024" by simp_all
  from assms show "length digest = 32" "length nonce = 32" "1 \<le> deadline" "deadline \<le> int (max_deadline_ms sp)"
    "\<exists>need. required_samples (cs_lanes sp) = Inr need \<and> int need \<le> cnt \<and> cnt \<le> int (cs_lanes sp)"
    "sample_lanes sp digest nonce cnt = Inr (sort (map fst outs))"
    by (clarsimp simp: check_challenge_def length_hex_bytes)+
  from assms obtain kvs where "check_outputs_field kvs = Inr outs" by (auto simp: check_challenge_def)
  then show "\<forall>(lane, out) \<in> set outs. length out = 32"
    by (fastforce simp: check_outputs_field_Inr list_all2_conv_all_nth in_set_conv_nth length_hex_bytes)
qed

lemma check_evidence_Inr:
  assumes "check_evidence v tk issued = Inr ev"
  shows "ev = None \<longleftrightarrow> tk = None"
    "\<And>e. ev = Some e \<Longrightarrow> is_hex64 (re_tls_spki_sha256 e) \<and> is_hex64 (re_attestation_nonce e) \<and>
       is_hex64 (re_evidence_sha256 e) \<and> Some (re_evidence_kind e) = tk \<and>
       valid_civil (strptime_z (re_attested_at e)) \<and>
       (\<forall>i. issued = Some i \<longrightarrow> instant (strptime_z (re_attested_at e)) \<le> instant i)"
  using assms by (auto simp: check_evidence_def split: option.splits if_splits)

lemma check_box_Inr:
  assumes "check_box v = Inr (box_id, hotkey, kind, tk, hw, idk)"
  shows "HARDWARE_ID_KINDS (kind, tk) = Some idk" "is_ss58 hotkey" "is_box_id box_id" "is_hex64 hw" "kind \<in> set BOX_KINDS"
  using assms by (auto simp: check_box_def)

lemma check_body_Inr:
  assumes "check_body body = Inr v"
  shows "obj_at body ''round'' = JInt (vr_round v)"
    and "check_box (obj_at body ''box'') =
      Inr (vr_box_id v, vr_miner_hotkey v, vr_kind v, vr_tee_kind v, vr_hardware_id v, vr_hardware_id_kind v)"
    and "obj_at body ''capacity'' = JObj cap \<Longrightarrow> obj_at cap ''vcpus'' = JInt (vr_vcpus v) \<and> obj_at cap ''memory_gib'' = JInt (vr_memory_gib v)"
    and "1 \<le> vr_vcpus v" "1 \<le> vr_memory_gib v"
    and "check_challenge (obj_at body ''challenge'') (vr_vcpus v) (vr_memory_gib v) =
      Inr (vr_challenge v, vr_result_digest v, vr_sample_nonce v, vr_sample_count v, vr_sampled_outputs v, vr_deadline_ms v)"
    and "check_timings (obj_at body ''timings_ms'') (vr_deadline_ms v) = Inr (vr_timings_ms v)"
    and "check_validity (obj_at body ''issued_at'') (obj_at body ''expires_at'') = Inr (vr_issued_at v)"
    and "check_evidence (obj_at body ''evidence'') (vr_tee_kind v) (Some (vr_issued_at v)) = Inr (vr_evidence v)"
  using assms by (clarsimp simp: check_body_def case_prod_unfold)+

lemma verify_receipt_Inr:
  assumes "verify_receipt ed_verify prober_keys netuid nonce now rnd age receipt = Inr v"
  shows "\<exists>kvs key_id key expires. receipt = JObj kvs \<and> check_body (drop_signature kvs) = Inr v \<and>
    obj_at (drop_signature kvs) ''prober_key_id'' = JStr key_id \<and> prober_keys key_id = Some key \<and>
    signature_ok ed_verify key (obj_at kvs ''signature'') (json_canonical_bytes (JObj (drop_signature kvs))) \<and>
    obj_at (drop_signature kvs) ''netuid'' = JInt netuid \<and> obj_at (drop_signature kvs) ''validator_nonce'' = JStr nonce \<and>
    vr_round v = rnd \<and> utc_offset now \<noteq> None \<and> instant (vr_issued_at v) \<le> instant now + CLOCK_SKEW \<and>
    parse_time (obj_at (drop_signature kvs) ''expires_at'') ''expires_at'' = Inr expires \<and> instant now < instant expires \<and>
    check_age now age (vr_evidence v) = Inr ()"
  using assms by (clarsimp simp: verify_receipt_def Let_def aware_def split: if_splits)

section \<open>Hardware identities\<close>

lemma RAW_ID_BYTES_kinds: "RAW_ID_BYTES k = Some n \<Longrightarrow> k \<in> {''tdx_platform'', ''chip_id'', ''probe_fingerprint''}"
  by (auto simp: RAW_ID_BYTES_def split: if_splits)

lemma derive_hardware_id_Inr:
  "derive_hardware_id k raw = Inr h \<longleftrightarrow>
     RAW_ID_BYTES k = Some (length raw) \<and> \<not> all_zero raw \<and> h = hex_of (sha256 (hardware_id_payload k raw))"
  by (auto simp: derive_hardware_id_def split: option.splits)

lemma hardware_id_payload_inject:
  assumes "RAW_ID_BYTES k = Some n" "RAW_ID_BYTES k' = Some n'" "hardware_id_payload k raw = hardware_id_payload k' raw'"
  shows "k = k' \<and> raw = raw'"
proof -
  have z: "0 \<notin> set (utf8 x)" if "x \<in> {''tdx_platform'', ''chip_id'', ''probe_fingerprint''}" for x
    using that by (auto simp: utf8_def utf8_char_def)
  have "utf8 k @ 0 # raw = utf8 k' @ 0 # raw'" using assms(3) by (simp add: hardware_id_payload_def)
  from separated_inject [OF z z this] RAW_ID_BYTES_kinds [OF assms(1)] RAW_ID_BYTES_kinds [OF assms(2)] show ?thesis by simp
qed

text \<open>
  One hardware id is one machine.  Two raw identities that give the same hardware id are the same identity of the
  same kind, unless SHA-256 collides on their two payloads.
\<close>

lemma hardware_id_binds:
  assumes "derive_hardware_id k raw = Inr h" "derive_hardware_id k' raw' = Inr h"
  shows "(k = k' \<and> raw = raw') \<or>
    (hardware_id_payload k raw \<noteq> hardware_id_payload k' raw' \<and>
     sha256 (hardware_id_payload k raw) = sha256 (hardware_id_payload k' raw'))"
  using assms hardware_id_payload_inject [of k _ k' _ raw raw'] by (auto simp: derive_hardware_id_Inr)

text \<open>The part of an address that a bare-metal box is deduplicated by: the IPv4 address or the IPv6 /64.\<close>

fun probe_site :: "ip_address \<Rightarrow> nat + nat" where
  "probe_site (IPv4Address a) = Inl a"
| "probe_site (IPv6Address a) = (case ipv4_mapped a of Some b \<Rightarrow> Inl b | None \<Rightarrow> Inr (a div 2 ^ 64))"

fun valid_address :: "ip_address \<Rightarrow> bool" where
  "valid_address (IPv4Address a) = (a < 2 ^ 32)"
| "valid_address (IPv6Address a) = (a < 2 ^ 128)"

lemma be_bytes_top: "take 8 (be_bytes 16 a) = be_bytes 8 (a div 2 ^ 64)"
proof -
  have "le_bytes (i + k) n = le_bytes i n @ le_bytes k (n div 256 ^ i)" for i k n :: nat
    by (induction i arbitrary: n) (simp_all add: div_mult2_eq)
  from this [of 8 8 a] show ?thesis by (simp add: be_bytes_def rev_drop [symmetric] take_rev)
qed

lemma probe_raw_site:
  assumes "valid_address a"
  shows "length (probe_raw a) = 9 \<and> \<not> all_zero (probe_raw a)"
    "probe_raw a = (case probe_site a of Inl v4 \<Rightarrow> [4] @ be_bytes 4 v4 @ replicate 4 0 | Inr net \<Rightarrow> [6] @ be_bytes 8 net)"
    "case probe_site a of Inl v4 \<Rightarrow> v4 < 256 ^ 4 | Inr net \<Rightarrow> net < 256 ^ 8"
  using assms by (cases a; auto simp: all_zero_def ipv4_mapped_def be_bytes_top div_less_iff_less_mult split: option.split if_splits)+

lemma probe_raw_iff:
  assumes "valid_address a" "valid_address b"
  shows "probe_raw a = probe_raw b \<longleftrightarrow> probe_site a = probe_site b"
  unfolding probe_raw_site(2) [OF assms(1)] probe_raw_site(2) [OF assms(2)]
  using probe_raw_site(3) [OF assms(1)] probe_raw_site(3) [OF assms(2)]
  by (auto simp: be_bytes_inject split: sum.splits)

text \<open>
  One host, one bare-metal id.  Every address has a fingerprint, and two addresses have the same one exactly when
  they are the same IPv4 address (plain or mapped into IPv6) or lie in the same IPv6 /64, unless SHA-256 collides
  on their two payloads.
\<close>

lemma probe_fingerprint_exact:
  assumes "valid_address a" "valid_address b"
  shows "\<exists>x y. probe_fingerprint (Some a) = Inr x \<and> probe_fingerprint (Some b) = Inr y \<and>
    (probe_site a = probe_site b \<longrightarrow> x = y) \<and>
    (x = y \<longrightarrow> probe_site a = probe_site b \<or>
      (hardware_id_payload ''probe_fingerprint'' (probe_raw a) \<noteq> hardware_id_payload ''probe_fingerprint'' (probe_raw b) \<and>
       sha256 (hardware_id_payload ''probe_fingerprint'' (probe_raw a)) = sha256 (hardware_id_payload ''probe_fingerprint'' (probe_raw b))))"
  using probe_raw_site(1) [OF assms(1)] probe_raw_site(1) [OF assms(2)] probe_raw_iff [OF assms]
  by (auto simp: probe_fingerprint_def derive_hardware_id_def RAW_ID_BYTES_def hardware_id_payload_def)

lemma probe_fingerprint_exact_witness:
  "\<exists>x. probe_fingerprint (Some (IPv4Address 134744072)) = Inr x \<and> probe_fingerprint (Some (IPv6Address 281470816487432)) = Inr x"
proof -
  have "probe_site (IPv4Address 134744072) = probe_site (IPv6Address 281470816487432)"
    "valid_address (IPv4Address 134744072)" "valid_address (IPv6Address 281470816487432)"
    by (simp_all add: ipv4_mapped_def)
  with probe_fingerprint_exact [of "IPv4Address 134744072" "IPv6Address 281470816487432"] show ?thesis by blast
qed

lemma hardware_id_binds_witness:
  "\<exists>h. derive_hardware_id ''tdx_platform'' (replicate 32 1) = Inr h \<and>
     ((''tdx_platform'' = ''tdx_platform'' \<and> replicate 32 (1 :: byte) = replicate 32 1) \<or>
      hardware_id_payload ''tdx_platform'' (replicate 32 1) \<noteq> hardware_id_payload ''tdx_platform'' (replicate 32 1))"
proof -
  have h: "derive_hardware_id ''tdx_platform'' (replicate 32 1) =
      Inr (hex_of (sha256 (hardware_id_payload ''tdx_platform'' (replicate 32 1))))"
    by (simp add: derive_hardware_id_Inr RAW_ID_BYTES_def all_zero_def list_all_iff)
  from hardware_id_binds [OF h h] h show ?thesis by blast
qed

section \<open>Auditing\<close>

lemma length_utf8_le: "length (utf8 s) \<le> 2 * length s"
  by (induction s) (auto simp: utf8_def utf8_char_def Let_def)

lemma expected_report_data_Inr:
  assumes "check_body body = Inr v" "vr_evidence v = Some ev"
  shows "\<exists>rd. expected_report_data v = Inr rd \<and> length rd = 64 \<and>
    report_data_v2 (hex_bytes (re_attestation_nonce ev)) (vr_miner_hotkey v)
      \<lparr>binding_type = TLS_SPKI_SHA256, cb_digest = hex_bytes (re_tls_spki_sha256 ev)\<rparr> = Inr rd"
proof -
  let ?b = "\<lparr>binding_type = TLS_SPKI_SHA256, cb_digest = hex_bytes (re_tls_spki_sha256 ev)\<rparr>"
  have e: "is_hex64 (re_tls_spki_sha256 ev)" "is_hex64 (re_attestation_nonce ev)"
    using check_evidence_Inr(2) [OF check_body_Inr(9) [OF assms(1)] assms(2)] by blast+
  have "is_ss58 (vr_miner_hotkey v)" using check_box_Inr(2) [OF check_body_Inr(2) [OF assms(1)]] .
  then have h: "vr_miner_hotkey v \<noteq> []" "length (vr_miner_hotkey v) \<le> 48" by (auto simp: is_ss58_def class_match_def)
  then have "length (utf8 (vr_miner_hotkey v)) \<le> 512" using length_utf8_le [of "vr_miner_hotkey v"] by linarith
  moreover have "wf_binding ?b" using length_hex_bytes [OF e(1)] by (simp add: wf_binding_def)
  ultimately have "report_data_v2 (hex_bytes (re_attestation_nonce ev)) (vr_miner_hotkey v) ?b = Inr (sha512 (REPORT_DATA_V2_DOMAIN @
    be_bytes 2 REPORT_DATA_V2_VERSION @ concat (map field_bytes (v2_fields (hex_bytes (re_attestation_nonce ev)) (vr_miner_hotkey v) ?b))))"
    using report_data_v2_total [OF length_hex_bytes [OF e(2)] h(1)] by blast
  then show ?thesis
    using length_hex_bytes [OF e(1)] assms(2) by (simp add: expected_report_data_def mk_ChannelBinding_def)
qed

section \<open>Adding and dropping the signature\<close>

lemma obj_at_simps: "obj_at [] k = JNull" "obj_get ((k', v) # kvs) k = (case obj_get kvs k of None \<Rightarrow> if k = k' then Some v else None | Some w \<Rightarrow> Some w)"
  by (simp_all add: obj_at_def obj_get_def map_add_def split: option.split)

lemma ascii_text_of [simp]: "ascii (text_of bs) = bs"
proof -
  have "of_char (char_of (unat b) :: char) = b" for b :: byte
  proof -
    have "(of_char (char_of (unat b) :: char) :: nat) = unat b" by (simp add: of_char_of)
    then show ?thesis by (metis unat_of_char word_unat_eq_iff)
  qed
  then show ?thesis by (simp add: ascii_def text_of_def o_def)
qed

lemma drop_signature_id: "''signature'' \<notin> obj_keys body \<Longrightarrow> drop_signature body = body"
  unfolding drop_signature_def obj_keys_def by (intro filter_True) force

lemma drop_signature_snoc: "''signature'' \<notin> obj_keys body \<Longrightarrow> drop_signature (body @ [(''signature'', s)]) = body"
  using drop_signature_id [of body] by (simp add: drop_signature_def)

end
