(* ===== verification/Pricing.thy ===== *)
theory Pricing
  imports Receipt
begin

text \<open>
  \<^verbatim>\<open>src/cathedral/capacity/pricing.py\<close>: the signed price table and the value of verified capacity.  A table is a
  JSON object, a dict; \<open>ed_sign\<close> and \<open>ed_verify\<close> are Ed25519, and a text that \<^verbatim>\<open>json.loads\<close> refuses is the
  input \<open>None\<close>.  The messages of errors that name bounds are shortened.
\<close>

section \<open>Tables\<close>

definition PRICE_SCHEMA :: string where "PRICE_SCHEMA = ''cathedral_capacity_price_table_v1''"
definition MAX_MICRO :: int where "MAX_MICRO = 10 ^ 12"
definition MAX_SEQUENCE :: int where "MAX_SEQUENCE = 2 ^ 63 - 1"
definition MAX_PROFILE_MEMORY_GIB :: int where "MAX_PROFILE_MEMORY_GIB = 4096"

definition is_profile_start :: "char \<Rightarrow> bool" where
  "is_profile_start c = (char_in_range 97 122 c \<or> char_in_range 48 57 c)"

definition is_profile :: "string \<Rightarrow> bool" where
  "is_profile s = (case s of
      [] \<Rightarrow> False
    | c # r \<Rightarrow> is_profile_start c \<and> class_match (\<lambda>c. is_profile_start c \<or> c \<in> set ''_-'') 0 31 r)"

definition is_currency :: "string \<Rightarrow> bool" where
  "is_currency = class_match (char_in_range 97 122) 3 8"

datatype PriceTableError = PriceTableError string

record Rate =
  vcpu_hour :: int
  gib_hour :: int

record Shape =
  sh_vcpus :: int
  sh_memory_gib :: int

record PriceTable =
  pt_currency :: string
  pt_rates :: "(string \<times> Rate) list"
  pt_consumer_profiles :: "(string \<times> Shape) list"
  pt_effective_from :: civil
  pt_key_id :: string
  pt_sequence :: int
  pt_digest :: string

definition fits_any_profile :: "PriceTable \<Rightarrow> int \<Rightarrow> int \<Rightarrow> bool" where
  "fits_any_profile t vcpus memory_gib =
     list_ex (\<lambda>(name, shape). vcpus \<ge> sh_vcpus shape \<and> memory_gib \<ge> sh_memory_gib shape) (pt_consumer_profiles t)"

definition table_value :: "PriceTable \<Rightarrow> string \<Rightarrow> int \<Rightarrow> int \<Rightarrow> PriceTableError + int" where
  "table_value t kind vcpus memory_gib = (case map_of (pt_rates t) kind of
      None \<Rightarrow> Inl (PriceTableError (''no rate for box kind '' @ kind))
    | Some rate \<Rightarrow>
        if vcpus < 1 then Inl (PriceTableError ''vcpus must be a positive integer'')
        else if memory_gib < 1 then Inl (PriceTableError ''memory_gib must be a positive integer'')
        else if \<not> fits_any_profile t vcpus memory_gib then Inr 0
        else Inr (vcpus * vcpu_hour rate + memory_gib * gib_hour rate))"

section \<open>Reading a table\<close>

definition int_between :: "int \<Rightarrow> int \<Rightarrow> json \<Rightarrow> string \<Rightarrow> PriceTableError + int" where
  "int_between lo hi v msg = (case v of
      JInt i \<Rightarrow> if lo \<le> i \<and> i \<le> hi then Inr i else Inl (PriceTableError msg)
    | _ \<Rightarrow> Inl (PriceTableError msg))"

definition micro :: "json \<Rightarrow> string \<Rightarrow> PriceTableError + int" where
  "micro v name = int_between 0 MAX_MICRO v (name @ '' must be an integer from 0 to 1000000000000'')"

definition price_object :: "(string set \<Rightarrow> bool) \<Rightarrow> json \<Rightarrow> string \<Rightarrow> PriceTableError + (string \<times> json) list" where
  "price_object p v msg = (case v of
      JObj kvs \<Rightarrow> if p (obj_keys kvs) then Inr kvs else Inl (PriceTableError msg)
    | _ \<Rightarrow> Inl (PriceTableError msg))"

definition price_text :: "(string \<Rightarrow> bool) \<Rightarrow> json \<Rightarrow> string \<Rightarrow> PriceTableError + string" where
  "price_text p v msg = (case v of
      JStr s \<Rightarrow> if p s then Inr s else Inl (PriceTableError msg)
    | _ \<Rightarrow> Inl (PriceTableError msg))"

definition table_digest :: "(string \<times> json) list \<Rightarrow> string" where
  "table_digest table = hex_of (sha256 (json_canonical_bytes (JObj (drop_signature table))))"

fun read_rates :: "(string \<times> json) list \<Rightarrow> PriceTableError + (string \<times> Rate) list" where
  "read_rates [] = Inr []"
| "read_rates ((kind, v) # rest) =
     bindE (price_object (\<lambda>ks. ks = {''vcpu_hour'', ''gib_hour''}) v (''rate '' @ kind @ '' must have vcpu_hour and gib_hour'')) (\<lambda>rate.
     bindE (micro (obj_at rate ''vcpu_hour'') (kind @ ''.vcpu_hour'')) (\<lambda>a.
     bindE (micro (obj_at rate ''gib_hour'') (kind @ ''.gib_hour'')) (\<lambda>b.
     bindE (read_rates rest) (\<lambda>r. Inr ((kind, \<lparr>vcpu_hour = a, gib_hour = b\<rparr>) # r)))))"

fun read_profiles :: "(string \<times> json) list \<Rightarrow> PriceTableError + (string \<times> Shape) list" where
  "read_profiles [] = Inr []"
| "read_profiles ((name, v) # rest) =
     bindE (ensure (is_profile name) (PriceTableError ''consumer profile names are short lowercase identifiers'')) (\<lambda>_.
     bindE (price_object (\<lambda>ks. ks = {''min_vcpus'', ''min_memory_gib''}) v
              (''profile '' @ name @ '' must have min_vcpus and min_memory_gib'')) (\<lambda>shape.
     bindE (int_between 1 (int MAX_LANES) (obj_at shape ''min_vcpus'') (''profile '' @ name @ '' min_vcpus is out of bounds'')) (\<lambda>a.
     bindE (int_between 1 MAX_PROFILE_MEMORY_GIB (obj_at shape ''min_memory_gib'')
              (''profile '' @ name @ '' min_memory_gib is out of bounds'')) (\<lambda>b.
     bindE (read_profiles rest) (\<lambda>r. Inr ((name, \<lparr>sh_vcpus = a, sh_memory_gib = b\<rparr>) # r))))))"

definition price_body :: "(string \<times> json) list \<Rightarrow> PriceTableError + PriceTable" where
  "price_body table =
     bindE (ensure (obj_keys table = {''schema'', ''currency'', ''rates'', ''consumer_profiles'', ''effective_from'', ''key_id'', ''sequence''})
              (PriceTableError ''price table has the wrong fields'')) (\<lambda>_.
     bindE (ensure (obj_at table ''schema'' = JStr PRICE_SCHEMA) (PriceTableError ''price table schema is unsupported'')) (\<lambda>_.
     bindE (price_text is_currency (obj_at table ''currency'') ''currency must be a short lowercase code, such as usd'') (\<lambda>currency.
     bindE (price_object (\<lambda>ks. ks = set BOX_KINDS) (obj_at table ''rates'') ''rates must price exactly tee and bare_metal'') (\<lambda>rates_in.
     bindE (read_rates rates_in) (\<lambda>rates.
     bindE (price_object (\<lambda>ks. ks \<noteq> {}) (obj_at table ''consumer_profiles'') ''consumer_profiles must name at least one consumer'') (\<lambda>profiles_in.
     bindE (read_profiles profiles_in) (\<lambda>profiles.
     bindE (price_text (shape_match TIME_SHAPE) (obj_at table ''effective_from'') ''effective_from must be YYYY-MM-DDTHH:MM:SSZ'') (\<lambda>effective.
     bindE (ensure (valid_civil (strptime_z effective)) (PriceTableError ''effective_from is not a real date and time'')) (\<lambda>_.
     bindE (price_text is_key_id (obj_at table ''key_id'') ''key_id is malformed'') (\<lambda>key_id.
     bindE (int_between 1 MAX_SEQUENCE (obj_at table ''sequence'') ''sequence must be an integer from 1 to 9223372036854775807'') (\<lambda>sequence.
       Inr \<lparr>pt_currency = currency, pt_rates = rates, pt_consumer_profiles = profiles, pt_effective_from = strptime_z effective,
         pt_key_id = key_id, pt_sequence = sequence, pt_digest = table_digest table\<rparr>)))))))))))"

definition sign_price_table :: "('sk \<Rightarrow> bytes \<Rightarrow> bytes) \<Rightarrow> (string \<times> json) list \<Rightarrow> 'sk \<Rightarrow> PriceTableError + json" where
  "sign_price_table ed_sign table private_key =
     bindE (price_body table) (\<lambda>_.
       Inr (JObj (table @ [(''signature'',
         JStr (text_of (b64encode (ed_sign private_key (json_canonical_bytes (JObj table))))))])))"

definition load_price_table ::
  "('pk \<Rightarrow> bytes \<Rightarrow> bytes \<Rightarrow> bool) \<Rightarrow> (string \<rightharpoonup> 'pk) \<Rightarrow> json option \<Rightarrow> civil \<Rightarrow> int \<Rightarrow> string option \<Rightarrow> PriceTableError + PriceTable" where
  "load_price_table ed_verify owner_keys signed_table now minimum_sequence pinned_digest =
     bindE (ensure (utc_offset now \<noteq> None) (PriceTableError ''now must be a timezone-aware datetime'')) (\<lambda>_.
     bindE (ensure (\<not> minimum_sequence < 1) (PriceTableError ''minimum_sequence must be a positive integer'')) (\<lambda>_.
     bindE (ensure (case pinned_digest of None \<Rightarrow> True | Some d \<Rightarrow> is_hex64 d)
              (PriceTableError ''pinned_digest must be 64 lowercase hex characters'')) (\<lambda>_.
     bindE (of_option (PriceTableError ''price table is not JSON'') signed_table) (\<lambda>v.
     bindE (price_object (\<lambda>ks. ''signature'' \<in> ks) v ''price table is not a signed object'') (\<lambda>kvs.
     let body = drop_signature kvs in
     bindE (price_body body) (\<lambda>table.
     bindE (of_option (PriceTableError ''price table is signed by an unknown key'') (owner_keys (pt_key_id table))) (\<lambda>key.
     bindE (ensure (signature_ok ed_verify key (obj_at kvs ''signature'') (json_canonical_bytes (JObj body)))
              (PriceTableError ''price table signature does not verify'')) (\<lambda>_.
     bindE (ensure (\<not> instant (pt_effective_from table) > instant now) (PriceTableError ''price table is not effective yet'')) (\<lambda>_.
     bindE (ensure (\<not> pt_sequence table < minimum_sequence) (PriceTableError ''price table is older than one already verified'')) (\<lambda>_.
     bindE (ensure (case pinned_digest of
                None \<Rightarrow> True
              | Some d \<Rightarrow> \<not> (pt_sequence table = minimum_sequence \<and> pt_digest table \<noteq> d))
              (PriceTableError ''price table differs from the one pinned at its sequence'')) (\<lambda>_.
       Inr table)))))))))))"

section \<open>What a loaded table is\<close>

lemma int_between_Inr [simp]: "int_between lo hi v msg = Inr i \<longleftrightarrow> v = JInt i \<and> lo \<le> i \<and> i \<le> hi"
  by (auto simp: int_between_def split: json.splits if_splits)

lemma price_object_Inr [simp]: "price_object p v msg = Inr kvs \<longleftrightarrow> v = JObj kvs \<and> p (obj_keys kvs)"
  by (auto simp: price_object_def split: json.splits if_splits)

lemma price_text_Inr [simp]: "price_text p v msg = Inr s \<longleftrightarrow> v = JStr s \<and> p s"
  by (auto simp: price_text_def split: json.splits if_splits)

lemma read_rates_Inr:
  "read_rates kvs = Inr rs \<Longrightarrow> map fst rs = map fst kvs \<and>
     (\<forall>(k, r) \<in> set rs. 0 \<le> vcpu_hour r \<and> vcpu_hour r \<le> MAX_MICRO \<and> 0 \<le> gib_hour r \<and> gib_hour r \<le> MAX_MICRO)"
  by (induction kvs arbitrary: rs rule: read_rates.induct) (fastforce simp: micro_def)+

lemma read_profiles_Inr:
  "read_profiles kvs = Inr ps \<Longrightarrow> map fst ps = map fst kvs \<and>
     (\<forall>(k, s) \<in> set ps. 1 \<le> sh_vcpus s \<and> sh_vcpus s \<le> 1024 \<and> 1 \<le> sh_memory_gib s \<and> sh_memory_gib s \<le> 4096)"
  by (induction kvs arbitrary: ps rule: read_profiles.induct) (fastforce simp: MAX_LANES_def MAX_PROFILE_MEMORY_GIB_def)+

lemma price_body_Inr:
  assumes "price_body kvs = Inr t"
  shows "set (map fst (pt_rates t)) = {''tee'', ''bare_metal''}"
    "\<forall>(k, r) \<in> set (pt_rates t). 0 \<le> vcpu_hour r \<and> vcpu_hour r \<le> MAX_MICRO \<and> 0 \<le> gib_hour r \<and> gib_hour r \<le> MAX_MICRO"
    "pt_consumer_profiles t \<noteq> []" "1 \<le> pt_sequence t" "pt_sequence t \<le> MAX_SEQUENCE" "pt_digest t = table_digest kvs"
    "obj_at kvs ''key_id'' = JStr (pt_key_id t)"
proof -
  obtain rates_in profiles_in where r: "read_rates rates_in = Inr (pt_rates t)" "obj_keys rates_in = set BOX_KINDS"
    and p: "read_profiles profiles_in = Inr (pt_consumer_profiles t)" "obj_keys profiles_in \<noteq> {}"
    and t: "1 \<le> pt_sequence t" "pt_sequence t \<le> MAX_SEQUENCE" "pt_digest t = table_digest kvs" "obj_at kvs ''key_id'' = JStr (pt_key_id t)"
    using assms by (clarsimp simp: price_body_def)
  show "1 \<le> pt_sequence t" "pt_sequence t \<le> MAX_SEQUENCE" "pt_digest t = table_digest kvs" "obj_at kvs ''key_id'' = JStr (pt_key_id t)"
    using t by simp_all
  show "set (map fst (pt_rates t)) = {''tee'', ''bare_metal''}"
    using read_rates_Inr [OF r(1), THEN conjunct1] r(2) by (simp only: obj_keys_def BOX_KINDS_def list.set)
  show "\<forall>(k, r) \<in> set (pt_rates t). 0 \<le> vcpu_hour r \<and> vcpu_hour r \<le> MAX_MICRO \<and> 0 \<le> gib_hour r \<and> gib_hour r \<le> MAX_MICRO"
    using read_rates_Inr [OF r(1)] by blast
  show "pt_consumer_profiles t \<noteq> []"
    using read_profiles_Inr [OF p(1), THEN conjunct1] p(2) by (auto simp: obj_keys_def)
qed

lemma load_price_table_Inr:
  assumes "load_price_table ed_verify owner_keys signed_table now lo pin = Inr t"
  shows "\<exists>kvs key. signed_table = Some (JObj kvs) \<and> price_body (drop_signature kvs) = Inr t \<and> owner_keys (pt_key_id t) = Some key \<and>
    signature_ok ed_verify key (obj_at kvs ''signature'') (json_canonical_bytes (JObj (drop_signature kvs))) \<and>
    instant (pt_effective_from t) \<le> instant now \<and> lo \<le> pt_sequence t \<and>
    (\<forall>d. pin = Some d \<longrightarrow> pt_sequence t = lo \<longrightarrow> pt_digest t = d)"
  using assms by (clarsimp simp: load_price_table_def Let_def split: option.splits)

lemma drop_signature_twice [simp]: "drop_signature (drop_signature kvs) = drop_signature kvs"
  by (simp add: drop_signature_def)

section \<open>A validator that keeps the sequence and the digest\<close>

text \<open>
  The protocol that \<^verbatim>\<open>load_price_table\<close> documents: the validator passes the sequence and the digest of the table
  that it accepted last, and no digest on the first load.  The history holds the newest table first.
\<close>

record price_state =
  ps_sequence :: int
  ps_digest :: "string option"
  ps_history :: "PriceTable list"

definition price_start :: "price_state \<Rightarrow> bool" where
  "price_start st = (ps_digest st = None \<and> ps_history st = [])"

inductive price_step :: "('pk \<Rightarrow> bytes \<Rightarrow> bytes \<Rightarrow> bool) \<Rightarrow> (string \<rightharpoonup> 'pk) \<Rightarrow> price_state \<Rightarrow> price_state \<Rightarrow> bool"
  for ed_verify owner_keys where
  load: "load_price_table ed_verify owner_keys doc now (ps_sequence st) (ps_digest st) = Inr t \<Longrightarrow>
    price_step ed_verify owner_keys st
      (st\<lparr>ps_sequence := pt_sequence t, ps_digest := Some (pt_digest t), ps_history := t # ps_history st\<rparr>)"
| refuse: "price_step ed_verify owner_keys st st"

inductive_cases price_stepE: "price_step ed_verify owner_keys st st'"

definition supersedes :: "PriceTable \<Rightarrow> PriceTable \<Rightarrow> bool" where
  "supersedes new old = (pt_sequence old \<le> pt_sequence new \<and> (pt_sequence old = pt_sequence new \<longrightarrow> pt_digest old = pt_digest new))"

definition price_inv :: "price_state \<Rightarrow> bool" where
  "price_inv st = (sorted_wrt supersedes (ps_history st) \<and>
     (case ps_history st of [] \<Rightarrow> True | t # _ \<Rightarrow> ps_sequence st = pt_sequence t \<and> ps_digest st = Some (pt_digest t)))"

lemma supersedes_trans: "supersedes a b \<Longrightarrow> supersedes b c \<Longrightarrow> supersedes a c"
  by (auto simp: supersedes_def)

lemma price_inv_step:
  assumes "price_inv st" "price_step ed_verify owner_keys st st'"
  shows "price_inv st'"
  using assms(2)
proof (cases rule: price_step.cases)
  case (load doc now t)
  note l = load_price_table_Inr [OF load(2)]
  show ?thesis
  proof (cases "ps_history st")
    case Nil
    then show ?thesis by (simp add: load(1) price_inv_def)
  next
    case (Cons u rest)
    then have u: "ps_sequence st = pt_sequence u" "ps_digest st = Some (pt_digest u)" "sorted_wrt supersedes (u # rest)"
      using assms(1) by (simp_all add: price_inv_def)
    have "supersedes t u" using l u(1,2) by (auto simp: supersedes_def)
    then have "sorted_wrt supersedes (t # u # rest)" using u(3) supersedes_trans by auto
    then show ?thesis by (simp add: load(1) price_inv_def Cons)
  qed
qed (use assms(1) in simp)

interpretation price_run: invariant_system price_start "price_step ed_verify owner_keys" price_inv for ed_verify owner_keys
proof
  show "price_inv st" if "price_start st" for st using that by (simp add: price_start_def price_inv_def)
  show "price_inv t" if "price_inv s" "price_step ed_verify owner_keys s t" for s t by (rule price_inv_step [OF that])
qed

text \<open>
  C17: prices never roll back.  Over any sequence of loads, whatever tables are served and at whatever times, every table that
  a validator accepts has at least the sequence of each table it accepted before, and the same digest where the
  sequence is the same.
\<close>

theorem price_tables_never_roll_back:
  assumes "reach price_start (price_step ed_verify owner_keys) st" "i < j" "j < length (ps_history st)"
  shows "pt_sequence (ps_history st ! j) \<le> pt_sequence (ps_history st ! i) \<and>
    (pt_sequence (ps_history st ! j) = pt_sequence (ps_history st ! i) \<longrightarrow>
       pt_digest (ps_history st ! j) = pt_digest (ps_history st ! i))"
proof -
  have "sorted_wrt supersedes (ps_history st)" using price_run.reach_inv [OF assms(1)] by (simp add: price_inv_def)
  with sorted_wrt_nth_less assms(2,3) show ?thesis by (fastforce simp: supersedes_def)
qed

text \<open>
  A pinned table cannot be swapped.  A table that is accepted at the pinned sequence is the pinned table, up to the order
  of its members and its signature, unless SHA-256 collides on the canonical bytes of the two.
\<close>

lemma pinned_table_fixed:
  assumes "load_price_table ed_verify owner_keys (Some (JObj kvs)) now lo (Some (table_digest pinned)) = Inr t"
    and "pt_sequence t = lo" "plain_json (JObj kvs)" "plain_json (JObj pinned)"
  shows "canon (JObj (drop_signature kvs)) = canon (JObj (drop_signature pinned)) \<or>
    (json_canonical_bytes (JObj (drop_signature kvs)) \<noteq> json_canonical_bytes (JObj (drop_signature pinned)) \<and>
     sha256 (json_canonical_bytes (JObj (drop_signature kvs))) = sha256 (json_canonical_bytes (JObj (drop_signature pinned))))"
proof -
  have t: "price_body (drop_signature kvs) = Inr t" "pt_digest t = table_digest pinned"
    using load_price_table_Inr [OF assms(1)] assms(2) by auto
  have d: "table_digest (drop_signature kvs) = table_digest pinned" using price_body_Inr(6) [OF t(1)] t(2) by simp
  have plain: "plain_json (JObj (drop_signature x))" if "plain_json (JObj x)" for x
    using that by (auto simp: drop_signature_def list_all_iff distinct_map_filter)
  show ?thesis
  proof (cases "json_canonical_bytes (JObj (drop_signature kvs)) = json_canonical_bytes (JObj (drop_signature pinned))")
    case True
    then have "dumps_utf8 (\<lambda>_. []) (JObj (drop_signature kvs)) = dumps_utf8 (\<lambda>_. []) (JObj (drop_signature pinned))"
      by (simp only: json_canonical_bytes_def utf8_inject)
    from utf8_literal.dumps_inject [OF plain [OF assms(3)] plain [OF assms(4)] this] show ?thesis by blast
  next
    case False
    with d show ?thesis by (simp add: table_digest_def)
  qed
qed

section \<open>Values\<close>

lemma table_value_total:
  assumes "price_body kvs = Inr t" "kind \<in> set BOX_KINDS" "1 \<le> v" "1 \<le> m"
  shows "\<exists>n. table_value t kind v m = Inr n \<and> 0 \<le> n \<and> n \<le> (v + m) * MAX_MICRO \<and> (n \<noteq> 0 \<longrightarrow> fits_any_profile t v m)"
proof -
  have "kind \<in> set (map fst (pt_rates t))" using price_body_Inr(1) [OF assms(1)] assms(2) by (simp add: BOX_KINDS_def)
  then obtain r where r: "map_of (pt_rates t) kind = Some r" by (cases "map_of (pt_rates t) kind") (auto simp: map_of_eq_None_iff)
  then have "(kind, r) \<in> set (pt_rates t)" by (rule map_of_SomeD)
  then have b: "0 \<le> vcpu_hour r" "vcpu_hour r \<le> MAX_MICRO" "0 \<le> gib_hour r" "gib_hour r \<le> MAX_MICRO"
    using price_body_Inr(2) [OF assms(1)] by auto
  have "v * vcpu_hour r \<le> v * MAX_MICRO" "m * gib_hour r \<le> m * MAX_MICRO" using b assms(3,4) by (simp_all add: mult_left_mono)
  then have "v * vcpu_hour r + m * gib_hour r \<le> (v + m) * MAX_MICRO" by (simp add: distrib_right)
  moreover have "0 \<le> (v + m) * MAX_MICRO" using assms(3,4) by (simp add: MAX_MICRO_def)
  ultimately show ?thesis using b assms(3,4) r by (simp add: table_value_def)
qed

lemma table_value_mono:
  assumes "price_body kvs = Inr t" "v \<le> v'" "m \<le> m'" "table_value t kind v m = Inr n" "table_value t kind v' m' = Inr n'"
  shows "n \<le> n'"
proof -
  obtain r where r: "map_of (pt_rates t) kind = Some r" using assms(4) by (auto simp: table_value_def split: option.splits)
  have b: "0 \<le> vcpu_hour r" "0 \<le> gib_hour r" using price_body_Inr(2) [OF assms(1)] map_of_SomeD [OF r] by auto
  have fits: "fits_any_profile t v m \<Longrightarrow> fits_any_profile t v' m'"
    using assms(2,3) by (auto simp: fits_any_profile_def list_ex_iff) force
  have "v * vcpu_hour r \<le> v' * vcpu_hour r" "m * gib_hour r \<le> m' * gib_hour r" using b assms(2,3) by (simp_all add: mult_right_mono)
  moreover have "1 \<le> v'" "1 \<le> m'" using assms(5) r by (simp_all add: table_value_def split: if_splits)
  then have "0 \<le> v' * vcpu_hour r" "0 \<le> m' * gib_hour r" using b by simp_all
  ultimately show ?thesis using assms(4,5) fits r by (simp add: table_value_def split: if_splits)
qed

section \<open>Signing and loading\<close>

lemma signed_table_loads:
  assumes "\<forall>m. ed_verify pk (ed_sign sk m) m" "price_body table = Inr t" "owner_keys (pt_key_id t) = Some pk"
    and "utc_offset now \<noteq> None" "instant (pt_effective_from t) \<le> instant now" "1 \<le> lo" "lo \<le> pt_sequence t"
    and "case pin of None \<Rightarrow> True | Some d \<Rightarrow> is_hex64 d \<and> (pt_sequence t = lo \<longrightarrow> pt_digest t = d)"
  shows "\<exists>doc. sign_price_table ed_sign table sk = Inr doc \<and> load_price_table ed_verify owner_keys (Some doc) now lo pin = Inr t"
proof -
  let ?sig = "JStr (text_of (b64encode (ed_sign sk (json_canonical_bytes (JObj table)))))"
  let ?kvs = "table @ [(''signature'', ?sig)]"
  have "''signature'' \<notin> obj_keys table" using assms(2) by (clarsimp simp: price_body_def)
  then have d: "drop_signature ?kvs = table" by (rule drop_signature_snoc)
  have sg: "obj_at ?kvs ''signature'' = ?sig" by (simp add: obj_at_def obj_get_snoc)
  have ok: "signature_ok ed_verify pk ?sig (json_canonical_bytes (JObj table))" using assms(1) by (simp add: signature_ok_def)
  have obj: "price_object (\<lambda>ks. ''signature'' \<in> ks) (JObj ?kvs) ''price table is not a signed object'' = Inr ?kvs"
    by (simp add: obj_keys_def)
  have "load_price_table ed_verify owner_keys (Some (JObj ?kvs)) now lo pin = Inr t"
    unfolding load_price_table_def Let_def of_option_def option.case bindE.simps obj d assms(2,3) sg
    using ok assms(4-8) by (simp add: ensure_def split: option.splits)
  with assms(2) show ?thesis by (simp add: sign_price_table_def)
qed

definition sample_table :: "int \<Rightarrow> (string \<times> json) list" where
  "sample_table sq = [(''schema'', JStr PRICE_SCHEMA), (''currency'', JStr ''usd''),
     (''rates'', JObj [(''tee'', JObj [(''vcpu_hour'', JInt 20000), (''gib_hour'', JInt 5000)]),
                       (''bare_metal'', JObj [(''vcpu_hour'', JInt 10000), (''gib_hour'', JInt 2500)])]),
     (''consumer_profiles'', JObj [(''sn81'', JObj [(''min_vcpus'', JInt 1), (''min_memory_gib'', JInt 1)])]),
     (''effective_from'', JStr ''2025-01-01T00:00:00Z''), (''key_id'', JStr ''owner-1''), (''sequence'', JInt sq)]"

definition sample_prices :: "int \<Rightarrow> PriceTable" where
  "sample_prices sq = \<lparr>pt_currency = ''usd'',
     pt_rates = [(''tee'', \<lparr>vcpu_hour = 20000, gib_hour = 5000\<rparr>), (''bare_metal'', \<lparr>vcpu_hour = 10000, gib_hour = 2500\<rparr>)],
     pt_consumer_profiles = [(''sn81'', \<lparr>sh_vcpus = 1, sh_memory_gib = 1\<rparr>)],
     pt_effective_from = strptime_z ''2025-01-01T00:00:00Z'', pt_key_id = ''owner-1'', pt_sequence = sq,
     pt_digest = table_digest (sample_table sq)\<rparr>"

lemma sample_effective:
  "strptime_z ''2025-01-01T00:00:00Z'' = \<lparr>c_year = 2025, c_month = 1, c_day = 1, c_hour = 0, c_minute = 0, c_second = 0,
     c_microsecond = 0, utc_offset = Some 0\<rparr>"
  by (simp add: strptime_z_def two_def slice_def read_nat_def digit_value_def)

lemma sample_table_body:
  assumes "1 \<le> sq" "sq \<le> MAX_SEQUENCE"
  shows "price_body (sample_table sq) = Inr (sample_prices sq)"
proof -
  have at': "obj_at (sample_table sq) ''schema'' = JStr PRICE_SCHEMA" "obj_at (sample_table sq) ''currency'' = JStr ''usd''"
    "obj_at (sample_table sq) ''rates'' = JObj [(''tee'', JObj [(''vcpu_hour'', JInt 20000), (''gib_hour'', JInt 5000)]),
                       (''bare_metal'', JObj [(''vcpu_hour'', JInt 10000), (''gib_hour'', JInt 2500)])]"
    "obj_at (sample_table sq) ''consumer_profiles'' = JObj [(''sn81'', JObj [(''min_vcpus'', JInt 1), (''min_memory_gib'', JInt 1)])]"
    "obj_at (sample_table sq) ''effective_from'' = JStr ''2025-01-01T00:00:00Z''"
    "obj_at (sample_table sq) ''key_id'' = JStr ''owner-1''" "obj_at (sample_table sq) ''sequence'' = JInt sq"
    by (simp_all add: sample_table_def obj_at_def obj_at_simps)
  have keys: "obj_keys (sample_table sq) = {''schema'', ''currency'', ''rates'', ''consumer_profiles'', ''effective_from'', ''key_id'', ''sequence''}"
    by (simp add: sample_table_def obj_keys_def)
  have syn: "is_currency ''usd''" "is_key_id ''owner-1''" "shape_match TIME_SHAPE ''2025-01-01T00:00:00Z''" "is_profile ''sn81''"
    by (simp_all add: is_currency_def is_key_id_def class_match_def char_in_range_def is_name_char_def is_alnum_def shape_match_def
        TIME_SHAPE_def is_digit_def is_profile_def is_profile_start_def)
  have valid: "valid_civil (strptime_z ''2025-01-01T00:00:00Z'')"
    by (simp add: sample_effective valid_civil_def days_in_month_def)
  let ?rates = "[(''tee'', JObj [(''vcpu_hour'', JInt 20000), (''gib_hour'', JInt 5000)]),
    (''bare_metal'', JObj [(''vcpu_hour'', JInt 10000), (''gib_hour'', JInt 2500)])]"
  let ?profiles = "[(''sn81'', JObj [(''min_vcpus'', JInt 1), (''min_memory_gib'', JInt 1)])]"
  have rates: "read_rates ?rates = Inr (pt_rates (sample_prices sq))" "obj_keys ?rates = set BOX_KINDS"
    by (simp_all add: obj_keys_def obj_at_def obj_at_simps micro_def MAX_MICRO_def sample_prices_def BOX_KINDS_def)
  have profiles: "read_profiles ?profiles = Inr (pt_consumer_profiles (sample_prices sq))" "obj_keys ?profiles \<noteq> {}"
    using syn(4) by (simp_all add: obj_keys_def obj_at_def obj_at_simps MAX_LANES_def MAX_PROFILE_MEMORY_GIB_def sample_prices_def)
  show ?thesis
    unfolding price_body_def keys at' using assms syn(1-3) valid rates profiles by (simp add: sample_prices_def)
qed

definition price_now :: civil where
  "price_now = \<lparr>c_year = 2026, c_month = 1, c_day = 1, c_hour = 0, c_minute = 0, c_second = 0, c_microsecond = 0, utc_offset = Some 0\<rparr>"

lemma sample_table_loads:
  assumes "1 \<le> lo" "lo \<le> sq" "sq \<le> MAX_SEQUENCE" "case pin of None \<Rightarrow> True | Some d \<Rightarrow> is_hex64 d \<and> (lo < sq \<or> d = table_digest (sample_table sq))"
  shows "\<exists>doc. sign_price_table (\<lambda>_ m. m) (sample_table sq) () = Inr doc \<and>
    load_price_table (\<lambda>_ s m. s = m) [''owner-1'' \<mapsto> ()] (Some doc) price_now lo pin = Inr (sample_prices sq)"
proof -
  have b: "price_body (sample_table sq) = Inr (sample_prices sq)" using assms by (intro sample_table_body) simp_all
  have t: "instant (pt_effective_from (sample_prices sq)) \<le> instant price_now"
    by (simp add: sample_prices_def sample_effective price_now_def instant_def wall_micros_def day_number_def days_before_year_def
        days_before_month_def)
  show ?thesis
    by (rule signed_table_loads [where pk = "()", OF _ b _ _ t assms(1)])
       (use assms(2,4) in \<open>auto simp: sample_prices_def price_now_def split: option.splits\<close>)
qed

lemma is_hex64_table_digest: "is_hex64 (table_digest kvs)"
  by (simp add: table_digest_def is_hex64_iff)

theorem price_tables_never_roll_back_witness:
  "\<exists>st. reach price_start (price_step (\<lambda>_ s m. s = m) [''owner-1'' \<mapsto> ()]) st \<and> ps_history st = [sample_prices 3, sample_prices 2] \<and>
     pt_sequence (ps_history st ! 1) \<le> pt_sequence (ps_history st ! 0)"
proof -
  let ?step = "price_step (\<lambda>_ s m. s = m) [''owner-1'' \<mapsto> ()]"
  let ?s0 = "\<lparr>ps_sequence = 1, ps_digest = None, ps_history = []\<rparr>"
  let ?s1 = "\<lparr>ps_sequence = 2, ps_digest = Some (pt_digest (sample_prices 2)), ps_history = [sample_prices 2]\<rparr>"
  let ?s2 = "\<lparr>ps_sequence = 3, ps_digest = Some (pt_digest (sample_prices 3)), ps_history = [sample_prices 3, sample_prices 2]\<rparr>"
  have sq: "pt_sequence (sample_prices n) = n" for n by (simp add: sample_prices_def)
  obtain d where d: "load_price_table (\<lambda>_ s m. s = m) [''owner-1'' \<mapsto> ()] (Some d) price_now 1 None = Inr (sample_prices 2)"
    using sample_table_loads [of 1 2 None] by (auto simp: MAX_SEQUENCE_def)
  have "is_hex64 (pt_digest (sample_prices 2))" by (simp add: sample_prices_def is_hex64_table_digest)
  then obtain e where e: "load_price_table (\<lambda>_ s m. s = m) [''owner-1'' \<mapsto> ()] (Some e) price_now 2 (Some (pt_digest (sample_prices 2))) =
      Inr (sample_prices 3)"
    using sample_table_loads [of 2 3 "Some (pt_digest (sample_prices 2))"] by (auto simp: MAX_SEQUENCE_def)
  have "reach price_start ?step ?s0" by (rule reach_start) (simp add: price_start_def)
  moreover have "?step ?s0 ?s1" using price_step.load [where st = ?s0] d by (force simp: sq)
  ultimately have "reach price_start ?step ?s1" by (rule reach_step)
  moreover have "?step ?s1 ?s2" using price_step.load [where st = ?s1] e by (force simp: sq)
  ultimately have r: "reach price_start ?step ?s2" by (rule reach_step)
  with price_tables_never_roll_back [OF r, of 0 1] show ?thesis by (intro exI [of _ ?s2]) simp
qed

lemma pinned_table_fixed_witness:
  "\<exists>kvs. load_price_table (\<lambda>_ s m. s = m) [''owner-1'' \<mapsto> ()] (Some (JObj kvs)) price_now 2 (Some (table_digest (sample_table 2))) =
      Inr (sample_prices 2) \<and>
     (canon (JObj (drop_signature kvs)) = canon (JObj (drop_signature (sample_table 2))) \<or>
      sha256 (json_canonical_bytes (JObj (drop_signature kvs))) = sha256 (json_canonical_bytes (JObj (drop_signature (sample_table 2)))))"
proof -
  obtain doc where d: "sign_price_table (\<lambda>_ m. m) (sample_table 2) () = Inr doc"
    "load_price_table (\<lambda>_ s m. s = m) [''owner-1'' \<mapsto> ()] (Some doc) price_now 2 (Some (table_digest (sample_table 2))) = Inr (sample_prices 2)"
    using sample_table_loads [of 2 2 "Some (table_digest (sample_table 2))"] is_hex64_table_digest by (auto simp: MAX_SEQUENCE_def)
  then obtain s where doc: "doc = JObj (sample_table 2 @ [(''signature'', JStr s)])" by (auto simp: sign_price_table_def)
  have "plain_json (JObj (sample_table 2 @ [(''signature'', JStr s)]))" "plain_json (JObj (sample_table 2))"
    by (simp_all add: sample_table_def)
  moreover have "pt_sequence (sample_prices 2) = 2" by (simp add: sample_prices_def)
  ultimately show ?thesis using pinned_table_fixed [OF d(2) [unfolded doc]] d(2) doc by blast
qed

end
