(* ===== verification/ReceiptProbe.thy ===== *)
theory ReceiptProbe
  imports Receipt
begin

text \<open>
  Completeness of the receipts: the body that \<^verbatim>\<open>make_body\<close> assembles from a successful probe passes
  \<^verbatim>\<open>_check_body\<close>, and what \<^verbatim>\<open>sign_receipt\<close> signs is accepted by \<^verbatim>\<open>verify_receipt\<close>.
\<close>

section \<open>Times on the wire\<close>

lemma shape_match_append: "length p = length s \<Longrightarrow> shape_match (p @ q) (s @ t) \<longleftrightarrow> shape_match p s \<and> shape_match q t"
  by (simp add: shape_match_def list_all2_append)

lemma shape_match_digits: "list_all is_digit s \<Longrightarrow> length s = n \<Longrightarrow> shape_match (replicate n (CHR ''d'')) s"
  by (auto simp: shape_match_def list_all2_conv_all_nth list_all_length)

lemma shape_match_char: "c \<noteq> CHR ''d'' \<Longrightarrow> shape_match (c # p) (c # s) \<longleftrightarrow> shape_match p s" "shape_match [] []"
  by (simp_all add: shape_match_def)

lemma TIME_SHAPE_parts:
  "TIME_SHAPE = replicate 4 (CHR ''d'') @ ''-'' @ replicate 2 (CHR ''d'') @ ''-'' @ replicate 2 (CHR ''d'') @ ''T'' @
     replicate 2 (CHR ''d'') @ '':'' @ replicate 2 (CHR ''d'') @ '':'' @ replicate 2 (CHR ''d'') @ ''Z''"
  by (simp add: TIME_SHAPE_def numeral_eq_Suc)

lemma time_text:
  assumes "length y = 4" "length mo = 2" "length d = 2" "length h = 2" "length mi = 2" "length sec = 2"
    and "list_all is_digit y" "list_all is_digit mo" "list_all is_digit d" "list_all is_digit h" "list_all is_digit mi" "list_all is_digit sec"
    and s: "s = y @ ''-'' @ mo @ ''-'' @ d @ ''T'' @ h @ '':'' @ mi @ '':'' @ sec @ ''Z''"
  shows "shape_match TIME_SHAPE s"
    "strptime_z s = \<lparr>c_year = read_nat y, c_month = read_nat mo, c_day = read_nat d, c_hour = read_nat h, c_minute = read_nat mi,
       c_second = read_nat sec, c_microsecond = 0, utc_offset = Some 0\<rparr>"
proof -
  show "shape_match TIME_SHAPE s"
    unfolding s TIME_SHAPE_parts using assms(1-12) by (simp add: shape_match_append shape_match_digits shape_match_char)
  show "strptime_z s = \<lparr>c_year = read_nat y, c_month = read_nat mo, c_day = read_nat d, c_hour = read_nat h, c_minute = read_nat mi,
       c_second = read_nat sec, c_microsecond = 0, utc_offset = Some 0\<rparr>"
    unfolding s strptime_z_def two_def slice_def using assms(1-6) by simp
qed

lemma iso_parses:
  assumes "FOUR_DIGIT_YEARS \<le> w" "w < MAX_WALL"
  shows "\<exists>s c. iso w = Inr s \<and> parse_time (JStr s) name = Inr c \<and> instant c = w - w mod 1000000 \<and>
    c = (civil_of_instant w)\<lparr>c_microsecond := 0\<rparr>"
proof -
  let ?d = "civil_of_instant w"
  let ?s = "show_nat (c_year ?d) @ ''-'' @ pad_nat 2 (c_month ?d) @ ''-'' @ pad_nat 2 (c_day ?d) @ ''T'' @
        pad_nat 2 (c_hour ?d) @ '':'' @ pad_nat 2 (c_minute ?d) @ '':'' @ pad_nat 2 (c_second ?d) @ ''Z''"
  have w: "0 \<le> w" using assms(1) unfolding FOUR_DIGIT_YEARS_def by linarith
  note c = civil_of_instant [OF w assms(2)]
  have v: "c_year ?d < 10000" "c_month ?d < 100" "c_day ?d < 100" "c_hour ?d < 100" "c_minute ?d < 100" "c_second ?d < 100"
    using c(1) by (auto simp: valid_civil_def days_in_month_def split: if_splits)
  have iso: "iso w = Inr ?s" using w assms(2) by (simp add: iso_def Let_def)
  have len: "length (show_nat (c_year ?d)) = 4" using length_show_nat [of 3 "c_year ?d"] four_digit_year [OF assms] v(1) by simp
  have z: "utc_offset ?d = Some 0" by (simp add: civil_of_instant_def Let_def)
  have t: "shape_match TIME_SHAPE ?s" "strptime_z ?s = ?d\<lparr>c_microsecond := 0\<rparr>"
    using time_text [OF len _ _ _ _ _ _ _ _ _ _ _ refl, of "pad_nat 2 (c_month ?d)" "pad_nat 2 (c_day ?d)"
        "pad_nat 2 (c_hour ?d)" "pad_nat 2 (c_minute ?d)" "pad_nat 2 (c_second ?d)"] v show_nat_digits [of "c_year ?d"]
    by (simp_all add: pad_nat_digits z [symmetric])
  have "valid_civil (?d\<lparr>c_microsecond := 0\<rparr>)" using c(1) by (simp add: valid_civil_def)
  moreover have "instant (?d\<lparr>c_microsecond := 0\<rparr>) = w - w mod 1000000"
  proof -
    have "instant (?d\<lparr>c_microsecond := 0\<rparr>) = instant ?d - int (c_microsecond ?d)"
      by (simp add: instant_def wall_micros_def day_number_def)
    also have "\<dots> = w - w mod 1000000" unfolding c(2,3) using w by (simp add: zmod_int)
    finally show ?thesis .
  qed
  ultimately show ?thesis using iso t by simp
qed

section \<open>A complete probe\<close>

text \<open>
  What the prober holds after a probe that succeeded: well-formed names, a challenge for the paid capacity, the sampled
  outputs that the nonce picks, times inside their bounds, and for a TEE box evidence that was checked.
\<close>

definition probe_names_ok :: "probe \<Rightarrow> bool" where
  "probe_names_ok p = (0 \<le> pr_netuid p \<and> 0 \<le> pr_round p \<and> is_hex64 (pr_validator_nonce p) \<and> is_key_id (pr_prober_key_id p) \<and>
     is_box_id (pr_box_id p) \<and> is_ss58 (pr_miner_hotkey p) \<and> is_hex64 (pr_hardware_id p) \<and>
     HARDWARE_ID_KINDS (pr_kind p, pr_tee_kind p) \<noteq> None)"

definition probe_sample_ok :: "probe \<Rightarrow> bool" where
  "probe_sample_ok p = (let sp = pr_challenge p in
     spec_for (cs_seed sp) (pr_vcpus p) (pr_memory_gib p) = Inr sp \<and>
     length (pr_result_digest p) = 32 \<and> length (pr_sample_nonce p) = 32 \<and>
     (case required_samples (cs_lanes sp) of Inl _ \<Rightarrow> False | Inr need \<Rightarrow> int need \<le> pr_sample_count p) \<and>
     pr_sample_count p \<le> int (cs_lanes sp) \<and>
     sample_lanes sp (pr_result_digest p) (pr_sample_nonce p) (pr_sample_count p) = Inr (sort (map fst (pr_sampled_outputs p))) \<and>
     list_all (\<lambda>(l, x). length x = 32) (pr_sampled_outputs p) \<and>
     1 \<le> pr_deadline_ms p \<and> pr_deadline_ms p \<le> int (max_deadline_ms sp))"

definition probe_times_ok :: "probe \<Rightarrow> bool" where
  "probe_times_ok p = (let i = instant (pr_issued_at p); e = i + pr_valid_for p in
     distinct (map fst (pr_timings_ms p)) \<and> set (map fst (pr_timings_ms p)) = {''create'', ''exec'', ''delete''} \<and>
     list_all (\<lambda>(k, t). 0 \<le> t \<and> (k = ''exec'' \<longrightarrow> t \<le> pr_deadline_ms p)) (pr_timings_ms p) \<and>
     FOUR_DIGIT_YEARS \<le> i \<and> e < MAX_WALL \<and>
     0 \<le> wall_micros (pr_issued_at p) + pr_valid_for p \<and> wall_micros (pr_issued_at p) + pr_valid_for p < MAX_WALL \<and>
     0 < pr_valid_for p \<and> pr_valid_for p \<le> MAX_VALIDITY \<and> pr_valid_for p mod 1000000 = 0 \<and>
     is_ok (check_evidence (pr_evidence p) (pr_tee_kind p) (Some ((civil_of_instant i)\<lparr>c_microsecond := 0\<rparr>))))"

definition probe_ok :: "probe \<Rightarrow> bool" where
  "probe_ok p = (probe_names_ok p \<and> probe_sample_ok p \<and> probe_times_ok p)"

lemma hd_show_nat: "0 < n \<Longrightarrow> hd (show_nat n) \<noteq> CHR ''0''"
proof (induction n rule: show_nat.induct)
  case (1 n)
  show ?case
  proof (cases "n < 10")
    case True
    then have "digit_value (digit n) \<noteq> digit_value (CHR ''0'')" using 1(2) by (simp add: digit_value_def [of "CHR ''0''"])
    then have "digit n \<noteq> CHR ''0''" by metis
    then show ?thesis using True by (simp add: show_nat.simps [of n])
  next
    case False
    then have "hd (show_nat (n div 10)) \<noteq> CHR ''0''" using 1(1) by auto
    then show ?thesis using False show_nat_digits [of "n div 10"] by (simp add: show_nat.simps [of n])
  qed
qed

lemma length_show_nat_le: "n < 10 ^ Suc k \<Longrightarrow> length (show_nat n) \<le> Suc k"
proof (induction k arbitrary: n)
  case 0
  then show ?case by (simp add: show_nat.simps [of n])
next
  case (Suc k)
  then show ?case by (simp add: show_nat.simps [of n] Suc.IH div_less_iff_less_mult mult.commute)
qed

lemma lane_key: "n < 1024 \<Longrightarrow> is_lane_key (show_nat n)"
proof (cases "n = 0")
  case True
  moreover have "digit 0 = CHR ''0''" by code_simp
  ultimately show ?thesis by (simp add: is_lane_key_def show_nat.simps)
next
  case False
  assume "n < 1024"
  then have "length (show_nat n) \<le> 4" using length_show_nat_le [of n 3] by simp
  with False show ?thesis
    using show_nat_digits [of n] hd_show_nat [of n] by (simp add: is_lane_key_def class_match_def Suc_le_eq)
qed

lemma check_box_json:
  assumes "probe_names_ok p"
  shows "\<exists>idk. check_box (box_json p) = Inr (pr_box_id p, pr_miner_hotkey p, pr_kind p, pr_tee_kind p, pr_hardware_id p, idk)"
proof -
  obtain idk where h: "HARDWARE_ID_KINDS (pr_kind p, pr_tee_kind p) = Some idk" using assms by (auto simp: probe_names_ok_def)
  then have "pr_kind p \<in> set BOX_KINDS" by (auto simp: HARDWARE_ID_KINDS.simps BOX_KINDS_def split: if_splits)
  with h assms show ?thesis
    by (cases "pr_tee_kind p") (auto simp: check_box_def box_json_def probe_names_ok_def obj_keys_def BOX_KEYS_def obj_at_def
        obj_at_simps opt_str_def)
qed

lemma check_spec_json:
  assumes "spec_for (cs_seed sp) v m = Inr sp" "map (\<lambda>n. (n, obj_at chal n)) [''seed'', ''lanes'', ''blocks'', ''steps''] = kvs"
    "JObj kvs = spec_to_json sp"
  shows "check_spec chal v m = Inr sp"
proof -
  obtain seed l b s where "make_spec seed l b s = Inr sp" using assms(1) by (auto simp: spec_for_def Let_def split: if_splits)
  from spec_json_roundtrip [OF this] show ?thesis using assms by (simp add: check_spec_def)
qed

lemma check_outputs_json:
  assumes "list_all (\<lambda>(l, x). l < 1024 \<and> length x = 32) outs"
  shows "check_outputs_field (map (\<lambda>(k, v). (show_nat k, JStr (hex_of v))) outs) = Inr outs"
  using assms by (auto simp: check_outputs_field_Inr list_all2_conv_all_nth list_all_length lane_key is_hex64_iff split: prod.splits)

lemma check_challenge_json:
  assumes "probe_sample_ok p"
  shows "check_challenge (challenge_json p) (pr_vcpus p) (pr_memory_gib p) =
    Inr (pr_challenge p, pr_result_digest p, pr_sample_nonce p, pr_sample_count p, sort_key fst (pr_sampled_outputs p), pr_deadline_ms p)"
proof -
  let ?sp = "pr_challenge p" and ?outs = "pr_sampled_outputs p"
  have sp: "spec_for (cs_seed ?sp) (pr_vcpus p) (pr_memory_gib p) = Inr ?sp" "length (pr_result_digest p) = 32"
    "length (pr_sample_nonce p) = 32"
    "sample_lanes ?sp (pr_result_digest p) (pr_sample_nonce p) (pr_sample_count p) = Inr (sort (map fst ?outs))"
    "list_all (\<lambda>(l, x). length x = 32) ?outs" "1 \<le> pr_deadline_ms p" "pr_deadline_ms p \<le> int (max_deadline_ms ?sp)"
    "pr_sample_count p \<le> int (cs_lanes ?sp)"
    using assms by (simp_all add: probe_sample_ok_def Let_def)
  obtain need where need: "required_samples (cs_lanes ?sp) = Inr need" "int need \<le> pr_sample_count p"
    using assms by (auto simp: probe_sample_ok_def Let_def split: sum.splits)
  have lanes: "1 \<le> cs_lanes ?sp" "cs_lanes ?sp \<le> 1024" using spec_for_Inr [OF sp(1)] by auto
  then have "set (map fst ?outs) \<subseteq> {..<cs_lanes ?sp}" using sample_lanes_exact [OF sp(4)] by auto
  then have "list_all (\<lambda>(l, x). l < 1024 \<and> length x = 32) (sort_key fst ?outs)"
    using sp(5) lanes(2) by (fastforce simp: list_all_iff)
  note outs = check_outputs_json [OF this]
  have d: "distinct (sort (map fst ?outs))"
    using sample_lanes_exact [OF sp(4)] lanes by (simp only: strict_sorted_iff)
  have srt: "map fst (sort_key fst ?outs) = sort (map fst ?outs)"
    by (rule sorted_distinct_set_unique) (use d in \<open>simp_all add: distinct_map\<close>)
  have one: "1 \<le> need" using need(1) lanes by (simp add: required_samples_Inr)
  let ?kvs = "[(''seed'', JStr (hex_of (cs_seed ?sp))), (''lanes'', JInt (int (cs_lanes ?sp))), (''blocks'', JInt (int (cs_blocks ?sp))),
     (''steps'', JInt (int (cs_steps ?sp))), (''result_digest'', JStr (hex_of (pr_result_digest p))),
     (''sample_nonce'', JStr (hex_of (pr_sample_nonce p))), (''sample_count'', JInt (pr_sample_count p)),
     (''sampled_outputs'', JObj (map (\<lambda>(k, v). (show_nat k, JStr (hex_of v))) (sort_key fst ?outs))), (''deadline_ms'', JInt (pr_deadline_ms p))]"
  have j: "challenge_json p = JObj ?kvs" by (simp add: challenge_json_def spec_to_json_def)
  have k: "obj_keys ?kvs = CHALLENGE_KEYS" by (simp add: obj_keys_def CHALLENGE_KEYS_def)
  have at': "obj_at ?kvs ''result_digest'' = JStr (hex_of (pr_result_digest p))" "obj_at ?kvs ''sample_nonce'' = JStr (hex_of (pr_sample_nonce p))"
    "obj_at ?kvs ''sample_count'' = JInt (pr_sample_count p)" "obj_at ?kvs ''deadline_ms'' = JInt (pr_deadline_ms p)"
    "obj_at ?kvs ''sampled_outputs'' = JObj (map (\<lambda>(k, v). (show_nat k, JStr (hex_of v))) (sort_key fst ?outs))"
    by (simp_all add: obj_at_def obj_at_simps)
  have cs: "check_spec ?kvs (pr_vcpus p) (pr_memory_gib p) = Inr ?sp"
    by (rule check_spec_json [OF sp(1) refl]) (simp add: obj_at_def obj_at_simps spec_to_json_def)
  have hx: "is_hex64 (hex_of (pr_result_digest p))" "is_hex64 (hex_of (pr_sample_nonce p))" using sp(2,3) by (auto simp: is_hex64_iff)
  have one': "1 \<le> pr_sample_count p" using one need(2) by linarith
  show ?thesis
    unfolding check_challenge_def j using k at' cs hx outs need one' sp by (simp add: srt sorted_sort_id)
qed

lemma check_timings_json:
  assumes "distinct (map fst ts)" "set (map fst ts) = {''create'', ''exec'', ''delete''}"
    and "list_all (\<lambda>(k, t). 0 \<le> t \<and> (k = ''exec'' \<longrightarrow> t \<le> deadline)) ts"
  shows "check_timings (JObj (map (\<lambda>(k, t). (k, JInt t)) ts)) deadline = Inr (map (\<lambda>(k, t). (k, JInt t)) ts)"
proof -
  let ?kvs = "map (\<lambda>(k, t). (k, JInt t)) ts"
  have keys: "map fst ?kvs = map fst ts" by (simp add: o_def case_prod_unfold)
  have "''exec'' \<in> set (map fst ts)" by (simp only: assms(2)) simp
  then obtain t where t: "(''exec'', t) \<in> set ts" by auto
  then have "(''exec'', JInt t) \<in> set ?kvs" by force
  moreover have d: "distinct (map fst ?kvs)" using assms(1) by (simp only: keys)
  ultimately have "map_of ?kvs ''exec'' = Some (JInt t)" by (intro map_of_is_SomeI)
  then have "obj_at ?kvs ''exec'' = JInt t" by (simp only: obj_at_def obj_get_distinct [OF d] option.case)
  moreover have "0 \<le> t" "t \<le> deadline" using assms(3) t by (auto simp: list_all_iff)
  moreover have "obj_keys ?kvs = {''create'', ''exec'', ''delete''}" using keys assms(2) by (simp only: obj_keys_def)
  moreover have "check_counts ?kvs = Inr ()" using assms(3) by (auto simp: check_counts_Inr list_all_iff)
  ultimately show ?thesis by (simp add: check_timings_def)
qed

lemma floor_second:
  fixes i v m :: int
  assumes "v mod m = 0"
  shows "(i + v) - (i + v) mod m = (i - i mod m) + v"
proof -
  have "(i + v) mod m = i mod m" using mod_add_right_eq [of i v m] assms by simp
  then show ?thesis by simp
qed

lemma check_body_make_body:
  assumes "probe_ok p"
  shows "\<exists>body v expires. make_body p = Inr (JObj body) \<and> check_body body = Inr v \<and> ''signature'' \<notin> obj_keys body \<and>
    obj_at body ''netuid'' = JInt (pr_netuid p) \<and> obj_at body ''validator_nonce'' = JStr (pr_validator_nonce p) \<and>
    obj_at body ''prober_key_id'' = JStr (pr_prober_key_id p) \<and>
    parse_time (obj_at body ''expires_at'') ''expires_at'' = Inr expires \<and>
    instant expires = instant (vr_issued_at v) + pr_valid_for p \<and>
    instant (vr_issued_at v) = instant (pr_issued_at p) - instant (pr_issued_at p) mod 1000000 \<and>
    vr_round v = pr_round p \<and> vr_vcpus v = pr_vcpus p \<and> vr_memory_gib v = pr_memory_gib p \<and>
    vr_miner_hotkey v = pr_miner_hotkey p \<and> vr_hardware_id v = pr_hardware_id p \<and> vr_kind v = pr_kind p"
proof -
  let ?i = "instant (pr_issued_at p)"
  have ok: "probe_names_ok p" "probe_sample_ok p" "probe_times_ok p" using assms by (simp_all add: probe_ok_def)
  note t = ok(3) [unfolded probe_times_ok_def Let_def]
  obtain s c where s: "iso ?i = Inr s" "parse_time (JStr s) ''issued_at'' = Inr c" "instant c = ?i - ?i mod 1000000"
    "c = (civil_of_instant ?i)\<lparr>c_microsecond := 0\<rparr>" using iso_parses [of ?i "''issued_at''"] t by auto
  obtain e x where e: "iso (?i + pr_valid_for p) = Inr e" "parse_time (JStr e) ''expires_at'' = Inr x"
    "instant x = (?i + pr_valid_for p) - (?i + pr_valid_for p) mod 1000000"
    using iso_parses [of "?i + pr_valid_for p" "''expires_at''"] t by auto
  have x: "instant x = instant c + pr_valid_for p" using floor_second [of "pr_valid_for p" 1000000 ?i] t e(3) s(3) by simp
  obtain ev where ev: "check_evidence (pr_evidence p) (pr_tee_kind p) (Some c) = Inr ev" using t s(4) by (auto simp: is_ok_iff)
  obtain idk where box: "check_box (box_json p) =
      Inr (pr_box_id p, pr_miner_hotkey p, pr_kind p, pr_tee_kind p, pr_hardware_id p, idk)"
    using check_box_json [OF ok(1)] by blast
  have vm: "1 \<le> pr_vcpus p" "1 \<le> pr_memory_gib p"
    using ok(2) by (auto simp: probe_sample_ok_def spec_for_def Let_def split: if_splits)
  have tm: "check_timings (JObj (map (\<lambda>(k, t). (k, JInt t)) (pr_timings_ms p))) (pr_deadline_ms p) =
      Inr (map (\<lambda>(k, t). (k, JInt t)) (pr_timings_ms p))"
    by (rule check_timings_json) (use t in simp_all)
  let ?cap = "[(''vcpus'', JInt (pr_vcpus p)), (''memory_gib'', JInt (pr_memory_gib p))]"
  let ?body = "[(''schema'', JStr RECEIPT_SCHEMA), (''netuid'', JInt (pr_netuid p)), (''round'', JInt (pr_round p)),
         (''validator_nonce'', JStr (pr_validator_nonce p)), (''box'', box_json p),
         (''capacity'', JObj ?cap),
         (''challenge'', challenge_json p), (''timings_ms'', JObj (map (\<lambda>(k, t). (k, JInt t)) (pr_timings_ms p))),
         (''issued_at'', JStr s), (''expires_at'', JStr e), (''prober_key_id'', JStr (pr_prober_key_id p)),
         (''evidence'', pr_evidence p)]"
  have mk: "make_body p = Inr (JObj ?body)" using s(1) e(1) t by (simp add: make_body_def)
  have at': "obj_at ?body ''schema'' = JStr RECEIPT_SCHEMA" "obj_at ?body ''netuid'' = JInt (pr_netuid p)"
    "obj_at ?body ''round'' = JInt (pr_round p)" "obj_at ?body ''validator_nonce'' = JStr (pr_validator_nonce p)"
    "obj_at ?body ''box'' = box_json p" "obj_at ?body ''capacity'' = JObj ?cap" "obj_at ?body ''challenge'' = challenge_json p"
    "obj_at ?body ''timings_ms'' = JObj (map (\<lambda>(k, t). (k, JInt t)) (pr_timings_ms p))"
    "obj_at ?body ''issued_at'' = JStr s" "obj_at ?body ''expires_at'' = JStr e"
    "obj_at ?body ''prober_key_id'' = JStr (pr_prober_key_id p)" "obj_at ?body ''evidence'' = pr_evidence p"
    by (simp_all add: obj_at_def obj_at_simps)
  have cap: "obj_at ?cap ''vcpus'' = JInt (pr_vcpus p)" "obj_at ?cap ''memory_gib'' = JInt (pr_memory_gib p)"
    "obj_keys ?cap = {''vcpus'', ''memory_gib''}"
    by (simp_all add: obj_at_def obj_at_simps obj_keys_def)
  have keys: "obj_keys ?body = BODY_KEYS" "''signature'' \<notin> obj_keys ?body" by (simp_all add: obj_keys_def BODY_KEYS_def)
  have valid: "check_validity (JStr s) (JStr e) = Inr c"
    unfolding check_validity_def s(2) e(2) bindE.simps using x t by (simp add: ensure_def)
  define body where "body = ?body"
  note at'' = at' [folded body_def] and keys' = keys [folded body_def] and mk' = mk [folded body_def]
  define v where "v = \<lparr>vr_box_id = pr_box_id p, vr_miner_hotkey = pr_miner_hotkey p, vr_kind = pr_kind p, vr_tee_kind = pr_tee_kind p,
    vr_hardware_id = pr_hardware_id p, vr_hardware_id_kind = idk, vr_vcpus = pr_vcpus p, vr_memory_gib = pr_memory_gib p,
    vr_challenge = pr_challenge p, vr_result_digest = pr_result_digest p, vr_sample_nonce = pr_sample_nonce p,
    vr_sample_count = pr_sample_count p, vr_sampled_outputs = sort_key fst (pr_sampled_outputs p), vr_deadline_ms = pr_deadline_ms p,
    vr_timings_ms = map (\<lambda>(k, t). (k, JInt t)) (pr_timings_ms p), vr_round = pr_round p, vr_issued_at = c, vr_evidence = ev\<rparr>"
  have fields: "count_field (JInt (pr_netuid p)) ''netuid'' 0 = Inr (pr_netuid p)" "count_field (JInt (pr_round p)) ''round'' 0 = Inr (pr_round p)"
    "hex64 (JStr (pr_validator_nonce p)) ''validator_nonce'' = Inr (pr_validator_nonce p)"
    "text_field is_key_id (JStr (pr_prober_key_id p)) ''prober_key_id is malformed'' = Inr (pr_prober_key_id p)"
    "object_field (\<lambda>ks. ks = {''vcpus'', ''memory_gib''}) (JObj ?cap) ''capacity must have vcpus and memory_gib'' = Inr ?cap"
    "count_field (JInt (pr_vcpus p)) ''vcpus'' 1 = Inr (pr_vcpus p)"
    "count_field (JInt (pr_memory_gib p)) ''memory_gib'' 1 = Inr (pr_memory_gib p)"
    using ok(1) vm cap(3) by (simp_all add: probe_names_ok_def)
  have v: "check_body body = Inr v"
    unfolding check_body_def at'' keys'(1) ensure_def if_True bindE.simps simp_thms fields prod.case box cap(1,2)
      check_challenge_json [OF ok(2)] tm valid ev v_def ..
  have "parse_time (obj_at body ''expires_at'') ''expires_at'' = Inr x" unfolding at''(10) by (rule e(2))
  then show ?thesis
    using mk' v keys'(2) at''(2,4,11) x s(3) by (intro exI [of _ body] exI [of _ v] exI [of _ x] conjI) (simp_all add: v_def)
qed

section \<open>Signing and verifying\<close>

text \<open>What was signed is accepted by the validator it is for, while it is valid.\<close>

lemma signed_verifies:
  assumes ed: "\<forall>m. ed_verify pk (ed_sign sk m) m"
    and body: "check_body body = Inr v" "''signature'' \<notin> obj_keys body" "vr_kind v = ''bare_metal'' \<longrightarrow> allow"
    and key: "obj_at body ''prober_key_id'' = JStr kid" "prober_keys kid = Some pk"
    and aud: "obj_at body ''netuid'' = JInt netuid" "obj_at body ''validator_nonce'' = JStr nonce"
    and exp: "parse_time (obj_at body ''expires_at'') ''expires_at'' = Inr expires"
    and now: "utc_offset now \<noteq> None" "wall_micros now + CLOCK_SKEW < MAX_WALL"
      "instant (vr_issued_at v) \<le> instant now + CLOCK_SKEW" "instant now < instant expires"
  shows "\<exists>r. sign_receipt ed_sign (JObj body) sk allow = Inr r \<and>
    verify_receipt ed_verify prober_keys netuid nonce now (vr_round v) None r = Inr v"
proof -
  let ?sig = "JStr (text_of (b64encode (ed_sign sk (json_canonical_bytes (JObj body)))))"
  let ?kvs = "body @ [(''signature'', ?sig)]"
  have s: "sign_receipt ed_sign (JObj body) sk allow = Inr (JObj ?kvs)"
    using body by (simp add: sign_receipt_def ensure_def)
  have d: "drop_signature ?kvs = body" by (rule drop_signature_snoc [OF body(2)])
  have sg: "obj_at ?kvs ''signature'' = ?sig" by (simp add: obj_at_def obj_get_snoc)
  have ok: "signature_ok ed_verify pk ?sig (json_canonical_bytes (JObj body))" using ed by (simp add: signature_ok_def)
  have kid: "is_key_id kid" "0 \<le> vr_round v" using body(1) key(1) by (clarsimp simp: check_body_def case_prod_unfold)+
  have fields: "aware now = Inr now" "count_field (JInt (vr_round v)) ''expected_round'' 0 = Inr (vr_round v)"
    "object_field (\<lambda>ks. ''signature'' \<in> ks) (JObj ?kvs) ''receipt is not a signed object'' = Inr ?kvs"
    "text_field is_key_id (JStr kid) ''prober_key_id is malformed'' = Inr kid"
    "check_age now None (vr_evidence v) = Inr ()"
    using now(1) kid by (simp_all add: aware_def obj_keys_def check_age_def)
  have "verify_receipt ed_verify prober_keys netuid nonce now (vr_round v) None (JObj ?kvs) = Inr v"
    unfolding verify_receipt_def Let_def fields bindE.simps d body(1) key of_option_def option.case sg aud exp
    using ok now by (simp add: ensure_def)
  with s show ?thesis by blast
qed

lemma probe_accepted:
  assumes "probe_ok p" "\<forall>m. ed_verify pk (ed_sign sk m) m" "prober_keys (pr_prober_key_id p) = Some pk"
    and "pr_kind p = ''bare_metal'' \<longrightarrow> allow"
    and "utc_offset now \<noteq> None" "wall_micros now + CLOCK_SKEW < MAX_WALL"
    and "instant (pr_issued_at p) \<le> instant now + CLOCK_SKEW"
    and "instant now < instant (pr_issued_at p) - instant (pr_issued_at p) mod 1000000 + pr_valid_for p"
  shows "\<exists>body r v. make_body p = Inr body \<and> sign_receipt ed_sign body sk allow = Inr r \<and>
    verify_receipt ed_verify prober_keys (pr_netuid p) (pr_validator_nonce p) now (pr_round p) None r = Inr v \<and>
    vr_vcpus v = pr_vcpus p \<and> vr_memory_gib v = pr_memory_gib p \<and> vr_kind v = pr_kind p \<and>
    vr_miner_hotkey v = pr_miner_hotkey p \<and> vr_hardware_id v = pr_hardware_id p"
proof -
  obtain body v expires where b: "make_body p = Inr (JObj body)" "check_body body = Inr v" "''signature'' \<notin> obj_keys body"
    "obj_at body ''netuid'' = JInt (pr_netuid p)" "obj_at body ''validator_nonce'' = JStr (pr_validator_nonce p)"
    "obj_at body ''prober_key_id'' = JStr (pr_prober_key_id p)"
    "parse_time (obj_at body ''expires_at'') ''expires_at'' = Inr expires"
    "instant expires = instant (vr_issued_at v) + pr_valid_for p"
    "instant (vr_issued_at v) = instant (pr_issued_at p) - instant (pr_issued_at p) mod 1000000"
    "vr_round v = pr_round p" "vr_vcpus v = pr_vcpus p" "vr_memory_gib v = pr_memory_gib p"
    "vr_miner_hotkey v = pr_miner_hotkey p" "vr_hardware_id v = pr_hardware_id p" "vr_kind v = pr_kind p"
    using check_body_make_body [OF assms(1)] by blast
  have "0 \<le> instant (pr_issued_at p) mod 1000000" by simp
  then have t: "instant (vr_issued_at v) \<le> instant now + CLOCK_SKEW" "instant now < instant expires"
    using assms(7,8) b(8,9) by linarith+
  have "vr_kind v = ''bare_metal'' \<longrightarrow> allow" using assms(4) b(15) by simp
  from signed_verifies [of ed_verify pk ed_sign sk body v allow "pr_prober_key_id p" prober_keys, OF assms(2) b(2,3) this b(6) assms(3)
      b(4,5,7) assms(5,6) t] obtain r where "sign_receipt ed_sign (JObj body) sk allow = Inr r"
    "verify_receipt ed_verify prober_keys (pr_netuid p) (pr_validator_nonce p) now (vr_round v) None r = Inr v" by blast
  with b show ?thesis by (intro exI [of _ "JObj body"] exI [of _ r] exI [of _ v] conjI) simp_all
qed

text \<open>
  C26: an honest receipt is paid.  From every successful probe the prober assembles a body, signs it, and the validator
  it is for accepts the receipt while it is valid, with the capacity, the hotkey and the hardware identity of the
  probe, provided that the validator pins the prober's key and that Ed25519 accepts its own signatures.
\<close>

theorem probe_receipt_accepted:
  assumes "probe_ok p" "\<forall>m. ed_verify pk (ed_sign sk m) m" "prober_keys (pr_prober_key_id p) = Some pk"
    and "pr_kind p = ''bare_metal'' \<longrightarrow> allow"
    and "utc_offset now \<noteq> None" "wall_micros now + CLOCK_SKEW < MAX_WALL"
    and "instant (pr_issued_at p) \<le> instant now + CLOCK_SKEW"
    and "instant now < instant (pr_issued_at p) - instant (pr_issued_at p) mod 1000000 + pr_valid_for p"
  shows "\<exists>body r v. make_body p = Inr body \<and> sign_receipt ed_sign body sk allow = Inr r \<and>
    verify_receipt ed_verify prober_keys (pr_netuid p) (pr_validator_nonce p) now (pr_round p) None r = Inr v \<and>
    vr_vcpus v = pr_vcpus p \<and> vr_memory_gib v = pr_memory_gib p \<and> vr_kind v = pr_kind p \<and>
    vr_miner_hotkey v = pr_miner_hotkey p \<and> vr_hardware_id v = pr_hardware_id p"
  by (rule probe_accepted [OF assms(1), of ed_verify pk ed_sign sk]) (use assms in simp_all)

section \<open>A concrete probe\<close>

definition sample_now :: civil where
  "sample_now = \<lparr>c_year = 2026, c_month = 1, c_day = 1, c_hour = 0, c_minute = 0, c_second = 0, c_microsecond = 0, utc_offset = Some 0\<rparr>"

definition sample_probe :: probe where
  "sample_probe = \<lparr>pr_netuid = 94, pr_round = 7, pr_validator_nonce = replicate 64 (CHR ''a''), pr_box_id = ''box-1'',
     pr_miner_hotkey = replicate 48 (CHR ''5''), pr_kind = ''bare_metal'', pr_tee_kind = None,
     pr_hardware_id = replicate 64 (CHR ''b''), pr_vcpus = 1, pr_memory_gib = 1,
     pr_challenge = \<lparr>cs_seed = replicate 32 7, cs_lanes = 1, cs_blocks = 26843545, cs_steps = 53687090\<rparr>,
     pr_result_digest = replicate 32 1, pr_sample_nonce = replicate 32 2, pr_sample_count = 1,
     pr_sampled_outputs = [(0, replicate 32 3)], pr_deadline_ms = 60000 - 5000,
     pr_timings_ms = [(''create'', 900), (''exec'', 40000), (''delete'', 300)], pr_issued_at = sample_now,
     pr_valid_for = 3600 * 1000000, pr_prober_key_id = ''prober-1'', pr_evidence = JNull\<rparr>"

lemma sample_instant: "wall_micros sample_now = 63902822400000000" "instant sample_now = 63902822400000000"
  "MAX_WALL = 315537897600000000" "FOUR_DIGIT_YEARS = 31525372800000000"
  by (simp_all add: wall_micros_def instant_def sample_now_def day_number_def days_before_year_def days_before_month_def
      MAX_WALL_def FOUR_DIGIT_YEARS_def)

lemma sample_names: "probe_names_ok sample_probe"
  by (simp add: probe_names_ok_def sample_probe_def is_hex64_def is_lower_hex_def hex_value_def is_key_id_def is_box_id_def
      is_ss58_def class_match_def list_all_iff is_name_char_def is_ss58_char_def is_alnum_def char_in_range_def HARDWARE_ID_KINDS.simps)

lemma sample_spec: "spec_for (replicate 32 7) 1 1 =
    Inr \<lparr>cs_seed = replicate 32 7, cs_lanes = 1, cs_blocks = 26843545, cs_steps = 53687090\<rparr>"
  by (simp add: spec_for_def per_lane_bytes_def make_spec_def bounded_int_def challenge_params)

lemma sample_sample: "probe_sample_ok sample_probe"
proof -
  have "sample_loop d n 1 1 0 {} = Inr {0}" for d n by (rule small_loop)
  then have "sample_lanes (pr_challenge sample_probe) (pr_result_digest sample_probe) (pr_sample_nonce sample_probe) 1 = Inr [0]"
    by (simp add: sample_lanes_def sample_probe_def)
  then show ?thesis
    using sample_spec by (simp add: probe_sample_ok_def sample_probe_def required_samples_def max_deadline_ms_def challenge_params)
qed

lemma sample_times: "probe_times_ok sample_probe"
  unfolding probe_times_ok_def Let_def
  by (simp add: sample_probe_def sample_instant MAX_VALIDITY_def check_evidence_def is_ok_def)

lemma sample_fields: "pr_prober_key_id sample_probe = ''prober-1''" "pr_kind sample_probe = ''bare_metal''" "pr_issued_at sample_probe = sample_now"
    "pr_valid_for sample_probe = 3600 * 1000000" "pr_netuid sample_probe = 94" "pr_round sample_probe = 7"
    "pr_validator_nonce sample_probe = replicate 64 (CHR ''a'')" "pr_vcpus sample_probe = 1"
  by (simp_all add: sample_probe_def)

lemma sample_probe_ok: "probe_ok sample_probe"
  by (simp add: probe_ok_def sample_names sample_sample sample_times)

lemma sample_accepted:
  "\<exists>r v. verify_receipt (\<lambda>_ s m. s = m) [''prober-1'' \<mapsto> ()] 94 (replicate 64 (CHR ''a'')) sample_now 7 None r = Inr v \<and> vr_vcpus v = 1"
  using probe_accepted [where ed_verify = "\<lambda>_ s m. s = m" and ed_sign = "\<lambda>_ m. m" and pk = "()" and sk = "()" and
      allow = True and now = sample_now and prober_keys = "[''prober-1'' \<mapsto> ()]", OF sample_probe_ok]
  by (simp add: sample_fields sample_instant CLOCK_SKEW_def) (auto simp: sample_now_def)

theorem probe_receipt_accepted_witness:
  "\<exists>body r v. make_body sample_probe = Inr body \<and> sign_receipt (\<lambda>_ m. m) body () True = Inr r \<and>
    verify_receipt (\<lambda>_ s m. s = m) [''prober-1'' \<mapsto> ()] 94 (replicate 64 (CHR ''a'')) sample_now 7 None r = Inr v \<and> vr_vcpus v = 1"
proof -
  from probe_receipt_accepted [where ed_verify = "\<lambda>_ s m. s = m" and ed_sign = "\<lambda>_ m. m" and pk = "()" and sk = "()" and
      allow = True and now = sample_now and prober_keys = "[''prober-1'' \<mapsto> ()]", OF sample_probe_ok]
  show ?thesis by (simp add: sample_fields sample_instant CLOCK_SKEW_def) (auto simp: sample_now_def)
qed

section \<open>What an accepted receipt says\<close>

text \<open>
  C10: a receipt pays for proven capacity.  Whatever receipt a validator accepts: the challenge has one lane per paid vCPU
  and within 33 bytes per vCPU of the promised four fifths of the paid memory, and the receipt holds the 32-byte outputs of exactly the lanes
  that its sample nonce picks, at least half of all lanes and each of them once; the execution met the
  deadline of the prober, which is no looser than the challenge allows.
\<close>

theorem verified_receipt_pays_proven_capacity:
  assumes "verify_receipt ed_verify prober_keys netuid nonce now rnd age receipt = Inr v"
  shows "int (cs_lanes (vr_challenge v)) = vr_vcpus v \<and>
    4 * 2 ^ 30 * vr_memory_gib v < int (memory_bytes (vr_challenge v)) * 5 + 5 * 33 * vr_vcpus v \<and>
    sample_lanes (vr_challenge v) (vr_result_digest v) (vr_sample_nonce v) (vr_sample_count v)
      = Inr (sort (map fst (vr_sampled_outputs v))) \<and>
    distinct (map fst (vr_sampled_outputs v)) \<and> cs_lanes (vr_challenge v) \<le> 2 * length (vr_sampled_outputs v) \<and>
    list_all (\<lambda>(lane, out). lane < cs_lanes (vr_challenge v) \<and> length out = 32) (vr_sampled_outputs v) \<and>
    (\<exists>t. obj_at (vr_timings_ms v) ''exec'' = JInt t \<and> 0 \<le> t \<and> t \<le> vr_deadline_ms v) \<and>
    vr_deadline_ms v \<le> int (max_deadline_ms (vr_challenge v))"
proof -
  obtain body where b: "check_body body = Inr v" using verify_receipt_Inr [OF assms] by blast
  note c = check_challenge_Inr [OF check_body_Inr(6) [OF b]] and vm = check_body_Inr(4,5) [OF b]
  let ?outs = "vr_sampled_outputs v" and ?sp = "vr_challenge v"
  have sp: "int (cs_lanes ?sp) = vr_vcpus v" "4 * 2 ^ 30 * vr_memory_gib v < int (memory_bytes ?sp) * 5 + 5 * 33 * vr_vcpus v"
    using spec_for_claim [OF c(2) vm, THEN conjunct2, rule_format, OF c(1)] by blast+
  obtain need where n: "required_samples (cs_lanes ?sp) = Inr need" "int need \<le> vr_sample_count v"
    "vr_sample_count v \<le> int (cs_lanes ?sp)" using c(7) by blast
  have s: "sorted_wrt (<) (sort (map fst ?outs))" "set (map fst ?outs) \<subseteq> {..<cs_lanes ?sp}"
    "length ?outs = min (nat (vr_sample_count v)) (cs_lanes ?sp)"
    using sample_lanes_exact [OF c(8)] c(3) by simp_all
  from s(1) have "distinct (sort (map fst ?outs))" by (simp only: strict_sorted_iff)
  then have "distinct (map fst ?outs)" by simp
  moreover have "cs_lanes ?sp \<le> 2 * need" using n(1) by (simp add: required_samples_Inr)
  then have "cs_lanes ?sp \<le> 2 * length ?outs" using n(2,3) s(3) by linarith
  moreover have "list_all (\<lambda>(lane, out). lane < cs_lanes ?sp \<and> length out = 32) ?outs"
    unfolding list_all_iff using s(2) c(9) by fastforce
  moreover have "\<exists>t. obj_at (vr_timings_ms v) ''exec'' = JInt t \<and> 0 \<le> t \<and> t \<le> vr_deadline_ms v"
    using check_body_Inr(7) [OF b] by (clarsimp simp: check_timings_def)
  ultimately show ?thesis using sp c(8,11) by (intro conjI) assumption+
qed

theorem verified_receipt_pays_proven_capacity_witness:
  "\<exists>r v. verify_receipt (\<lambda>_ s m. s = m) [''prober-1'' \<mapsto> ()] 94 (replicate 64 (CHR ''a'')) sample_now 7 None r = Inr v \<and>
     cs_lanes (vr_challenge v) = 1 \<and> 1 \<le> 2 * length (vr_sampled_outputs v)"
proof -
  obtain r v where v: "verify_receipt (\<lambda>_ s m. s = m) [''prober-1'' \<mapsto> ()] 94 (replicate 64 (CHR ''a'')) sample_now 7 None r = Inr v"
    "vr_vcpus v = 1" using sample_accepted by blast
  from verified_receipt_pays_proven_capacity [OF v(1)] v(2)
  have "int (cs_lanes (vr_challenge v)) = 1" "cs_lanes (vr_challenge v) \<le> 2 * length (vr_sampled_outputs v)" by simp_all
  with v(1) show ?thesis by auto
qed

text \<open>
  C27: a receipt is for one validator, one round and one period.  An accepted receipt verifies under a pinned
  prober key over the canonical bytes of its whole body, carries the validator's netuid, nonce and round, was issued no later
  than five minutes from now and expires later than now and at most two hours after it was issued; the evidence of a
  TEE box was checked no later than the receipt was issued and no longer ago than the validator allows.
\<close>

theorem verified_receipt_audience:
  assumes "verify_receipt ed_verify prober_keys netuid nonce now rnd age receipt = Inr v"
  shows "\<exists>kvs kid key sig expires. receipt = JObj kvs \<and> obj_at (drop_signature kvs) ''prober_key_id'' = JStr kid \<and>
    prober_keys kid = Some key \<and> ed_verify key sig (json_canonical_bytes (JObj (drop_signature kvs))) \<and>
    obj_at (drop_signature kvs) ''netuid'' = JInt netuid \<and> obj_at (drop_signature kvs) ''validator_nonce'' = JStr nonce \<and>
    obj_at (drop_signature kvs) ''round'' = JInt rnd \<and>
    instant (vr_issued_at v) \<le> instant now + CLOCK_SKEW \<and> instant now < instant expires \<and>
    instant expires \<le> instant (vr_issued_at v) + MAX_VALIDITY \<and>
    (\<forall>ev. vr_evidence v = Some ev \<longrightarrow> instant (strptime_z (re_attested_at ev)) \<le> instant (vr_issued_at v) \<and>
       (\<forall>a. age = Some a \<longrightarrow> instant now - instant (strptime_z (re_attested_at ev)) \<le> a))"
proof -
  obtain kvs kid key expires where k: "receipt = JObj kvs" "check_body (drop_signature kvs) = Inr v"
    "obj_at (drop_signature kvs) ''prober_key_id'' = JStr kid" "prober_keys kid = Some key"
    "signature_ok ed_verify key (obj_at kvs ''signature'') (json_canonical_bytes (JObj (drop_signature kvs)))"
    "obj_at (drop_signature kvs) ''netuid'' = JInt netuid" "obj_at (drop_signature kvs) ''validator_nonce'' = JStr nonce"
    "vr_round v = rnd" "instant (vr_issued_at v) \<le> instant now + CLOCK_SKEW"
    "parse_time (obj_at (drop_signature kvs) ''expires_at'') ''expires_at'' = Inr expires" "instant now < instant expires"
    "check_age now age (vr_evidence v) = Inr ()"
    using verify_receipt_Inr [OF assms] by blast
  obtain sig where sig: "ed_verify key sig (json_canonical_bytes (JObj (drop_signature kvs)))"
    using k(5) by (auto simp: signature_ok_def split: json.splits sum.splits)
  have valid: "instant expires \<le> instant (vr_issued_at v) + MAX_VALIDITY"
    using check_body_Inr(8) [OF k(2)] k(10) by (auto simp: check_validity_def)
  have "instant (strptime_z (re_attested_at ev)) \<le> instant (vr_issued_at v) \<and>
       (\<forall>a. age = Some a \<longrightarrow> instant now - instant (strptime_z (re_attested_at ev)) \<le> a)" if "vr_evidence v = Some ev" for ev
    using check_evidence_Inr(2) [OF check_body_Inr(9) [OF k(2)] that] k(12) that by (auto simp: check_age_def)
  with k sig valid check_body_Inr(1) [OF k(2)] show ?thesis by blast
qed

theorem verified_receipt_audience_witness:
  "\<exists>r v. verify_receipt (\<lambda>_ s m. s = m) [''prober-1'' \<mapsto> ()] 94 (replicate 64 (CHR ''a'')) sample_now 7 None r = Inr v \<and>
     instant (vr_issued_at v) \<le> instant sample_now + CLOCK_SKEW"
proof -
  obtain r v where v: "verify_receipt (\<lambda>_ s m. s = m) [''prober-1'' \<mapsto> ()] 94 (replicate 64 (CHR ''a'')) sample_now 7 None r = Inr v"
    using sample_accepted by blast
  from verified_receipt_audience [OF v] v show ?thesis by blast
qed



end
