(* ===== verification/Channel.thy ===== *)
theory Channel
  imports Common
begin

text \<open>
  \<^verbatim>\<open>src/cathedral/channel.py\<close>: the strict DER reader that takes the SubjectPublicKeyInfo out of
  a peer certificate, and the two channel bindings built from key material.

  A bit test on one octet is written on its value: \<^verbatim>\<open>x & 0x1F\<close> is \<open>x mod 32\<close>,
  \<^verbatim>\<open>x & 0x80\<close> is \<open>128 \<le> x\<close> and \<^verbatim>\<open>x & 0x7F\<close> is \<open>x mod 128\<close>.  The lemmas relate the
  reader to the canonical encoder \<open>der_enc\<close>: it reads back every canonical element, it
  accepts nothing else, and on every well-formed certificate the extracted bytes are
  exactly the SubjectPublicKeyInfo element.
\<close>

section \<open>The reader\<close>

datatype ChannelBindingError = ChannelBindingError string

definition der_tlv :: "bytes \<Rightarrow> nat \<Rightarrow> ChannelBindingError + (nat \<times> nat \<times> nat)" where
  "der_tlv data offset =
     (if length data < offset + 2
        then Inl (ChannelBindingError ''certificate contains truncated DER'')
      else let tag = unat (data ! offset) in
      if tag mod 32 = 31
        then Inl (ChannelBindingError ''certificate uses unsupported high-tag DER'')
      else let length_octet = unat (data ! (offset + 1)); header_end = offset + 2 in
      bindE
        (if 128 \<le> length_octet then
           let count = length_octet mod 128 in
           if count = 0 \<or> 4 < count \<or> length data < header_end + count
             then Inl (ChannelBindingError ''certificate contains invalid DER length'')
           else let length_bytes = slice header_end (header_end + count) data in
           if length_bytes ! 0 = 0
             then Inl (ChannelBindingError ''certificate contains non-canonical DER length'')
           else let len = nat_of_be length_bytes in
           if len < 128
             then Inl (ChannelBindingError ''certificate contains non-canonical DER length'')
           else Inr (len, header_end + count)
         else Inr (length_octet, header_end))
        (\<lambda>(len, header_end).
           let end = header_end + len in
           if length data < end
             then Inl (ChannelBindingError ''certificate contains truncated DER value'')
           else Inr (tag, header_end, end)))"

text \<open>The loop over serialNumber, signature, issuer, validity and subject.\<close>

primrec skip_tbs_fields :: "nat \<Rightarrow> bytes \<Rightarrow> nat \<Rightarrow> nat \<Rightarrow> ChannelBindingError + nat" where
  "skip_tbs_fields 0 cert tbs_end offset = Inr offset"
| "skip_tbs_fields (Suc n) cert tbs_end offset =
     bindE (der_tlv cert offset) (\<lambda>(_, _, offset').
       if tbs_end < offset' then Inl (ChannelBindingError ''peer certificate has invalid TBS fields'')
       else skip_tbs_fields n cert tbs_end offset')"

definition extract_spki_der :: "bytes \<Rightarrow> ChannelBindingError + bytes" where
  "extract_spki_der cert =
     (if cert = [] then Inl (ChannelBindingError ''peer certificate is missing'') else
      bindE (der_tlv cert 0) (\<lambda>(tag, certificate_body, certificate_end).
      if tag \<noteq> 0x30 \<or> certificate_end \<noteq> length cert
        then Inl (ChannelBindingError ''peer certificate is not a canonical sequence'')
      else bindE (der_tlv cert certificate_body) (\<lambda>(tbs_tag, tbs_body, tbs_end).
      if tbs_tag \<noteq> 0x30 then Inl (ChannelBindingError ''peer certificate has invalid TBS data'')
      else bindE (der_tlv cert tbs_body) (\<lambda>(first_tag, _, first_end).
      bindE (skip_tbs_fields 5 cert tbs_end (if first_tag = 0xA0 then first_end else tbs_body)) (\<lambda>spki_start.
      bindE (der_tlv cert spki_start) (\<lambda>(spki_tag, spki_body, spki_end).
      if spki_tag \<noteq> 0x30 \<or> tbs_end < spki_end
        then Inl (ChannelBindingError ''peer certificate has invalid SPKI'')
      else bindE (der_tlv cert spki_body) (\<lambda>(algorithm_tag, _, algorithm_end).
      bindE (der_tlv cert algorithm_end) (\<lambda>(key_tag, _, key_end).
      if algorithm_tag \<noteq> 0x30 \<or> key_tag \<noteq> 0x03 \<or> key_end \<noteq> spki_end
        then Inl (ChannelBindingError ''peer certificate has malformed SPKI'')
      else Inr (slice spki_start spki_end cert)))))))))"

definition tls_spki_binding :: "bytes \<Rightarrow> ChannelBindingError + ChannelBinding" where
  "tls_spki_binding cert = bindE (extract_spki_der cert)
     (\<lambda>spki. Inr \<lparr>binding_type = TLS_SPKI_SHA256, cb_digest = sha256 spki\<rparr>)"

definition application_key_binding :: "bytes \<Rightarrow> ChannelBindingError + ChannelBinding" where
  "application_key_binding key =
     (if key = [] \<or> 65535 < length key
      then Inl (ChannelBindingError ''application public key is out of bounds'')
      else Inr \<lparr>binding_type = APPLICATION_KEY_SHA256, cb_digest = sha256 key\<rparr>)"

section \<open>Canonical DER\<close>

definition der_count :: "nat \<Rightarrow> nat" where
  "der_count n = (if n < 256 then 1 else if n < 256 ^ 2 then 2 else if n < 256 ^ 3 then 3 else 4)"

definition der_len :: "nat \<Rightarrow> bytes" where
  "der_len n = (if n < 128 then [of_nat n] else of_nat (128 + der_count n) # be_bytes (der_count n) n)"

definition der_enc :: "nat \<Rightarrow> bytes \<Rightarrow> bytes" where
  "der_enc tag content = of_nat tag # der_len (length content) @ content"

definition low_tag :: "nat \<Rightarrow> bool" where
  "low_tag t = (t < 256 \<and> t mod 32 \<noteq> 31)"

lemma der_count_bounds:
  assumes "128 \<le> n" "n < 2 ^ 32"
  shows "1 \<le> der_count n" "der_count n \<le> 4" "256 ^ (der_count n - 1) \<le> n" "n < 256 ^ der_count n"
  using assms by (auto simp: der_count_def)

lemma der_count_unique:
  assumes "1 \<le> k" "k \<le> 4" "256 ^ (k - 1) \<le> n" "n < 256 ^ k"
  shows "der_count n = k"
proof -
  have "k = 1 \<or> k = 2 \<or> k = 3 \<or> k = 4" using assms(1,2) by linarith
  then show ?thesis using assms(3,4) by (elim disjE) (simp_all add: der_count_def)
qed

lemma be_bytes_head_nonzero:
  assumes "0 < k" "256 ^ (k - 1) \<le> n" "n < 256 ^ k"
  shows "be_bytes k n ! 0 \<noteq> 0"
proof -
  obtain x xs where x: "be_bytes k n = x # xs"
    using assms(1) length_be_bytes [of k n] by (cases "be_bytes k n") auto
  then have "length xs = k - 1" using length_be_bytes [of k n] by simp
  moreover have "nat_of_be (x # xs) = n" using assms(3) nat_of_be_be_bytes [of k n] by (simp add: x)
  ultimately show ?thesis using assms(2) nat_of_be_small_iff [of x xs] by (simp add: x)
qed

lemma length_der_enc: "length (der_enc t c) = 1 + length (der_len (length c)) + length c"
  by (simp add: der_enc_def)

lemma der_tlv_enc:
  assumes "low_tag t" "length c < 2 ^ 32" "offset = length pre"
  shows "der_tlv (pre @ der_enc t c @ post) offset =
    Inr (t, offset + 1 + length (der_len (length c)), offset + length (der_enc t c))"
proof (cases "length c < 128")
  case True
  then show ?thesis
    using assms by (simp add: der_tlv_def der_enc_def der_len_def nth_append low_tag_def Let_def)
next
  case False
  define k where "k = der_count (length c)"
  note k = der_count_bounds [of "length c", folded k_def]
  have len: "der_len (length c) = of_nat (128 + k) # be_bytes k (length c)"
    using False by (simp add: der_len_def k_def)
  let ?d = "pre @ der_enc t c @ post"
  have d: "?d = (pre @ [of_nat t, of_nat (128 + k)]) @ be_bytes k (length c) @ c @ post"
    by (simp add: der_enc_def len)
  have sl: "slice (offset + 2) (offset + 2 + k) ?d = be_bytes k (length c)"
    unfolding d by (simp add: slice_def assms(3))
  have oct: "?d ! offset = of_nat t" "?d ! (offset + 1) = of_nat (128 + k)"
    unfolding d using assms(3) by (simp_all add: nth_append)
  have u: "unat (of_nat t :: byte) = t" "unat (of_nat (128 + k) :: byte) = 128 + k"
    unfolding unat_of_nat_byte using assms(1) k False assms(2) by (simp_all add: low_tag_def)
  have L: "length ?d = offset + 2 + k + length c + length post"
    unfolding d using assms(3) by simp
  have nz: "be_bytes k (length c) ! 0 \<noteq> 0"
    using be_bytes_head_nonzero k False assms(2) by simp
  have val: "nat_of_be (be_bytes k (length c)) = length c"
    using k False assms(2) by simp
  have "(128 + k) mod 128 = k" using k False assms(2) by simp
  then show ?thesis
    unfolding der_tlv_def oct u Let_def
    using assms(1) L sl nz val k False assms(2)
    by (simp add: low_tag_def length_der_enc len)
qed

lemma der_tlv_sound:
  assumes "der_tlv d off = Inr (t, b, e)"
  shows "low_tag t \<and> off + 2 \<le> b \<and> b \<le> e \<and> e \<le> length d \<and> e - b < 2 ^ 32
    \<and> slice off e d = der_enc t (slice b e d)"
proof -
  let ?t = "unat (d ! off)" and ?l = "unat (d ! (off + 1))"
  have g: "off + 2 \<le> length d" "?t mod 32 \<noteq> 31"
    using assms by (auto simp: der_tlv_def Let_def split: if_splits)
  have two: "slice off (off + 2) d = [d ! off, d ! (off + 1)]"
    using g(1) by (simp add: list_eq_iff_nth_eq nth_slice less_Suc_eq numeral_2_eq_2)
  note two' = two [simplified]
  show ?thesis
  proof (cases "128 \<le> ?l")
    case False
    then have r: "t = ?t" "b = off + 2" "e = b + ?l" "e \<le> length d"
      using assms g by (auto simp: der_tlv_def Let_def split: if_splits)
    have "slice off e d = slice off (off + 2) d @ slice b e d"
      using r by (simp add: slice_append_slice)
    moreover have "length (slice b e d) = ?l" using r by simp
    ultimately have "slice off e d = der_enc t (slice b e d)"
      using False r(1) by (simp add: two' der_enc_def der_len_def)
    then show ?thesis using r g False by (simp add: low_tag_def)
  next
    case True
    define k where "k = ?l mod 128"
    define lb where "lb = slice (off + 2) (off + 2 + k) d"
    have r: "t = ?t" "b = off + 2 + k" "e = b + nat_of_be lb" "e \<le> length d" "1 \<le> k" "k \<le> 4"
      "off + 2 + k \<le> length d" "lb ! 0 \<noteq> 0" "128 \<le> nat_of_be lb"
      using assms g True by (auto simp: der_tlv_def Let_def k_def lb_def split: if_splits)
    have "?l - 128 < 128" using unat_byte_less [of "d ! (off + 1)"] by linarith
    then have "?l mod 128 = ?l - 128" using True by (simp add: le_mod_geq)
    then have l: "?l = 128 + k" using True by (simp add: k_def)
    have lenlb: "length lb = k" using r(7) by (simp add: lb_def)
    then obtain x xs where x: "lb = x # xs" using r(5) by (cases lb) auto
    have lo: "256 ^ (k - 1) \<le> nat_of_be lb"
      using r(8) lenlb nat_of_be_small_iff [of x xs] by (auto simp: x)
    have hi: "nat_of_be lb < 256 ^ k" using nat_of_be_less [of lb] by (simp add: lenlb)
    have cnt: "der_count (nat_of_be lb) = k" by (rule der_count_unique) (use r lo hi in simp_all)
    have "be_bytes k (nat_of_be lb) = lb" using be_bytes_nat_of_be [of lb] by (simp add: lenlb)
    moreover have "(word_of_nat (128 + k) :: byte) = d ! (off + 1)"
      by (metis l of_nat_unat_byte)
    ultimately have len: "der_len (nat_of_be lb) = (d ! (off + 1)) # lb"
      using r(9) cnt unfolding der_len_def by (simp only: not_less [symmetric] if_False simp_thms)
    have lc: "length (slice b e d) = nat_of_be lb" using r by simp
    have "slice off e d = slice off (off + 2) d @ lb @ slice b e d"
      using r(2,3) by (simp add: slice_append_slice lb_def)
    then have "slice off e d = der_enc t (slice b e d)"
      unfolding der_enc_def lc len two r(1) by simp
    moreover have "nat_of_be lb < 2 ^ 32"
      using hi power_increasing [of k 4 "256 :: nat"] r(6) by simp
    ultimately show ?thesis using r g(2) by (simp add: low_tag_def)
  qed
qed

section \<open>Extraction\<close>

definition der_fields :: "(nat \<times> bytes) list \<Rightarrow> bytes" where
  "der_fields fs = concat (map (\<lambda>f. der_enc (fst f) (snd f)) fs)"

definition spki_element :: "bytes \<Rightarrow> bytes \<Rightarrow> bytes" where
  "spki_element alg key = der_enc 0x30 (der_enc 0x30 alg @ der_enc 0x03 key)"

definition version_element :: "bytes option \<Rightarrow> bytes" where
  "version_element v = (case v of None \<Rightarrow> [] | Some c \<Rightarrow> der_enc 0xA0 c)"

text \<open>An X.509 certificate: optional version, five fields, the key, then anything.\<close>

definition certificate ::
  "bytes option \<Rightarrow> (nat \<times> bytes) list \<Rightarrow> bytes \<Rightarrow> bytes \<Rightarrow> bytes \<Rightarrow> bytes \<Rightarrow> bytes" where
  "certificate v fs alg key rest tail =
     der_enc 0x30 (der_enc 0x30 (version_element v @ der_fields fs @ spki_element alg key @ rest) @ tail)"

lemma der_enc_split: "der_enc t c = (of_nat t # der_len (length c)) @ c"
  by (simp add: der_enc_def)

lemma content_shorter: "length c \<le> length (der_enc t c)"
  by (simp add: length_der_enc)

lemma skip_tbs_fields_enc:
  assumes "\<forall>f \<in> set fs. low_tag (fst f)" "length (pre @ der_fields fs @ post) < 2 ^ 32"
    and "length pre + length (der_fields fs) \<le> tbs_end"
  shows "skip_tbs_fields (length fs) (pre @ der_fields fs @ post) tbs_end (length pre) =
    Inr (length pre + length (der_fields fs))"
  using assms
proof (induction fs arbitrary: pre)
  case Nil
  then show ?case by (simp add: der_fields_def)
next
  case (Cons f fs)
  let ?e = "der_enc (fst f) (snd f)" and ?r = "der_fields fs @ post"
  have df: "der_fields (f # fs) = ?e @ der_fields fs" by (simp add: der_fields_def)
  have "length (snd f) < 2 ^ 32"
    using Cons.prems(2) content_shorter [of "snd f" "fst f"] by (simp add: df)
  then have tlv: "der_tlv (pre @ ?e @ ?r) (length pre) =
      Inr (fst f, length pre + 1 + length (der_len (length (snd f))), length pre + length ?e)"
    using Cons.prems(1) by (intro der_tlv_enc) simp_all
  have "skip_tbs_fields (length fs) ((pre @ ?e) @ der_fields fs @ post) tbs_end (length (pre @ ?e)) =
      Inr (length (pre @ ?e) + length (der_fields fs))"
    using Cons.prems by (intro Cons.IH) (simp_all add: df)
  then show ?case using tlv Cons.prems(3) by (simp add: df)
qed

lemma der_enc_nonempty [simp]: "der_enc t c \<noteq> []"
  by (simp add: der_enc_def)

lemma tag_shape: "low_tag 0x30" "low_tag 0x03" "low_tag 0xA0"
  by (simp_all add: low_tag_def)

text \<open>The two elements inside a SubjectPublicKeyInfo, wherever it stands.\<close>

lemma spki_inner_tlv:
  assumes "c = pre @ spki_element alg key @ post" "length c < 2 ^ 32"
    and "body = length pre + 1 + length (der_len (length (der_enc 0x30 alg @ der_enc 0x03 key)))"
  shows "\<exists>x y. der_tlv c (length pre) = Inr (0x30, body, length pre + length (spki_element alg key)) \<and>
     der_tlv c body = Inr (0x30, x, body + length (der_enc 0x30 alg)) \<and>
     der_tlv c (body + length (der_enc 0x30 alg)) =
       Inr (0x03, y, length pre + length (spki_element alg key))"
proof -
  let ?a = "der_enc 0x30 alg" and ?k = "der_enc 0x03 key"
  let ?h = "pre @ (of_nat 0x30 # der_len (length (?a @ ?k)))"
  have "length (der_enc 0x30 (?a @ ?k)) < 2 ^ 32"
    using assms(2) unfolding assms(1) spki_element_def by simp
  then have ak: "length (?a @ ?k) < 2 ^ 32"
    using content_shorter [of "?a @ ?k" "0x30"] by (rule le_less_trans [rotated])
  then have al: "length alg < 2 ^ 32" and kl: "length key < 2 ^ 32"
    using content_shorter [of alg "0x30"] content_shorter [of key "0x03"] by simp_all
  have b: "body = length ?h" using assms(3) by simp
  have c1: "c = ?h @ ?a @ (?k @ post)" and c2: "c = (?h @ ?a) @ ?k @ post"
    by (simp_all add: assms(1) spki_element_def der_enc_split [of "0x30" "?a @ ?k"])
  have "der_tlv c (length pre) = Inr (0x30, body, length pre + length (spki_element alg key))"
    unfolding assms(1,3) spki_element_def by (rule der_tlv_enc [OF tag_shape(1) ak refl])
  moreover have "der_tlv c body = Inr (0x30, body + 1 + length (der_len (length alg)), body + length ?a)"
    unfolding c1 by (rule der_tlv_enc [OF tag_shape(1) al b])
  moreover have "der_tlv c (body + length ?a) =
      Inr (0x03, body + length ?a + 1 + length (der_len (length key)), body + length ?a + length ?k)"
    unfolding c2 by (rule der_tlv_enc [OF tag_shape(2) kl]) (simp add: b)
  moreover have "body + length ?a + length ?k = length pre + length (spki_element alg key)"
    by (simp add: assms(3) spki_element_def length_der_enc [of "0x30" "?a @ ?k"])
  ultimately show ?thesis by metis
qed

lemma slice_middle: "slice (length pre) (length pre + length m) (pre @ m @ post) = m"
  by (simp add: slice_def)

lemma extract_spki_certificate:
  assumes "length (certificate v fs alg key rest tail) < 2 ^ 32"
    and "length fs = 5" "\<forall>f \<in> set fs. low_tag (fst f)" "fst (hd fs) \<noteq> 0xA0"
  shows "extract_spki_der (certificate v fs alg key rest tail) = Inr (spki_element alg key)"
proof -
  define tbs where "tbs = version_element v @ der_fields fs @ spki_element alg key @ rest"
  define body where "body = der_enc 0x30 tbs @ tail"
  define c where "c = certificate v fs alg key rest tail"
  define h1 where "h1 = (of_nat 0x30 # der_len (length body) :: bytes)"
  define h2 where "h2 = h1 @ (of_nat 0x30 # der_len (length tbs) :: bytes)"
  define te where "te = length h2 + length tbs"
  define st where "st = length h2 + length (version_element v)"
  define sp where "sp = st + length (der_fields fs)"
  have c: "c = der_enc 0x30 body" by (simp add: c_def certificate_def body_def tbs_def)
  have cl: "length c < 2 ^ 32" using assms(1) by (simp add: c_def)
  have "c = h1 @ body" unfolding c by (simp add: der_enc_split h1_def)
  then have c1: "c = h1 @ der_enc 0x30 tbs @ tail" by (simp add: body_def)
  then have c2: "c = h2 @ tbs @ tail" by (simp add: der_enc_split h2_def)
  have bl: "length body < 2 ^ 32" using cl content_shorter [of body "0x30"] by (simp add: c)
  have tl: "length tbs < 2 ^ 32" using bl content_shorter [of tbs "0x30"] by (simp add: body_def)
  have t0: "der_tlv c 0 = Inr (0x30, length h1, length c)"
    using der_tlv_enc [OF tag_shape(1) bl, of 0 "[]" "[]"] by (simp add: c h1_def)
  have t1: "der_tlv c (length h1) = Inr (0x30, length h2, te)"
    using der_tlv_enc [OF tag_shape(1) tl refl, where pre = h1 and post = tail]
    by (simp add: c1 h2_def te_def length_der_enc)
  obtain f fs' where f: "fs = f # fs'" using assms(2) by (cases fs) auto
  have t2: "\<exists>x. der_tlv c (length h2) = Inr ((case v of None \<Rightarrow> fst f | Some _ \<Rightarrow> 0xA0), x,
      (case v of None \<Rightarrow> length h2 + length (der_enc (fst f) (snd f)) | Some _ \<Rightarrow> st))"
  proof (cases v)
    case None
    have c3: "c = h2 @ der_enc (fst f) (snd f) @ (der_fields fs' @ spki_element alg key @ rest @ tail)"
      by (simp add: c2 tbs_def None version_element_def f der_fields_def)
    have "length (snd f) < 2 ^ 32" using cl content_shorter [of "snd f" "fst f"] unfolding c3 by simp
    then show ?thesis
      using der_tlv_enc [OF _ _ refl, of "fst f" "snd f" h2] assms(3) by (simp add: c3 None f)
  next
    case (Some w)
    have c3: "c = h2 @ der_enc 0xA0 w @ (der_fields fs @ spki_element alg key @ rest @ tail)"
      by (simp add: c2 tbs_def Some version_element_def)
    have "length w < 2 ^ 32" using cl content_shorter [of w "0xA0"] unfolding c3 by simp
    then show ?thesis
      using der_tlv_enc [OF tag_shape(3) _ refl, of w h2] by (simp add: c3 Some st_def version_element_def)
  qed
  have c4: "c = (h2 @ version_element v) @ der_fields fs @ (spki_element alg key @ rest @ tail)"
    by (simp add: c2 tbs_def)
  have skip: "skip_tbs_fields 5 c te st = Inr sp"
    using skip_tbs_fields_enc [OF assms(3), of "h2 @ version_element v" "spki_element alg key @ rest @ tail" te]
      cl assms(2) by (simp add: c4 st_def sp_def te_def tbs_def)
  have start: "(if (case v of None \<Rightarrow> fst f | Some _ \<Rightarrow> 0xA0) = 0xA0
      then (case v of None \<Rightarrow> length h2 + length (der_enc (fst f) (snd f)) | Some _ \<Rightarrow> st) else length h2) = st"
    using assms(4) by (cases v) (simp_all add: f st_def version_element_def)
  obtain T X E where first: "der_tlv c (length h2) = Inr (T, X, E)" "(if T = 0xA0 then E else length h2) = st"
    using t2 start by blast
  define pre where "pre = h2 @ version_element v @ der_fields fs"
  define sb where "sb = length pre + 1 + length (der_len (length (der_enc 0x30 alg @ der_enc 0x03 key)))"
  have pl: "length pre = sp" by (simp add: pre_def sp_def st_def)
  have c5: "c = pre @ spki_element alg key @ (rest @ tail)" by (simp add: c2 tbs_def pre_def)
  have le: "\<not> te < sp + length (spki_element alg key)" by (simp add: te_def tbs_def sp_def st_def)
  obtain x y where inner: "der_tlv c sp = Inr (0x30, sb, sp + length (spki_element alg key))"
      "der_tlv c sb = Inr (0x30, x, sb + length (der_enc 0x30 alg))"
      "der_tlv c (sb + length (der_enc 0x30 alg)) = Inr (0x03, y, sp + length (spki_element alg key))"
    using spki_inner_tlv [OF c5 cl sb_def] unfolding pl by blast
  have "slice sp (sp + length (spki_element alg key)) c = spki_element alg key"
    unfolding c5 pl [symmetric] by (rule slice_middle)
  moreover have "c \<noteq> []" by (simp add: c)
  ultimately have "extract_spki_der c = Inr (spki_element alg key)"
    unfolding extract_spki_der_def by (simp only: t0 t1 first skip inner le bindE.simps prod.case
        if_False simp_thms if_True)
  then show ?thesis by (simp add: c_def)
qed

text \<open>
  C16: the SubjectPublicKeyInfo of every well-formed certificate is extracted exactly.  For any
  certificate made of an optional version, five low-tag TBS fields, the key element and arbitrary
  further TBS content and signature, the result is the DER bytes of the key element and nothing else.
\<close>

theorem extract_spki_exact:
  assumes "length (certificate v fs alg key rest tail) < 2 ^ 32"
    and "length fs = 5" "\<forall>f \<in> set fs. low_tag (fst f)" "fst (hd fs) \<noteq> 0xA0"
  shows "extract_spki_der (certificate v fs alg key rest tail) = Inr (spki_element alg key)"
  using assms by (rule extract_spki_certificate)

text \<open>
  Whatever the reader accepts, the extracted bytes are one contiguous piece of the certificate
  and are themselves a canonical SEQUENCE of an algorithm SEQUENCE and a key BIT STRING, with no
  byte left over; the resulting TLS binding is the SHA-256 digest of exactly that element.
\<close>

lemma extract_spki_sound:
  assumes "tls_spki_binding cert = Inr b"
  shows "\<exists>pre alg key post. cert = pre @ spki_element alg key @ post \<and>
    b = \<lparr>binding_type = TLS_SPKI_SHA256, cb_digest = sha256 (spki_element alg key)\<rparr> \<and> wf_binding b"
proof -
  obtain sp where e: "extract_spki_der cert = Inr sp"
    and b: "b = \<lparr>binding_type = TLS_SPKI_SHA256, cb_digest = sha256 sp\<rparr>"
    using assms by (auto simp: tls_spki_binding_def)
  obtain st se bd ae x y where
    t: "der_tlv cert st = Inr (0x30, bd, se)" "der_tlv cert bd = Inr (0x30, x, ae)"
      "der_tlv cert ae = Inr (0x03, y, se)" and sl: "sp = slice st se cert"
    using e by (auto simp: extract_spki_der_def split: if_splits prod.splits)
  note s = der_tlv_sound [OF t(1)] der_tlv_sound [OF t(2)] der_tlv_sound [OF t(3)]
  have "slice bd se cert = slice bd ae cert @ slice ae se cert"
    using s by (intro slice_append_slice [symmetric]) linarith+
  then have spki: "sp = spki_element (slice x ae cert) (slice y se cert)"
    using s by (simp add: sl spki_element_def)
  have "cert = take st cert @ sp @ drop se cert"
    unfolding sl by (rule take_slice_drop [symmetric]) (use s(1) in linarith)
  then show ?thesis using b spki by (auto simp: wf_binding_def)
qed

text \<open>A small certificate: no version, five integers as fields, a one-byte algorithm and key.\<close>

definition sample_certificate :: bytes where
  "sample_certificate = certificate None
     [(2, [1]), (2, [1]), (2, [1]), (2, [1]), (2, [1])] [6] [7] [] [5, 0]"

lemma length_sample_certificate: "length sample_certificate < 2 ^ 32"
  by (simp add: sample_certificate_def certificate_def version_element_def der_fields_def
        spki_element_def der_enc_def der_len_def)

lemma extract_sample_certificate: "extract_spki_der sample_certificate = Inr (spki_element [6] [7])"
  unfolding sample_certificate_def
  by (rule extract_spki_certificate)
     (use length_sample_certificate in \<open>simp_all add: sample_certificate_def low_tag_def\<close>)

theorem extract_spki_exact_witness:
  "length sample_certificate < 2 ^ 32 \<and>
   extract_spki_der sample_certificate = Inr (spki_element [6] [7])"
  using extract_spki_exact [of None "[(2, [1]), (2, [1]), (2, [1]), (2, [1]), (2, [1])]" "[6]" "[7]" "[]" "[5, 0]"]
    length_sample_certificate
  by (simp add: sample_certificate_def low_tag_def)

lemma tls_spki_binding_sample:
  "tls_spki_binding sample_certificate =
     Inr \<lparr>binding_type = TLS_SPKI_SHA256, cb_digest = sha256 (spki_element [6] [7])\<rparr>"
  by (simp add: tls_spki_binding_def extract_sample_certificate)

lemma extract_spki_sound_witness:
  "\<exists>b. tls_spki_binding sample_certificate = Inr b \<and> wf_binding b"
  using extract_spki_sound [OF tls_spki_binding_sample] tls_spki_binding_sample by blast

end
