(* ===== verification/SnpReport.thy ===== *)
theory SnpReport
  imports Common
begin

text \<open>
  \<^verbatim>\<open>src/cathedral/verify/snp.py\<close>, the report: the parser of AMD SEV-SNP attestation reports, the production profile of a
  report and the TCB minimum.
\<close>

unbundle bit_operations_syntax

section \<open>The report\<close>

definition SNP_REPORT_SIZE :: nat where "SNP_REPORT_SIZE = 1184"
definition REPORT_DATA_OFFSET :: nat where "REPORT_DATA_OFFSET = 0x50"
definition REPORT_DATA_SIZE :: nat where "REPORT_DATA_SIZE = 64"
definition MEASUREMENT_OFFSET :: nat where "MEASUREMENT_OFFSET = 0x90"
definition MEASUREMENT_SIZE :: nat where "MEASUREMENT_SIZE = 48"
definition HOST_DATA_OFFSET :: nat where "HOST_DATA_OFFSET = 0xC0"
definition HOST_DATA_SIZE :: nat where "HOST_DATA_SIZE = 32"
definition CHIP_ID_OFFSET :: nat where "CHIP_ID_OFFSET = 0x1A0"
definition CHIP_ID_SIZE :: nat where "CHIP_ID_SIZE = 64"
definition SIGNATURE_OFFSET :: nat where "SIGNATURE_OFFSET = 0x2A0"
definition SIGNATURE_SIZE :: nat where "SIGNATURE_SIZE = 512"

lemmas snp_layout = SNP_REPORT_SIZE_def REPORT_DATA_OFFSET_def REPORT_DATA_SIZE_def MEASUREMENT_OFFSET_def MEASUREMENT_SIZE_def
  HOST_DATA_OFFSET_def HOST_DATA_SIZE_def CHIP_ID_OFFSET_def CHIP_ID_SIZE_def SIGNATURE_OFFSET_def SIGNATURE_SIZE_def

record SnpTcb =
  tcb_current :: nat
  tcb_reported :: nat
  tcb_committed :: nat
  tcb_launch :: nat

record SnpReport =
  sr_version :: nat
  sr_guest_svn :: nat
  sr_guest_policy :: nat
  sr_vmpl :: nat
  sr_signature_algo :: nat
  sr_platform_info :: nat
  sr_signer_info :: nat
  sr_cpuid_family :: nat
  sr_cpuid_model :: nat
  sr_cpuid_step :: nat
  sr_report_data :: bytes
  sr_measurement :: string
  sr_host_data :: bytes
  sr_chip_id :: string
  sr_tcb :: SnpTcb
  sr_signature :: bytes

text \<open>\<^verbatim>\<open>struct.unpack_from\<close> with the formats \<^verbatim>\<open><I\<close> and \<^verbatim>\<open><Q\<close>.\<close>

definition unpack_u32 :: "bytes \<Rightarrow> nat \<Rightarrow> nat" where
  "unpack_u32 r i = nat_of_le (slice i (i + 4) r)"

definition unpack_u64 :: "bytes \<Rightarrow> nat \<Rightarrow> nat" where
  "unpack_u64 r i = nat_of_le (slice i (i + 8) r)"

definition parse_snp_report :: "bytes \<Rightarrow> exn + SnpReport" where
  "parse_snp_report report =
     (if length report \<noteq> SNP_REPORT_SIZE then Inl (ValueError ''SNP report must be 1184 bytes'')
      else let signature = slice SIGNATURE_OFFSET (SIGNATURE_OFFSET + SIGNATURE_SIZE) report in
        if all_zero signature then Inl (ValueError ''SNP report signature is empty'')
        else Inr \<lparr>sr_version = unpack_u32 report 0x00, sr_guest_svn = unpack_u32 report 0x04,
          sr_guest_policy = unpack_u64 report 0x08, sr_vmpl = unpack_u32 report 0x30,
          sr_signature_algo = unpack_u32 report 0x34, sr_platform_info = unpack_u64 report 0x40,
          sr_signer_info = unpack_u32 report 0x48, sr_cpuid_family = unat (report ! 0x188),
          sr_cpuid_model = unat (report ! 0x189), sr_cpuid_step = unat (report ! 0x18A),
          sr_report_data = slice REPORT_DATA_OFFSET (REPORT_DATA_OFFSET + REPORT_DATA_SIZE) report,
          sr_measurement = hex_of (slice MEASUREMENT_OFFSET (MEASUREMENT_OFFSET + MEASUREMENT_SIZE) report),
          sr_host_data = slice HOST_DATA_OFFSET (HOST_DATA_OFFSET + HOST_DATA_SIZE) report,
          sr_chip_id = hex_of (slice CHIP_ID_OFFSET (CHIP_ID_OFFSET + CHIP_ID_SIZE) report),
          sr_tcb = \<lparr>tcb_current = unpack_u64 report 0x38, tcb_reported = unpack_u64 report 0x180,
            tcb_committed = unpack_u64 report 0x1E0, tcb_launch = unpack_u64 report 0x1F0\<rparr>,
          sr_signature = signature\<rparr>)"

section \<open>The production profile\<close>

datatype generation = MILAN | GENOA | TURIN

definition snp_generation :: "SnpReport \<Rightarrow> generation option" where
  "snp_generation p =
     (if sr_cpuid_family p = 0x19 \<and> sr_cpuid_model p \<le> 0x0F then Some MILAN
      else if sr_cpuid_family p = 0x19 \<and>
        ((0x10 \<le> sr_cpuid_model p \<and> sr_cpuid_model p \<le> 0x1F) \<or> (0xA0 \<le> sr_cpuid_model p \<and> sr_cpuid_model p \<le> 0xAF))
      then Some GENOA
      else if sr_cpuid_family p = 0x1A \<and> sr_cpuid_model p \<le> 0x11 then Some TURIN
      else None)"

definition SUPPORTED_REPORT_VERSIONS :: "nat set" where "SUPPORTED_REPORT_VERSIONS = {3, 4, 5}"
definition ECDSA_P384_SHA384 :: nat where "ECDSA_P384_SHA384 = 1"
definition GUEST_POLICY_RESERVED_ONE :: int where "GUEST_POLICY_RESERVED_ONE = push_bit 17 1"
definition GUEST_POLICY_MIGRATE_MA :: int where "GUEST_POLICY_MIGRATE_MA = push_bit 18 1"
definition GUEST_POLICY_DEBUG :: int where "GUEST_POLICY_DEBUG = push_bit 19 1"
definition SIGNER_INFO_MASK_CHIP_KEY :: int where "SIGNER_INFO_MASK_CHIP_KEY = push_bit 1 1"
definition SIGNER_INFO_SIGNING_KEY_SHIFT :: nat where "SIGNER_INFO_SIGNING_KEY_SHIFT = 2"
definition SIGNER_INFO_SIGNING_KEY_MASK :: int where "SIGNER_INFO_SIGNING_KEY_MASK = 7"

text \<open>\<^verbatim>\<open>bool(value & mask)\<close> on Python's integers.\<close>

definition has_bits :: "nat \<Rightarrow> int \<Rightarrow> bool" where
  "has_bits v m = (int v AND m \<noteq> 0)"

definition range_zero :: "bytes \<Rightarrow> nat \<Rightarrow> nat \<Rightarrow> bool" where
  "range_zero report start end' = all_zero (slice start end' report)"

definition reserved_ranges :: "SnpReport \<Rightarrow> generation \<Rightarrow> (nat \<times> nat) list" where
  "reserved_ranges p g =
     (let tcb = (if g \<in> {MILAN, GENOA} then (2, 6) else (4, 7)) in
      [(0x4C, 0x50), (0x18B, 0x1A0), (0x1EB, 0x1EC), (0x1EF, 0x1F0), (0x2D0, 0x2E8), (0x318, 0x330), (0x330, 0x4A0)] @
      [if sr_version p \<in> {3, 4} then (0x1F8, 0x2A0) else (0x208, 0x2A0)] @
      map (\<lambda>base. (base + fst tcb, base + snd tcb)) [0x38, 0x180, 0x1E0, 0x1F0])"

definition raw_report_reserved_fields_are_zero :: "bytes \<Rightarrow> SnpReport \<Rightarrow> generation \<Rightarrow> bool" where
  "raw_report_reserved_fields_are_zero report p g =
     (\<not> has_bits (sr_guest_policy p) (NOT (push_bit 26 1 - 1)) \<and>
      \<not> has_bits (sr_platform_info p) (NOT (if sr_version p = 5 then 0xBF else 0x3F)) \<and>
      \<not> has_bits (sr_signer_info p) (NOT 0x1F) \<and>
      list_all (\<lambda>(start, end'). range_zero report start end') (reserved_ranges p g))"

definition tcb_components :: "generation \<Rightarrow> nat list" where
  "tcb_components g = (if g \<in> {MILAN, GENOA} then [0, 1, 6, 7] else [0, 1, 2, 3, 7])"

definition tcb_reserved :: "generation \<Rightarrow> nat list" where
  "tcb_reserved g = (if g \<in> {MILAN, GENOA} then [2..<6] else [4..<7])"

definition tcb_meets_minimum :: "nat \<Rightarrow> int \<Rightarrow> generation \<Rightarrow> bool" where
  "tcb_meets_minimum candidate required g =
     (if \<not> (0 \<le> required \<and> required < 2 ^ 64) then False
      else let cb = le_bytes 8 candidate; rb = le_bytes 8 (nat required) in
        if list_ex (\<lambda>i. rb ! i \<noteq> 0) (tcb_reserved g) then False
        else list_all (\<lambda>i. unat (rb ! i) \<le> unat (cb ! i)) (tcb_components g))"

definition snp_report_is_admissible :: "bytes \<Rightarrow> SnpReport \<Rightarrow> bool" where
  "snp_report_is_admissible report p =
     (let signing_key = drop_bit SIGNER_INFO_SIGNING_KEY_SHIFT (int (sr_signer_info p)) AND SIGNER_INFO_SIGNING_KEY_MASK in
      sr_version p \<in> SUPPORTED_REPORT_VERSIONS \<and>
      (case snp_generation p of None \<Rightarrow> False | Some g \<Rightarrow> raw_report_reserved_fields_are_zero report p g) \<and>
      sr_vmpl p = 0 \<and> sr_signature_algo p = ECDSA_P384_SHA384 \<and>
      has_bits (sr_guest_policy p) GUEST_POLICY_RESERVED_ONE \<and> \<not> has_bits (sr_guest_policy p) GUEST_POLICY_DEBUG \<and>
      \<not> has_bits (sr_guest_policy p) GUEST_POLICY_MIGRATE_MA \<and> \<not> has_bits (sr_signer_info p) SIGNER_INFO_MASK_CHIP_KEY \<and>
      signing_key = 0 \<and> sr_chip_id p \<noteq> concat (replicate CHIP_ID_SIZE ''00'') \<and>
      sr_measurement p \<noteq> concat (replicate MEASUREMENT_SIZE ''00'') \<and>
      \<not> all_zero (le_bytes 8 (tcb_reported (sr_tcb p))))"

section \<open>Lemmas\<close>

lemma has_bits_push: "has_bits v (push_bit k 1) \<longleftrightarrow> bit v k"
proof -
  have "push_bit k (1 :: int) = 2 ^ k" by (simp add: push_bit_eq_mult)
  then show ?thesis by (simp add: has_bits_def and_exp_eq_0_iff_not_bit bit_of_nat_iff_bit)
qed

lemma guest_policy_bits:
  "has_bits v GUEST_POLICY_RESERVED_ONE \<longleftrightarrow> bit v 17" "has_bits v GUEST_POLICY_MIGRATE_MA \<longleftrightarrow> bit v 18"
  "has_bits v GUEST_POLICY_DEBUG \<longleftrightarrow> bit v 19"
  unfolding GUEST_POLICY_RESERVED_ONE_def GUEST_POLICY_MIGRATE_MA_def GUEST_POLICY_DEBUG_def by (rule has_bits_push)+

lemma parse_snp_report_Inr:
  assumes "parse_snp_report r = Inr p"
  shows "length r = 1184" "sr_report_data p = slice 0x50 0x90 r" "sr_measurement p = hex_of (slice 0x90 0xC0 r)"
    "sr_host_data p = slice 0xC0 0xE0 r" "sr_chip_id p = hex_of (slice 0x1A0 0x1E0 r)"
    "length (sr_report_data p) = 64" "length (sr_measurement p) = 96" "length (sr_chip_id p) = 128" "length (sr_host_data p) = 32"
  using assms by (auto simp: parse_snp_report_def snp_layout Let_def split: if_splits)

lemma hex_of_zeros: "hex_of (replicate n 0) = concat (replicate n ''00'')"
proof (induction n)
  case (Suc n)
  moreover have "hex_digit 0 = CHR ''0''" by code_simp
  ultimately show ?case by simp
qed simp

lemma admissible_identities:
  assumes "parse_snp_report r = Inr p" "snp_report_is_admissible r p"
  shows "\<exists>m chip. length m = 48 \<and> \<not> all_zero m \<and> sr_measurement p = hex_of m \<and>
    length chip = 64 \<and> \<not> all_zero chip \<and> sr_chip_id p = hex_of chip"
proof -
  let ?m = "slice 0x90 0xC0 r" and ?chip = "slice 0x1A0 0x1E0 r"
  note p = parse_snp_report_Inr [OF assms(1)]
  have len: "length ?m = 48" "length ?chip = 64" using p(1) by simp_all
  have "sr_measurement p \<noteq> hex_of (replicate 48 0)" "sr_chip_id p \<noteq> hex_of (replicate 64 0)"
    using assms(2) unfolding snp_report_is_admissible_def Let_def hex_of_zeros by (simp_all add: snp_layout)
  then have "\<not> all_zero ?m" "\<not> all_zero ?chip" using p(3,5) len by (auto simp: all_zero_eq)
  then show ?thesis using p(3,5) len by blast
qed

section \<open>A concrete report\<close>

definition snp_report_bytes :: "bytes \<Rightarrow> bytes \<Rightarrow> bytes \<Rightarrow> bytes \<Rightarrow> bytes" where
  "snp_report_bytes rd meas host chip =
     [3, 0, 0, 0, 0, 0, 0, 0, 0, 0, 2, 0, 0, 0, 0, 0] @ replicate 32 0 @ [0, 0, 0, 0, 1, 0, 0, 0, 1, 0, 0, 0, 0, 0, 0, 0] @
     replicate 16 0 @ rd @ meas @ host @ replicate 160 0 @ [1, 0, 0, 0, 0, 0, 0, 0] @ [0x19, 1, 0] @ replicate 21 0 @ chip @
     [1, 0, 0, 0, 0, 0, 0, 0] @ replicate 8 0 @ [1, 0, 0, 0, 0, 0, 0, 0] @ replicate 168 0 @ replicate 48 1 @ replicate 24 0 @
     replicate 48 1 @ replicate 24 0 @ replicate 368 0"

definition snp_report_fields :: "bytes \<Rightarrow> bytes \<Rightarrow> bytes \<Rightarrow> bytes \<Rightarrow> SnpReport" where
  "snp_report_fields rd meas host chip = \<lparr>sr_version = 3, sr_guest_svn = 0, sr_guest_policy = 131072, sr_vmpl = 0, sr_signature_algo = 1,
     sr_platform_info = 0, sr_signer_info = 0, sr_cpuid_family = 0x19, sr_cpuid_model = 1, sr_cpuid_step = 0,
     sr_report_data = rd, sr_measurement = hex_of meas, sr_host_data = host, sr_chip_id = hex_of chip,
     sr_tcb = \<lparr>tcb_current = 1, tcb_reported = 1, tcb_committed = 1, tcb_launch = 1\<rparr>,
     sr_signature = replicate 48 1 @ replicate 24 0 @ replicate 48 1 @ replicate 24 0 @ replicate 368 0\<rparr>"

lemma parse_sample_report:
  assumes "length rd = 64" "length meas = 48" "length host = 32" "length chip = 64"
  shows "parse_snp_report (snp_report_bytes rd meas host chip) = Inr (snp_report_fields rd meas host chip)"
proof -
  let ?r = "snp_report_bytes rd meas host chip"
  have len: "length ?r = 1184" using assms by (simp add: snp_report_bytes_def)
  have sl: "slice 0 4 ?r = [3, 0, 0, 0]" "slice 4 8 ?r = [0, 0, 0, 0]" "slice 8 16 ?r = [0, 0, 2, 0, 0, 0, 0, 0]"
    "slice 48 52 ?r = [0, 0, 0, 0]" "slice 52 56 ?r = [1, 0, 0, 0]" "slice 56 64 ?r = [1, 0, 0, 0, 0, 0, 0, 0]"
    "slice 64 72 ?r = replicate 8 0" "slice 72 76 ?r = replicate 4 0" "slice 80 144 ?r = rd" "slice 144 192 ?r = meas"
    "slice 192 224 ?r = host" "slice 384 392 ?r = [1, 0, 0, 0, 0, 0, 0, 0]" "slice 416 480 ?r = chip"
    "slice 480 488 ?r = [1, 0, 0, 0, 0, 0, 0, 0]" "slice 496 504 ?r = [1, 0, 0, 0, 0, 0, 0, 0]"
    "slice 672 1184 ?r = replicate 48 1 @ replicate 24 0 @ replicate 48 1 @ replicate 24 0 @ replicate 368 0"
    using assms by (simp_all add: snp_report_bytes_def slice_def)
  have nth: "?r ! 392 = 0x19" "?r ! 393 = 1" "?r ! 394 = 0"
    using assms by (simp_all add: snp_report_bytes_def nth_append)
  have le: "nat_of_le (replicate n 0) = 0" for n by (induction n) simp_all
  show ?thesis
    unfolding parse_snp_report_def snp_report_fields_def snp_layout unpack_u32_def unpack_u64_def Let_def
    by (simp add: len sl nth le all_zero_def list_all_iff)
qed

lemma sample_report_admissible:
  assumes "length rd = 64" "length meas = 48" "length host = 32" "length chip = 64" "\<not> all_zero meas" "\<not> all_zero chip"
  shows "snp_report_is_admissible (snp_report_bytes rd meas host chip) (snp_report_fields rd meas host chip)"
    "snp_generation (snp_report_fields rd meas host chip) = Some MILAN"
    "tcb_meets_minimum 1 1 MILAN"
proof -
  let ?r = "snp_report_bytes rd meas host chip" and ?p = "snp_report_fields rd meas host chip"
  show g: "snp_generation ?p = Some MILAN" by (simp add: snp_generation_def snp_report_fields_def)
  have le1: "le_bytes 8 1 = [1, 0, 0, 0, 0, 0, 0, 0]" by code_simp
  show "tcb_meets_minimum 1 1 MILAN"
  proof -
    have "[2..<6] = [2, 3, 4, 5 :: nat]" by code_simp
    then show ?thesis using le1 by (simp add: tcb_meets_minimum_def tcb_reserved_def tcb_components_def)
  qed
  have ranges: "list_all (\<lambda>(start, end'). range_zero ?r start end') (reserved_ranges ?p MILAN)"
    using assms by (simp add: reserved_ranges_def snp_report_fields_def range_zero_def snp_report_bytes_def slice_def Let_def)
       (simp add: all_zero_def)
  have "hex_of meas \<noteq> concat (replicate 48 ''00'')" "hex_of chip \<noteq> concat (replicate 64 ''00'')"
    unfolding hex_of_zeros [symmetric] using assms by (auto simp: all_zero_eq)
  moreover have "raw_report_reserved_fields_are_zero ?r ?p MILAN"
    using ranges by (simp add: raw_report_reserved_fields_are_zero_def) (simp add: has_bits_def snp_report_fields_def)
  moreover have "bit (131072 :: nat) 17" "\<not> bit (131072 :: nat) 18" "\<not> bit (131072 :: nat) 19" by (simp_all add: bit_iff_odd)
  ultimately show "snp_report_is_admissible ?r ?p"
    unfolding snp_report_is_admissible_def Let_def guest_policy_bits g option.case
    by (simp add: snp_report_fields_def SUPPORTED_REPORT_VERSIONS_def ECDSA_P384_SHA384_def has_bits_def snp_layout le1 [simplified] all_zero_def
        SIGNER_INFO_SIGNING_KEY_SHIFT_def)
qed

end
