(* ===== verification/TdxQuote.thy ===== *)
theory TdxQuote
  imports Sha2 Base64
begin

text \<open>
  \<^verbatim>\<open>src/cathedral/verify/tdx_quote.py\<close>: the strict parser of Intel TDX quotes and the identities
  derived from a parsed quote.  \<open>quote_bytes\<close> is the layout of a quote, written as the
  concatenation of its fields; the parser is shown to accept exactly those byte strings and to return
  exactly those fields.
\<close>

section \<open>Constants and data\<close>

definition QUOTE_HEADER_SIZE :: nat where "QUOTE_HEADER_SIZE = 48"
definition TD_REPORT_BODY_SIZE :: nat where "TD_REPORT_BODY_SIZE = 584"
definition QUOTE_SIGNATURE_DATA_LEN_OFFSET :: nat where
  "QUOTE_SIGNATURE_DATA_LEN_OFFSET = QUOTE_HEADER_SIZE + TD_REPORT_BODY_SIZE"
definition QUOTE_SIGNATURE_DATA_OFFSET :: nat where
  "QUOTE_SIGNATURE_DATA_OFFSET = QUOTE_SIGNATURE_DATA_LEN_OFFSET + 4"
definition QUOTE_SIGNATURE_SIZE :: nat where "QUOTE_SIGNATURE_SIZE = 64"
definition QUOTE_ATTESTATION_KEY_SIZE :: nat where "QUOTE_ATTESTATION_KEY_SIZE = 64"
definition QUOTE_CERTIFICATION_HEADER_SIZE :: nat where "QUOTE_CERTIFICATION_HEADER_SIZE = 6"
definition TDX_QUOTE_VERSION :: nat where "TDX_QUOTE_VERSION = 4"
definition TDX_TEE_TYPE :: nat where "TDX_TEE_TYPE = 129"
definition TDX_CERTIFICATION_DATA_TYPE_PCK_CHAIN :: nat where "TDX_CERTIFICATION_DATA_TYPE_PCK_CHAIN = 6"
definition MEASUREMENT_DOMAIN :: bytes where "MEASUREMENT_DOMAIN = ascii ''cathedral-tdx-measurement-v1'' @ [0]"
definition IMAGE_DOMAIN :: bytes where "IMAGE_DOMAIN = ascii ''cathedral-tdx-image-v1'' @ [0]"
definition MEASUREMENT_PREFIX :: string where "MEASUREMENT_PREFIX = ''tdx-measurement-sha256:''"
definition IMAGE_MEASUREMENT_PREFIX :: string where "IMAGE_MEASUREMENT_PREFIX = ''tdx-image-sha256:''"

lemmas quote_sizes = QUOTE_HEADER_SIZE_def TD_REPORT_BODY_SIZE_def QUOTE_SIGNATURE_DATA_LEN_OFFSET_def
  QUOTE_SIGNATURE_DATA_OFFSET_def QUOTE_SIGNATURE_SIZE_def QUOTE_ATTESTATION_KEY_SIZE_def
  QUOTE_CERTIFICATION_HEADER_SIZE_def TDX_QUOTE_VERSION_def TDX_TEE_TYPE_def
  TDX_CERTIFICATION_DATA_TYPE_PCK_CHAIN_def

datatype TdxQuoteParseError = TdxQuoteParseError string

record TdxQuoteHeader =
  qh_version :: nat
  attestation_key_type :: nat
  qh_tee_type :: nat
  qe_svn :: nat
  pce_svn :: nat
  qe_vendor_id :: bytes
  user_data :: bytes

record TdxReportBody =
  tee_tcb_svn :: bytes
  mr_seam :: bytes
  mr_signer_seam :: bytes
  seam_attributes :: bytes
  td_attributes :: bytes
  xfam :: bytes
  mr_td :: bytes
  mr_config_id :: bytes
  mr_owner :: bytes
  mr_owner_config :: bytes
  rtmr0 :: bytes
  rtmr1 :: bytes
  rtmr2 :: bytes
  rtmr3 :: bytes
  report_data :: bytes

definition rtmrs :: "TdxReportBody \<Rightarrow> bytes list" where
  "rtmrs b = [rtmr0 b, rtmr1 b, rtmr2 b, rtmr3 b]"

record ParsedTdxQuote =
  q_header :: TdxQuoteHeader
  q_body :: TdxReportBody
  attestation_key :: bytes
  certification_data_type :: nat
  certification_data :: bytes
  pck_leaf_cert_der :: bytes

definition quote_report_data :: "ParsedTdxQuote \<Rightarrow> bytes" where
  "quote_report_data q = report_data (q_body q)"

definition measurement_payload :: "TdxReportBody \<Rightarrow> bytes" where
  "measurement_payload b = MEASUREMENT_DOMAIN @ td_attributes b @ xfam b @ mr_td b @ mr_config_id b @
     mr_owner b @ mr_owner_config b @ concat (rtmrs b)"

definition measurement :: "ParsedTdxQuote \<Rightarrow> string" where
  "measurement q = MEASUREMENT_PREFIX @ hex_of (sha256 (measurement_payload (q_body q)))"

definition image_payload :: "TdxReportBody \<Rightarrow> bytes" where
  "image_payload b = IMAGE_DOMAIN @ td_attributes b @ xfam b @ mr_td b @ concat (rtmrs b)"

definition image_measurement :: "ParsedTdxQuote \<Rightarrow> string" where
  "image_measurement q = IMAGE_MEASUREMENT_PREFIX @ hex_of (sha256 (image_payload (q_body q)))"

definition tcb :: "ParsedTdxQuote \<Rightarrow> nat" where
  "tcb q = nat_of_be (tee_tcb_svn (q_body q))"

definition tcb_svn :: "ParsedTdxQuote \<Rightarrow> string" where
  "tcb_svn q = hex_of (tee_tcb_svn (q_body q))"

definition debug_enabled :: "ParsedTdxQuote \<Rightarrow> bool" where
  "debug_enabled q = odd (nat_of_le (td_attributes (q_body q)))"

definition attestation_key_id :: "ParsedTdxQuote \<Rightarrow> string" where
  "attestation_key_id q = ''tdx-ak-sha256:'' @ hex_of (sha256 (attestation_key q))"

definition platform_id :: "ParsedTdxQuote \<Rightarrow> string" where
  "platform_id q = ''tdx-pck-cert-sha256:'' @ hex_of (sha256 (pck_leaf_cert_der q))"

section \<open>Parser\<close>

text \<open>\<^verbatim>\<open>bytes.find\<close>: the first position where a pattern occurs.\<close>

fun find_at :: "'a list \<Rightarrow> 'a list \<Rightarrow> nat option" where
  "find_at p [] = (if p = [] then Some 0 else None)"
| "find_at p (x # s) = (if starts_with p (x # s) then Some 0 else map_option Suc (find_at p s))"

text \<open>\<^verbatim>\<open>b"".join(data.split())\<close> drops the ASCII white space.\<close>

definition is_space_byte :: "byte \<Rightarrow> bool" where
  "is_space_byte b = (b \<in> {9, 10, 11, 12, 13, 32})"

definition PEM_BEGIN :: bytes where "PEM_BEGIN = ascii ''-----BEGIN CERTIFICATE-----''"
definition PEM_END :: bytes where "PEM_END = ascii ''-----END CERTIFICATE-----''"

definition extract_first_pem_certificate :: "bytes \<Rightarrow> TdxQuoteParseError + bytes" where
  "extract_first_pem_certificate data = (case find_at PEM_BEGIN data of
      None \<Rightarrow> Inl (TdxQuoteParseError ''TDX certification data does not contain a PEM certificate'')
    | Some start \<Rightarrow> let rest = drop (start + length PEM_BEGIN) data in
        (case find_at PEM_END rest of
           None \<Rightarrow> Inl (TdxQuoteParseError ''TDX certification data has an unterminated PEM certificate'')
         | Some stop \<Rightarrow> (case b64decode (filter (\<lambda>b. \<not> is_space_byte b) (take stop rest)) of
             Inl e \<Rightarrow> Inl (TdxQuoteParseError ''TDX PCK leaf certificate is not valid base64'')
           | Inr der \<Rightarrow> if der = [] then Inl (TdxQuoteParseError ''TDX PCK leaf certificate is empty'') else Inr der)))"

definition parse_header :: "bytes \<Rightarrow> TdxQuoteHeader" where
  "parse_header d = \<lparr>qh_version = nat_of_le (slice 0 2 d), attestation_key_type = nat_of_le (slice 2 4 d),
     qh_tee_type = nat_of_le (slice 4 8 d), qe_svn = nat_of_le (slice 8 10 d), pce_svn = nat_of_le (slice 10 12 d),
     qe_vendor_id = slice 12 28 d, user_data = slice 28 48 d\<rparr>"

definition parse_body :: "bytes \<Rightarrow> TdxQuoteParseError + TdxReportBody" where
  "parse_body d =
     (if length d \<noteq> TD_REPORT_BODY_SIZE then Inl (TdxQuoteParseError ''TD report body must be 584 bytes'')
      else Inr \<lparr>tee_tcb_svn = slice 0 16 d, mr_seam = slice 16 64 d, mr_signer_seam = slice 64 112 d,
        seam_attributes = slice 112 120 d, td_attributes = slice 120 128 d, xfam = slice 128 136 d,
        mr_td = slice 136 184 d, mr_config_id = slice 184 232 d, mr_owner = slice 232 280 d,
        mr_owner_config = slice 280 328 d, rtmr0 = slice 328 376 d, rtmr1 = slice 376 424 d,
        rtmr2 = slice 424 472 d, rtmr3 = slice 472 520 d, report_data = slice 520 584 d\<rparr>)"

definition parse_signature_data ::
  "TdxQuoteHeader \<Rightarrow> TdxReportBody \<Rightarrow> bytes \<Rightarrow> TdxQuoteParseError + ParsedTdxQuote" where
  "parse_signature_data h b sd =
     (let key = slice QUOTE_SIGNATURE_SIZE (QUOTE_SIGNATURE_SIZE + QUOTE_ATTESTATION_KEY_SIZE) sd;
          cho = QUOTE_SIGNATURE_SIZE + QUOTE_ATTESTATION_KEY_SIZE;
          ctype = nat_of_le (slice cho (cho + 2) sd);
          csize = nat_of_le (slice (cho + 2) (cho + 6) sd);
          cdo = cho + QUOTE_CERTIFICATION_HEADER_SIZE;
          cde = cdo + csize
      in if all_zero key then Inl (TdxQuoteParseError ''TDX quote attestation key is empty'')
         else if ctype \<noteq> TDX_CERTIFICATION_DATA_TYPE_PCK_CHAIN
           then Inl (TdxQuoteParseError ''unsupported TDX certification data type'')
         else if length sd < cde then Inl (TdxQuoteParseError ''TDX certification data truncated'')
         else if cde \<noteq> length sd
           then Inl (TdxQuoteParseError ''TDX signature data has trailing bytes after certification data'')
         else let cdata = slice cdo cde sd in
           bindE (extract_first_pem_certificate cdata) (\<lambda>der.
             Inr \<lparr>q_header = h, q_body = b, attestation_key = key, certification_data_type = ctype,
                  certification_data = cdata, pck_leaf_cert_der = der\<rparr>))"

definition parse_tdx_quote :: "bytes \<Rightarrow> TdxQuoteParseError + ParsedTdxQuote" where
  "parse_tdx_quote raw =
     (if length raw < QUOTE_SIGNATURE_DATA_OFFSET + QUOTE_SIGNATURE_SIZE + QUOTE_ATTESTATION_KEY_SIZE
      then Inl (TdxQuoteParseError ''TDX quote too short'')
      else let header = parse_header (take QUOTE_HEADER_SIZE raw) in
        if qh_version header \<noteq> TDX_QUOTE_VERSION then Inl (TdxQuoteParseError ''unsupported TDX quote version'')
        else if qh_tee_type header \<noteq> TDX_TEE_TYPE then Inl (TdxQuoteParseError ''unsupported TDX tee_type'')
        else bindE (parse_body (slice QUOTE_HEADER_SIZE QUOTE_SIGNATURE_DATA_LEN_OFFSET raw)) (\<lambda>body.
          let sdl = nat_of_le (slice QUOTE_SIGNATURE_DATA_LEN_OFFSET QUOTE_SIGNATURE_DATA_OFFSET raw);
              fixed = QUOTE_SIGNATURE_SIZE + QUOTE_ATTESTATION_KEY_SIZE + QUOTE_CERTIFICATION_HEADER_SIZE;
              sde = QUOTE_SIGNATURE_DATA_OFFSET + sdl
          in if sdl < fixed then Inl (TdxQuoteParseError ''TDX signature data too short'')
             else if length raw < sde then Inl (TdxQuoteParseError ''TDX quote truncated inside signature data'')
             else parse_signature_data header body (slice QUOTE_SIGNATURE_DATA_OFFSET sde raw)))"

section \<open>The layout\<close>

definition header_bytes :: "TdxQuoteHeader \<Rightarrow> bytes" where
  "header_bytes h = le_bytes 2 (qh_version h) @ le_bytes 2 (attestation_key_type h) @ le_bytes 4 (qh_tee_type h) @
     le_bytes 2 (qe_svn h) @ le_bytes 2 (pce_svn h) @ qe_vendor_id h @ user_data h"

definition body_bytes :: "TdxReportBody \<Rightarrow> bytes" where
  "body_bytes b = tee_tcb_svn b @ mr_seam b @ mr_signer_seam b @ seam_attributes b @ td_attributes b @ xfam b @
     mr_td b @ mr_config_id b @ mr_owner b @ mr_owner_config b @ rtmr0 b @ rtmr1 b @ rtmr2 b @ rtmr3 b @ report_data b"

definition signature_bytes :: "bytes \<Rightarrow> ParsedTdxQuote \<Rightarrow> bytes" where
  "signature_bytes sig q = sig @ attestation_key q @ le_bytes 2 (certification_data_type q) @
     le_bytes 4 (length (certification_data q)) @ certification_data q"

definition quote_bytes :: "bytes \<Rightarrow> ParsedTdxQuote \<Rightarrow> bytes \<Rightarrow> bytes" where
  "quote_bytes sig q trailing = header_bytes (q_header q) @ body_bytes (q_body q) @
     le_bytes 4 (length (signature_bytes sig q)) @ signature_bytes sig q @ trailing"

definition wf_header :: "TdxQuoteHeader \<Rightarrow> bool" where
  "wf_header h = (qh_version h = 4 \<and> attestation_key_type h < 2 ^ 16 \<and> qh_tee_type h = 129 \<and>
     qe_svn h < 2 ^ 16 \<and> pce_svn h < 2 ^ 16 \<and> length (qe_vendor_id h) = 16 \<and> length (user_data h) = 20)"

definition wf_body :: "TdxReportBody \<Rightarrow> bool" where
  "wf_body b = (length (tee_tcb_svn b) = 16 \<and> length (mr_seam b) = 48 \<and> length (mr_signer_seam b) = 48 \<and>
     length (seam_attributes b) = 8 \<and> length (td_attributes b) = 8 \<and> length (xfam b) = 8 \<and>
     length (mr_td b) = 48 \<and> length (mr_config_id b) = 48 \<and> length (mr_owner b) = 48 \<and>
     length (mr_owner_config b) = 48 \<and> length (rtmr0 b) = 48 \<and> length (rtmr1 b) = 48 \<and>
     length (rtmr2 b) = 48 \<and> length (rtmr3 b) = 48 \<and> length (report_data b) = 64)"

definition wf_quote :: "ParsedTdxQuote \<Rightarrow> bool" where
  "wf_quote q = (wf_header (q_header q) \<and> wf_body (q_body q) \<and> length (attestation_key q) = 64 \<and>
     \<not> all_zero (attestation_key q) \<and> certification_data_type q = 6 \<and>
     134 + length (certification_data q) < 2 ^ 32 \<and>
     extract_first_pem_certificate (certification_data q) = Inr (pck_leaf_cert_der q))"

section \<open>Slices of consecutive fields\<close>

lemma slice_join: "i \<le> j \<Longrightarrow> j \<le> k \<Longrightarrow> slice i j xs @ slice j k xs @ r = slice i k xs @ r"
  using slice_append_slice [of i j k xs] by (metis append.assoc)

lemma le_bytes_slice: "length (slice i j xs) = k \<Longrightarrow> le_bytes k (nat_of_le (slice i j xs)) = slice i j xs"
  using le_bytes_nat_of_le by metis

lemma parse_header_bytes: "wf_header h \<Longrightarrow> parse_header (header_bytes h) = h"
  by (cases h) (simp add: parse_header_def header_bytes_def wf_header_def slice_def)

lemma header_bytes_parse:
  assumes "length d = 48" shows "header_bytes (parse_header d) = d"
  using assms
  by (simp add: header_bytes_def parse_header_def le_bytes_slice slice_join slice_append_slice)

lemma wf_parse_header:
  assumes "length d = 48" "qh_version (parse_header d) = 4" "qh_tee_type (parse_header d) = 129"
  shows "wf_header (parse_header d)"
proof -
  have "nat_of_le (slice i j d) < 2 ^ 16" if "j = i + 2" "j \<le> 48" for i j
    using nat_of_le_less [of "slice i j d"] that assms(1) by simp
  from this [of 4 2] this [of 10 8] this [of 12 10] assms
  show ?thesis by (simp add: wf_header_def parse_header_def)
qed

lemma parse_body_bytes: "wf_body b \<Longrightarrow> parse_body (body_bytes b) = Inr b"
  by (cases b) (simp add: parse_body_def body_bytes_def wf_body_def slice_def quote_sizes)

lemma body_bytes_parse: "parse_body d = Inr b \<Longrightarrow> body_bytes b = d \<and> wf_body b"
  by (auto simp: parse_body_def body_bytes_def wf_body_def quote_sizes slice_join slice_append_slice split: if_splits)

lemma parse_signature_bytes:
  assumes "wf_quote q" "length sig = 64"
  shows "parse_signature_data (q_header q) (q_body q) (signature_bytes sig q) = Inr q"
proof -
  let ?sd = "signature_bytes sig q"
  have len: "length (certification_data q) < 2 ^ 32" "length (attestation_key q) = 64"
    using assms(1) by (simp_all add: wf_quote_def)
  have "slice 64 128 ?sd = attestation_key q" "slice 128 130 ?sd = le_bytes 2 (certification_data_type q)"
    "slice 130 134 ?sd = le_bytes 4 (length (certification_data q))"
    "slice 134 (134 + length (certification_data q)) ?sd = certification_data q"
    "length ?sd = 134 + length (certification_data q)"
    using len assms(2) by (simp_all add: signature_bytes_def slice_def)
  moreover have "nat_of_le (le_bytes 4 (length (certification_data q))) = length (certification_data q)"
    using len(1) by simp
  ultimately show ?thesis
    using assms(1) by (simp add: parse_signature_data_def wf_quote_def quote_sizes Let_def)
qed

lemma signature_bytes_parse:
  assumes "parse_signature_data h b sd = Inr q" "134 \<le> length sd"
  shows "q_header q = h \<and> q_body q = b \<and> sd = signature_bytes (slice 0 64 sd) q \<and> length (attestation_key q) = 64 \<and>
    \<not> all_zero (attestation_key q) \<and> certification_data_type q = 6 \<and> length sd = 134 + length (certification_data q) \<and>
    extract_first_pem_certificate (certification_data q) = Inr (pck_leaf_cert_der q)"
proof -
  let ?n = "nat_of_le (slice 130 134 sd)"
  have p: "\<not> all_zero (slice 64 128 sd)" "nat_of_le (slice 128 130 sd) = 6" "134 + ?n = length sd"
    and q: "\<exists>der. extract_first_pem_certificate (slice 134 (134 + ?n) sd) = Inr der \<and>
      q = \<lparr>q_header = h, q_body = b, attestation_key = slice 64 128 sd, certification_data_type = 6,
        certification_data = slice 134 (134 + ?n) sd, pck_leaf_cert_der = der\<rparr>"
    using assms(1) by (auto simp: parse_signature_data_def quote_sizes Let_def split: if_splits)
  have two: "le_bytes 2 6 = slice 128 130 sd" using p(2) le_bytes_slice [of 128 130 sd 2] assms(2) by simp
  have len: "length (slice 134 (134 + ?n) sd) = ?n" using p(3) by simp
  have four: "le_bytes 4 ?n = slice 130 134 sd" using le_bytes_slice [of 130 134 sd 4] assms(2) by simp
  have "slice 0 64 sd @ slice 64 128 sd @ slice 128 130 sd @ slice 130 134 sd @ slice 134 (134 + ?n) sd = sd"
    using p(3) by (simp add: slice_join slice_append_slice)
  with q p two four len assms(2) show ?thesis by (auto simp: signature_bytes_def)
qed

lemma length_layout:
  "wf_header h \<Longrightarrow> length (header_bytes h) = 48" "wf_body b \<Longrightarrow> length (body_bytes b) = 584"
  by (simp_all add: header_bytes_def body_bytes_def wf_header_def wf_body_def)

lemma length_signature_bytes:
  "length sig = 64 \<Longrightarrow> wf_quote q \<Longrightarrow> length (signature_bytes sig q) = 134 + length (certification_data q)"
  by (simp add: signature_bytes_def wf_quote_def)

lemma parse_quote_bytes:
  assumes "wf_quote q" "length sig = 64"
  shows "parse_tdx_quote (quote_bytes sig q trailing) = Inr q"
proof -
  let ?h = "header_bytes (q_header q)" and ?b = "body_bytes (q_body q)" and ?s = "signature_bytes sig q"
  let ?raw = "quote_bytes sig q trailing"
  have len: "length ?h = 48" "length ?b = 584" "length ?s = 134 + length (certification_data q)"
    using assms length_layout length_signature_bytes by (simp_all add: wf_quote_def)
  have "take 48 ?raw = ?h" "slice 48 632 ?raw = ?b" "slice 632 636 ?raw = le_bytes 4 (length ?s)"
    "slice 636 (636 + length ?s) ?raw = ?s" "length ?raw = 636 + length ?s + length trailing"
    using len by (simp_all add: quote_bytes_def slice_def)
  moreover have "nat_of_le (le_bytes 4 (length ?s)) = length ?s"
    using len(3) assms(1) by (simp add: wf_quote_def)
  moreover have "parse_header ?h = q_header q" "parse_body ?b = Inr (q_body q)"
    using assms(1) parse_header_bytes parse_body_bytes by (simp_all add: wf_quote_def)
  moreover have "qh_version (q_header q) = 4" "qh_tee_type (q_header q) = 129"
    using assms(1) by (simp_all add: wf_quote_def wf_header_def)
  ultimately show ?thesis
    using len(3) parse_signature_bytes [OF assms] by (simp add: parse_tdx_quote_def quote_sizes Let_def)
qed

lemma quote_bytes_parse:
  assumes "parse_tdx_quote raw = Inr q"
  shows "\<exists>sig trailing. length sig = 64 \<and> raw = quote_bytes sig q trailing \<and> wf_quote q"
proof -
  let ?h = "parse_header (take 48 raw)" and ?n = "nat_of_le (slice 632 636 raw)"
  let ?sd = "slice 636 (636 + ?n) raw"
  obtain b where p: "764 \<le> length raw" "qh_version ?h = 4" "qh_tee_type ?h = 129"
    "parse_body (slice 48 632 raw) = Inr b" "134 \<le> ?n" "636 + ?n \<le> length raw"
    "parse_signature_data ?h b ?sd = Inr q"
    using assms by (auto simp: parse_tdx_quote_def quote_sizes Let_def not_less split: if_splits)
  have h: "wf_header ?h" "header_bytes ?h = take 48 raw"
    using p(1-3) wf_parse_header header_bytes_parse by simp_all
  have b: "body_bytes b = slice 48 632 raw" "wf_body b" using body_bytes_parse [OF p(4)] by simp_all
  have len: "length ?sd = ?n" using p(6) by simp
  have "134 \<le> length ?sd" using len p(5) by simp
  note s = signature_bytes_parse [OF p(7) this]
  then have sig: "signature_bytes (slice 0 64 ?sd) q = ?sd" and q: "q_header q = ?h" "q_body q = b"
    by (metis (no_types))+
  have n: "?n < 2 ^ 32" using nat_of_le_less [of "slice 632 636 raw"] p(1) by simp
  have four: "le_bytes 4 ?n = slice 632 636 raw" using le_bytes_slice [of 632 636 raw 4] p(1) by simp
  have "take 48 raw @ slice 48 632 raw @ slice 632 636 raw @ ?sd @ drop (636 + ?n) raw = raw"
    using take_slice_drop [of 48 "636 + ?n" raw] by (simp add: slice_join)
  then have "quote_bytes (slice 0 64 ?sd) q (drop (636 + ?n) raw) = raw"
    by (simp only: quote_bytes_def sig q h(2) b(1) len four)
  moreover have "wf_quote q" using s h(1) b(2) len n by (simp add: wf_quote_def)
  moreover have "length (slice 0 64 ?sd) = 64" using len p(5) by simp
  ultimately show ?thesis by metis
qed

text \<open>
  C11: the quote parser is exact.  A byte string is accepted, with a given result, exactly when it is the
  layout of that result: a version 4 TDX header, the fifteen fields of the report body at their
  widths, the signature length, a signature, a non-zero attestation key, and PCK-chain certification
  data of the stated size whose first PEM block decodes to the leaf certificate.  Only the signature
  and bytes after the signature data are free.
\<close>

theorem parse_tdx_quote_exact:
  "parse_tdx_quote raw = Inr q \<longleftrightarrow>
     (\<exists>sig trailing. length sig = 64 \<and> raw = quote_bytes sig q trailing \<and> wf_quote q)"
  using parse_quote_bytes quote_bytes_parse by blast

section \<open>Identities\<close>

lemma parse_wf: "parse_tdx_quote raw = Inr q \<Longrightarrow> wf_quote q"
  using quote_bytes_parse by blast

lemma image_payload_inject:
  assumes "wf_body b" "wf_body b'"
  shows "image_payload b = image_payload b' \<longleftrightarrow>
    td_attributes b = td_attributes b' \<and> xfam b = xfam b' \<and> mr_td b = mr_td b' \<and> rtmrs b = rtmrs b'"
  using assms by (simp add: image_payload_def rtmrs_def wf_body_def)

text \<open>
  C24: the image identity is exactly the guest-measured state.  Two accepted quotes have the same image
  measurement if and only if they agree on TD attributes, XFAM, MRTD and all four RTMRs, up to
  a SHA-256 collision of the two payloads; the fields set by whoever launches the TD play no part.
\<close>

theorem image_measurement_exact:
  assumes "parse_tdx_quote raw = Inr q" "parse_tdx_quote raw' = Inr q'"
  shows "image_measurement q = image_measurement q' \<longleftrightarrow>
    td_attributes (q_body q) = td_attributes (q_body q') \<and> xfam (q_body q) = xfam (q_body q') \<and>
    mr_td (q_body q) = mr_td (q_body q') \<and> rtmrs (q_body q) = rtmrs (q_body q') \<or>
    image_payload (q_body q) \<noteq> image_payload (q_body q') \<and>
    sha256 (image_payload (q_body q)) = sha256 (image_payload (q_body q'))"
  using image_payload_inject [of "q_body q" "q_body q'"] parse_wf [OF assms(1)] parse_wf [OF assms(2)]
  by (auto simp: image_measurement_def wf_quote_def)

lemma measurement_payload_image:
  assumes "wf_body b" "wf_body b'" "measurement_payload b = measurement_payload b'"
  shows "image_payload b = image_payload b'"
  using assms by (simp add: measurement_payload_def image_payload_def rtmrs_def wf_body_def)

lemma debug_bit: "wf_body (q_body q) \<Longrightarrow> debug_enabled q \<longleftrightarrow> odd (unat (hd (td_attributes (q_body q))))"
  by (cases "td_attributes (q_body q)") (simp_all add: wf_body_def debug_enabled_def)

section \<open>The leaf certificate\<close>

lemma starts_with_Cons_iff: "starts_with (c # p) (x # s) \<longleftrightarrow> c = x \<and> starts_with p s"
  by (auto simp: starts_with_def)

lemma find_at_skip:
  "c \<notin> set xs \<Longrightarrow> find_at (c # p) (xs @ (c # p) @ r) = Some (length xs)"
  by (induction xs) (auto simp: starts_with_Cons_iff)

lemma pem_markers:
  "PEM_BEGIN = 45 # tl PEM_BEGIN" "PEM_END = 45 # tl PEM_END"
  by (simp_all add: PEM_BEGIN_def PEM_END_def ascii_def)

text \<open>
  The leaf certificate survives PEM armour.  Whatever white space wraps the base64 text, and
  whatever follows the first block, the leaf that is extracted is the certificate that was encoded.
\<close>

lemma pem_leaf_roundtrip:
  assumes "der \<noteq> []" "45 \<notin> set pre" "45 \<notin> set text"
    and "filter (\<lambda>b. \<not> is_space_byte b) text = b64encode der"
  shows "extract_first_pem_certificate (pre @ PEM_BEGIN @ text @ PEM_END @ post) = Inr der"
proof -
  have "find_at PEM_BEGIN (pre @ PEM_BEGIN @ r) = Some (length pre)" for r
    using find_at_skip [OF assms(2), of "tl PEM_BEGIN" r] by (simp only: pem_markers(1) [symmetric])
  moreover have "find_at PEM_END (text @ PEM_END @ post) = Some (length text)"
    using find_at_skip [OF assms(3), of "tl PEM_END" post] by (simp only: pem_markers(2) [symmetric])
  ultimately show ?thesis
    using assms(1,4) by (simp add: extract_first_pem_certificate_def)
qed

section \<open>Concrete quotes\<close>

definition sample_cert :: bytes where
  "sample_cert = [] @ PEM_BEGIN @ ([10] @ b64encode [48, 0] @ [10]) @ PEM_END @ [10]"

definition sample_body :: "byte \<Rightarrow> TdxReportBody" where
  "sample_body owner = \<lparr>tee_tcb_svn = replicate 16 1, mr_seam = replicate 48 2, mr_signer_seam = replicate 48 0,
     seam_attributes = replicate 8 0, td_attributes = replicate 8 0, xfam = replicate 8 3, mr_td = replicate 48 4,
     mr_config_id = replicate 48 0, mr_owner = replicate 48 owner, mr_owner_config = replicate 48 0,
     rtmr0 = replicate 48 5, rtmr1 = replicate 48 6, rtmr2 = replicate 48 7, rtmr3 = replicate 48 0,
     report_data = replicate 64 9\<rparr>"

definition sample_quote :: "byte \<Rightarrow> ParsedTdxQuote" where
  "sample_quote owner = \<lparr>q_header = \<lparr>qh_version = 4, attestation_key_type = 2, qh_tee_type = 129, qe_svn = 0, pce_svn = 0,
       qe_vendor_id = replicate 16 8, user_data = replicate 20 0\<rparr>,
     q_body = sample_body owner, attestation_key = replicate 64 1, certification_data_type = 6,
     certification_data = sample_cert, pck_leaf_cert_der = [48, 0]\<rparr>"

lemma pem_leaf_roundtrip_witness:
  "extract_first_pem_certificate ([] @ PEM_BEGIN @ ([10] @ b64encode [48, 0] @ [10]) @ PEM_END @ [10]) = Inr [48, 0]"
  by (rule pem_leaf_roundtrip) (simp_all add: b64_char_def b64_pad_def is_space_byte_def)

lemma sample_cert_leaf: "extract_first_pem_certificate sample_cert = Inr [48, 0]"
proof -
  have "find_at PEM_BEGIN sample_cert = Some 0"
    using find_at_skip [of 45 "[]" "tl PEM_BEGIN"] by (simp add: sample_cert_def flip: pem_markers(1))
  moreover have "find_at PEM_END (([10] @ b64encode [48, 0] @ [10]) @ PEM_END @ [10]) = Some 6"
    using find_at_skip [of 45 "[10] @ b64encode [48, 0] @ [10]" "tl PEM_END" "[10]"]
    by (simp add: b64_char_def b64_pad_def flip: pem_markers(2))
  moreover have "b64decode (filter (\<lambda>b. \<not> is_space_byte b) ([10] @ b64encode [48, 0] @ [10])) = Inr [48, 0]"
    by code_simp
  ultimately show ?thesis
    by (simp add: extract_first_pem_certificate_def sample_cert_def)
qed

lemma sample_quote_wf: "wf_quote (sample_quote owner)"
proof -
  have "length sample_cert = 59" by (simp add: sample_cert_def PEM_BEGIN_def PEM_END_def)
  then show ?thesis
    using sample_cert_leaf
    by (simp add: wf_quote_def sample_quote_def wf_header_def wf_body_def sample_body_def all_zero_eq)
qed

theorem image_measurement_exact_witness:
  "\<exists>raw raw'. parse_tdx_quote raw = Inr (sample_quote 1) \<and> parse_tdx_quote raw' = Inr (sample_quote 2) \<and>
     image_measurement (sample_quote 1) = image_measurement (sample_quote 2)"
proof -
  have p: "parse_tdx_quote (quote_bytes (replicate 64 0) (sample_quote n) []) = Inr (sample_quote n)" for n
    by (rule parse_quote_bytes [OF sample_quote_wf]) simp
  have "image_measurement (sample_quote 1) = image_measurement (sample_quote 2)"
    using image_measurement_exact [OF p p, of 1 2] by (simp add: sample_quote_def sample_body_def rtmrs_def)
  with p show ?thesis by blast
qed

end
