(* ===== verification/RootBinding.thy ===== *)
theory RootBinding
  imports SnpReport TdxQuote Pytext
begin

text \<open>
  \<^verbatim>\<open>src/cathedral/tee_box/measured_root.py\<close> and \<^verbatim>\<open>src/cathedral/capacity/tee_honesty.py\<close>: the digest of the
  central root keys that a launch binds into MRCONFIGID (TDX) or HOST\_DATA (SEV-SNP), how a guest reads its own, and the
  check that an admission makes on a quote.  The devices, the \<^verbatim>\<open>snpguest\<close> command and the random bytes are arguments.
  Python's \<^verbatim>\<open>repr\<close> of a name in a message is the name in quotes.
\<close>

section \<open>The measured binding\<close>

definition TDX_REPORTDATA_LEN :: nat where "TDX_REPORTDATA_LEN = 64"
definition TDX_REPORT_LEN :: nat where "TDX_REPORT_LEN = 1024"
definition TDX_REPORT_TYPE_TDX :: byte where "TDX_REPORT_TYPE_TDX = 0x81"
definition REPORTDATA_OFFSET :: nat where "REPORTDATA_OFFSET = 128"
definition MRCONFIGID_OFFSET :: nat where "MRCONFIGID_OFFSET = 512 + 8 + 8 + 48"
definition MRCONFIGID_LEN :: nat where "MRCONFIGID_LEN = 48"

definition snp_report_size :: nat where "snp_report_size = 1184"
definition snp_report_data_offset :: nat where "snp_report_data_offset = 0x50"
definition snp_report_data_size :: nat where "snp_report_data_size = 64"
definition snp_host_data_offset :: nat where "snp_host_data_offset = 0xC0"
definition snp_host_data_size :: nat where "snp_host_data_size = 32"

lemmas root_layout = TDX_REPORTDATA_LEN_def TDX_REPORT_LEN_def TDX_REPORT_TYPE_TDX_def REPORTDATA_OFFSET_def
  MRCONFIGID_OFFSET_def MRCONFIGID_LEN_def snp_report_size_def snp_report_data_offset_def snp_report_data_size_def
  snp_host_data_offset_def snp_host_data_size_def

datatype MeasuredRootError = MeasuredRootError string

text \<open>
  The request buffer is shared with the kernel: what the device answers overwrites its front, and its length does not
  change.  \<open>opened\<close> says whether the device could be opened and \<open>ioctl\<close> is \<open>None\<close> when the call fails.
\<close>

definition overwrite :: "bytes \<Rightarrow> bytes \<Rightarrow> bytes" where
  "overwrite answer buffer = take (length buffer) answer @ drop (length answer) buffer"

definition read_tdx_mrconfigid :: "string \<Rightarrow> bytes \<Rightarrow> bool \<Rightarrow> (bytes \<Rightarrow> bytes option) \<Rightarrow> MeasuredRootError + bytes" where
  "read_tdx_mrconfigid device random opened ioctl =
     (let request = random @ replicate TDX_REPORT_LEN 0 in
      if \<not> opened then Inl (MeasuredRootError (''the TD report device '' @ device @
        '' is unavailable; the TEE box reads its MRCONFIGID from it''))
      else case ioctl request of
        None \<Rightarrow> Inl (MeasuredRootError ''the TDX module refused a TD report'')
      | Some answer \<Rightarrow>
          let report = drop TDX_REPORTDATA_LEN (overwrite answer request);
              echoed = slice REPORTDATA_OFFSET (REPORTDATA_OFFSET + TDX_REPORTDATA_LEN) report in
          if report ! 0 \<noteq> TDX_REPORT_TYPE_TDX then Inl (MeasuredRootError ''the TD report is not a TDX report'')
          else if echoed \<noteq> random then Inl (MeasuredRootError ''the TD report does not carry the requested REPORTDATA'')
          else Inr (slice MRCONFIGID_OFFSET (MRCONFIGID_OFFSET + MRCONFIGID_LEN) report))"

text \<open>A binary on the path, if there is one, and whether it is a file that can be run.\<close>

definition resolve_snpguest :: "string option \<Rightarrow> bool \<Rightarrow> MeasuredRootError + string" where
  "resolve_snpguest candidate executable = (case candidate of
      None \<Rightarrow> Inl (MeasuredRootError
        ''snpguest is unavailable; the TEE box reads HOST_DATA from an SNP report through it'')
    | Some path \<Rightarrow>
        if path = [] then Inl (MeasuredRootError
          ''snpguest is unavailable; the TEE box reads HOST_DATA from an SNP report through it'')
        else if \<not> executable then Inl (MeasuredRootError (''snpguest at '' @ path @
          '' is not executable; the TEE box reads HOST_DATA from an SNP report through it''))
        else Inr path)"

text \<open>
  One run of \<^verbatim>\<open>snpguest report\<close> on the random request: the bytes of the report file, a timeout, a refusal with its
  standard error and output, an unreadable report file, or another failed system call with its text.
\<close>

datatype report_run = ReportFile bytes | ReportTimedOut | ReportRefused string string | ReportUnreadable | ReportOsError string

definition read_snp_host_data ::
  "string \<Rightarrow> bool \<Rightarrow> string option \<Rightarrow> bool \<Rightarrow> bytes \<Rightarrow> (bytes \<Rightarrow> report_run) \<Rightarrow> MeasuredRootError + bytes" where
  "read_snp_host_data device exists candidate executable random run =
     (if \<not> exists then Inl (MeasuredRootError (''the SEV-SNP guest device '' @ device @
        '' is unavailable; the TEE box reads its HOST_DATA from an SNP report collected through it''))
      else bindE (resolve_snpguest candidate executable) (\<lambda>binary.
        case run random of
          ReportTimedOut \<Rightarrow> Inl (MeasuredRootError ''snpguest report timed out after 30s while reading HOST_DATA'')
        | ReportRefused stderr stdout \<Rightarrow>
            let detail = py_strip (if stderr \<noteq> [] then stderr else stdout) in
            Inl (MeasuredRootError (''snpguest refused an SNP report while reading HOST_DATA'' @
              (if detail = [] then [] else '': '' @ detail)))
        | ReportUnreadable \<Rightarrow> Inl (MeasuredRootError ''the SNP report file is unreadable while reading HOST_DATA'')
        | ReportOsError text \<Rightarrow> Inl (MeasuredRootError (''cannot collect an SNP report for HOST_DATA: '' @ text))
        | ReportFile content \<Rightarrow>
            let report = take (snp_report_size + 1) content;
                echoed = slice snp_report_data_offset (snp_report_data_offset + snp_report_data_size) report in
            if length report \<noteq> snp_report_size
            then Inl (MeasuredRootError (''snpguest returned '' @ show_nat (length report) @ '' bytes, expected '' @
              show_nat snp_report_size @ '', while reading HOST_DATA''))
            else if echoed \<noteq> random
            then Inl (MeasuredRootError ''the SNP report does not carry the requested REPORT_DATA while reading HOST_DATA'')
            else Inr (slice snp_host_data_offset (snp_host_data_offset + snp_host_data_size) report)))"

datatype binding_reader = Reader_tdx_mrconfigid | Reader_snp_host_data

definition default_binding_reader :: "string \<Rightarrow> MeasuredRootError + binding_reader" where
  "default_binding_reader tee =
     (if tee = ''tdx'' then Inr Reader_tdx_mrconfigid
      else if tee = ''snp'' then Inr Reader_snp_host_data
      else Inl (MeasuredRootError (''the TEE box has no measured root binding for TEE '' @ [CHR 0x27] @ tee @ [CHR 0x27])))"

definition root_digest_from_mrconfigid :: "bytes \<Rightarrow> MeasuredRootError + string" where
  "root_digest_from_mrconfigid mrconfigid =
     (if length mrconfigid \<noteq> MRCONFIGID_LEN then Inl (MeasuredRootError ''MRCONFIGID must be 48 bytes'')
      else let digest = take 32 mrconfigid; padding = drop 32 mrconfigid in
        if \<not> all_zero padding
        then Inl (MeasuredRootError ''MRCONFIGID must hold sha256(root key file) followed by 16 zero bytes'')
        else if all_zero digest then Inl (MeasuredRootError ''MRCONFIGID is zero: the launch bound no central root'')
        else Inr (''sha256:'' @ hex_of digest))"

definition root_digest_from_host_data :: "bytes \<Rightarrow> MeasuredRootError + string" where
  "root_digest_from_host_data host_data =
     (if length host_data \<noteq> snp_host_data_size then Inl (MeasuredRootError ''HOST_DATA must be 32 bytes'')
      else if all_zero host_data then Inl (MeasuredRootError ''HOST_DATA is zero: the launch bound no central root'')
      else Inr (''sha256:'' @ hex_of host_data))"

definition mrconfigid_for_root_keys :: "bytes \<Rightarrow> MeasuredRootError + bytes" where
  "mrconfigid_for_root_keys data =
     (if data = [] then Inl (MeasuredRootError ''the root key file must be non-empty bytes'')
      else Inr (sha256 data @ replicate (MRCONFIGID_LEN - 32) 0))"

definition host_data_for_root_keys :: "bytes \<Rightarrow> MeasuredRootError + bytes" where
  "host_data_for_root_keys data =
     (if data = [] then Inl (MeasuredRootError ''the root key file must be non-empty bytes'') else Inr (sha256 data))"

section \<open>The root pin of an admission\<close>

definition ROOT_BINDING_MISMATCH :: string where "ROOT_BINDING_MISMATCH = ''root_binding_mismatch''"
definition ROOT_BINDING_MISSING :: string where "ROOT_BINDING_MISSING = ''root_binding_missing''"
definition ROOT_BINDING_ZERO :: string where "ROOT_BINDING_ZERO = ''root_binding_zero''"

definition normalize_expected_root_digest :: "string option \<Rightarrow> exn + string option" where
  "normalize_expected_root_digest v = (case v of
      None \<Rightarrow> Inr None
    | Some s \<Rightarrow>
        if \<not> is_sha256_label s
        then Inl (ValueError ''expected_root_digest must be sha256:<64 lowercase hex> or None'')
        else Inr (Some s))"

text \<open>The exceptions of this function are all \<^verbatim>\<open>ValueError\<close>: \<open>Inl\<close> is the message.\<close>

definition quote_root_digest :: "string \<Rightarrow> bytes \<Rightarrow> string + string" where
  "quote_root_digest kind quote =
     (if kind = ''tdx'' then (case parse_tdx_quote quote of
          Inl (TdxQuoteParseError m) \<Rightarrow> Inl (''quote: '' @ m)
        | Inr parsed \<Rightarrow> (case root_digest_from_mrconfigid (mr_config_id (q_body parsed)) of
              Inl (MeasuredRootError m) \<Rightarrow> Inl m
            | Inr d \<Rightarrow> Inr d))
      else if kind = ''sev_snp'' then (case parse_snp_report quote of
          Inl e \<Rightarrow> Inl (''quote: '' @ (case e of ValueError m \<Rightarrow> m | _ \<Rightarrow> []))
        | Inr report \<Rightarrow> (case root_digest_from_host_data (sr_host_data report) of
              Inl (MeasuredRootError m) \<Rightarrow> Inl m
            | Inr d \<Rightarrow> Inr d))
      else Inl (''unsupported tee kind for root binding: '' @ kind))"

definition check_root_binding :: "string \<Rightarrow> bytes \<Rightarrow> string option \<Rightarrow> exn + string option" where
  "check_root_binding kind quote expected_root_digest =
     bindE (normalize_expected_root_digest expected_root_digest) (\<lambda>pin. case pin of
         None \<Rightarrow> Inr None
       | Some pinned \<Rightarrow> (case quote_root_digest kind quote of
             Inl message \<Rightarrow> Inr (Some (if occurs_in ''zero'' message then ROOT_BINDING_ZERO else ROOT_BINDING_MISSING))
           | Inr actual \<Rightarrow> Inr (if actual \<noteq> pinned then Some ROOT_BINDING_MISMATCH else None)))"

section \<open>Lemmas\<close>

lemma root_digest_from_mrconfigid_Inr:
  "root_digest_from_mrconfigid m = Inr d \<longleftrightarrow>
     (\<exists>h. length h = 32 \<and> \<not> all_zero h \<and> m = h @ replicate 16 0 \<and> d = ''sha256:'' @ hex_of h)"
proof
  assume d: "root_digest_from_mrconfigid m = Inr d"
  then have m: "length m = 48" "drop 32 m = replicate 16 0" "\<not> all_zero (take 32 m)" "d = ''sha256:'' @ hex_of (take 32 m)"
    by (auto simp: root_digest_from_mrconfigid_def root_layout Let_def all_zero_eq [of "drop 32 m"] split: if_splits)
  have "m = take 32 m @ replicate 16 0" using append_take_drop_id [of 32 m] by (simp only: m(2))
  then show "\<exists>h. length h = 32 \<and> \<not> all_zero h \<and> m = h @ replicate 16 0 \<and> d = ''sha256:'' @ hex_of h"
    using m by (intro exI [of _ "take 32 m"]) simp
qed (auto simp: root_digest_from_mrconfigid_def root_layout)

lemma root_digest_from_host_data_Inr:
  "root_digest_from_host_data h = Inr d \<longleftrightarrow> length h = 32 \<and> \<not> all_zero h \<and> d = ''sha256:'' @ hex_of h"
  by (auto simp: root_digest_from_host_data_def root_layout)

lemma is_sha256_label_hex: "length h = 32 \<Longrightarrow> is_sha256_label (''sha256:'' @ hex_of h)"
  by (simp add: is_sha256_label_def starts_with_def)

lemma quote_root_digest_Inr:
  "quote_root_digest kind quote = Inr d \<longleftrightarrow>
     kind = ''tdx'' \<and> (\<exists>q. parse_tdx_quote quote = Inr q \<and> root_digest_from_mrconfigid (mr_config_id (q_body q)) = Inr d) \<or>
     kind = ''sev_snp'' \<and> (\<exists>p. parse_snp_report quote = Inr p \<and> root_digest_from_host_data (sr_host_data p) = Inr d)"
  by (auto simp: quote_root_digest_def split: sum.splits TdxQuoteParseError.splits MeasuredRootError.splits)

text \<open>What a guest reads about itself is an answer to its own fresh request.\<close>

lemma read_tdx_mrconfigid_Inr:
  assumes "read_tdx_mrconfigid device random opened ioctl = Inr m" "length random = 64"
  shows "length m = 48 \<and> opened \<and> (\<exists>answer. ioctl (random @ replicate 1024 0) = Some answer)"
  using assms by (auto simp: read_tdx_mrconfigid_def root_layout Let_def overwrite_def split: if_splits option.splits)

lemma read_snp_host_data_Inr:
  assumes "read_snp_host_data device exists candidate executable random run = Inr h"
  shows "\<exists>report. run random = ReportFile report \<and> length report = 1184 \<and> slice 0x50 0x90 report = random \<and>
    h = slice 0xC0 0xE0 report"
  using assms
  by (auto simp: read_snp_host_data_def root_layout Let_def min_def split: if_splits report_run.splits)

text \<open>
  C28: the root pin holds exactly for the pinned launch.  With a pin, a quote passes the root check if and only if it is a well
  formed quote of the kind whose launch field, MRCONFIGID followed by sixteen zero bytes on TDX and HOST\_DATA on SEV-SNP, is
  the pinned digest and is not zero; a launch that bound no root, or another one, is refused.
\<close>

theorem check_root_binding_exact:
  "check_root_binding kind quote (Some pin) = Inr None \<longleftrightarrow>
     (\<exists>h. length h = 32 \<and> \<not> all_zero h \<and> pin = ''sha256:'' @ hex_of h \<and>
       (kind = ''tdx'' \<and> (\<exists>q. parse_tdx_quote quote = Inr q \<and> mr_config_id (q_body q) = h @ replicate 16 0) \<or>
        kind = ''sev_snp'' \<and> (\<exists>p. parse_snp_report quote = Inr p \<and> sr_host_data p = h)))" (is "?lhs \<longleftrightarrow> ?rhs")
proof -
  have "?lhs \<longleftrightarrow> is_sha256_label pin \<and> quote_root_digest kind quote = Inr pin"
    by (auto simp: check_root_binding_def normalize_expected_root_digest_def split: sum.splits if_splits)
  also have "\<dots> \<longleftrightarrow> ?rhs"
    unfolding quote_root_digest_Inr root_digest_from_mrconfigid_Inr root_digest_from_host_data_Inr
    using is_sha256_label_hex by blast
  finally show ?thesis .
qed

text \<open>What a launch binds for a root key file is what the check reads back, up to a digest of zeros.\<close>

lemma root_keys_roundtrip:
  assumes "data \<noteq> []" "\<not> all_zero (sha256 data)"
  shows "bindE (mrconfigid_for_root_keys data) root_digest_from_mrconfigid = Inr (''sha256:'' @ hex_of (sha256 data))"
    "bindE (host_data_for_root_keys data) root_digest_from_host_data = Inr (''sha256:'' @ hex_of (sha256 data))"
  using assms by (simp_all add: mrconfigid_for_root_keys_def host_data_for_root_keys_def root_digest_from_host_data_Inr
      root_digest_from_mrconfigid_Inr root_layout)

text \<open>
  C39: the reasons of the check are not distinct as its comment says.  A TDX launch whose MRCONFIGID carries a root digest but is
  not padded with zeros is refused as root\_binding\_zero, the reason for a launch that bound no root, because
  the text of that error names the sixteen zero bytes.
\<close>

theorem padded_root_reported_as_zero:
  assumes "parse_tdx_quote quote = Inr q" "\<not> all_zero (drop 32 (mr_config_id (q_body q)))" "is_sha256_label pin"
  shows "check_root_binding ''tdx'' quote (Some pin) = Inr (Some ROOT_BINDING_ZERO)"
proof -
  have len: "length (mr_config_id (q_body q)) = 48" using parse_wf [OF assms(1)] by (simp add: wf_quote_def wf_body_def)
  have "occurs_in ''zero'' ''MRCONFIGID must hold sha256(root key file) followed by 16 zero bytes''" by code_simp
  then show ?thesis
    using assms len by (simp add: check_root_binding_def normalize_expected_root_digest_def quote_root_digest_def
        root_digest_from_mrconfigid_def root_layout)
qed

section \<open>Concrete quotes\<close>

definition bound_quote :: "bytes \<Rightarrow> bytes \<Rightarrow> bytes \<Rightarrow> ParsedTdxQuote" where
  "bound_quote config register data = (sample_quote 1)\<lparr>q_body :=
     (sample_body 1)\<lparr>mr_config_id := config, rtmr3 := register, TdxQuote.report_data := data\<rparr>\<rparr>"

definition bound_quote_bytes :: "bytes \<Rightarrow> bytes \<Rightarrow> bytes \<Rightarrow> bytes" where
  "bound_quote_bytes config register data = quote_bytes (replicate 64 0) (bound_quote config register data) []"

lemma parse_bound_quote:
  assumes "length config = 48" "length register = 48" "length data = 64"
  shows "parse_tdx_quote (bound_quote_bytes config register data) = Inr (bound_quote config register data)"
proof -
  have "wf_quote (bound_quote config register data)"
    using sample_quote_wf [of 1] assms by (simp add: bound_quote_def wf_quote_def wf_body_def sample_quote_def sample_body_def)
  then show ?thesis unfolding bound_quote_bytes_def by (rule parse_quote_bytes) simp
qed

theorem padded_root_reported_as_zero_witness:
  "check_root_binding ''tdx'' (bound_quote_bytes (replicate 48 7) (replicate 48 0) (replicate 64 0))
     (Some (''sha256:'' @ hex_of (replicate 32 7))) = Inr (Some ROOT_BINDING_ZERO)"
proof (rule padded_root_reported_as_zero)
  show "parse_tdx_quote (bound_quote_bytes (replicate 48 7) (replicate 48 0) (replicate 64 0)) =
    Inr (bound_quote (replicate 48 7) (replicate 48 0) (replicate 64 0))" by (rule parse_bound_quote) simp_all
  show "\<not> all_zero (drop 32 (mr_config_id (q_body (bound_quote (replicate 48 7) (replicate 48 0) (replicate 64 0)))))"
    by (simp add: bound_quote_def all_zero_def list_all_iff)
  show "is_sha256_label (''sha256:'' @ hex_of (replicate 32 7))" by (rule is_sha256_label_hex) simp
qed

lemma tdx_measurement_nonzero: "\<not> all_zero (sha256 (measurement_payload (sample_body 1)))"
  by code_simp

end
