(* ===== verification/SnpChain.thy ===== *)
theory SnpChain
  imports SnpReport Pytext "HOL-Library.AList"
begin

text \<open>
  \<^verbatim>\<open>src/cathedral/verify/snp.py\<close>, the vendor chain: the pinned \<^verbatim>\<open>snpguest\<close> binary, the reader of certificate files, the
  certificate cache, one chain check, its retries, and the verification of a report.

  What is outside is one argument, the world: the outcome of the \<open>n\<close>-th external action (a command of \<^verbatim>\<open>snpguest\<close> with
  the certificate directory after it, or a file operation), the monotonic clock and the random factor of a wait.  The subject public
  key of a certificate is taken by the \<^verbatim>\<open>cryptography\<close> package: a field of \<open>snp_trust\<close>.  The cache is used by one check at a time.
\<close>

section \<open>Files\<close>

definition PINNED_SNPGUEST_SHA256 :: string where
  "PINNED_SNPGUEST_SHA256 = ''70e700465e3523e67dd5104583dc36cd11eef630c6f04c5b9ccafd6ba2e76ca0''"
definition MAX_SNPGUEST_BYTES :: nat where "MAX_SNPGUEST_BYTES = 64 * 1024 * 1024"
definition MAX_AMD_CERTIFICATE_BYTES :: nat where "MAX_AMD_CERTIFICATE_BYTES = 64 * 1024"

fun PINNED_AMD_ARK_SPKI_SHA256 :: "generation \<Rightarrow> string" where
  "PINNED_AMD_ARK_SPKI_SHA256 MILAN = ''9f056bee44377e29308cb5ffa895bdfb62d18881fa6bed8d6f075b0204089cb9''"
| "PINNED_AMD_ARK_SPKI_SHA256 GENOA = ''429a69c9422aa258ee4d8db5fcda9c6470ef15f8cd5a9cebd6cbc7d90b863831''"
| "PINNED_AMD_ARK_SPKI_SHA256 TURIN = ''4f125410563a2ab9a50356f9243f6fe0b6f73de98603f53f90339c70e9d7ad08''"

text \<open>
  What a chain check trusts: the digest of the verifier and the root key of each generation, which are constants of the module (and
  which its tests replace), and the reader of the public key of a certificate.  \<open>amd_trust\<close> has the constants of the module.
\<close>

record snp_trust =
  tr_snpguest_pin :: string
  tr_ark_pin :: "generation \<Rightarrow> string"
  tr_spki_of :: "bytes \<Rightarrow> bytes option"

definition amd_trust :: "(bytes \<Rightarrow> bytes option) \<Rightarrow> snp_trust" where
  "amd_trust spki_of = \<lparr>tr_snpguest_pin = PINNED_SNPGUEST_SHA256, tr_ark_pin = PINNED_AMD_ARK_SPKI_SHA256, tr_spki_of = spki_of\<rparr>"

text \<open>
  A file as it is read through one descriptor: its kind, owner, mode and size before the read, the bytes that the reads give, and
  whether the metadata is the same after the read; \<open>fi_failed\<close> says that a call on the open file fails.
\<close>

record file_info =
  fi_regular :: bool
  fi_owner_trusted :: bool
  fi_executable :: bool
  fi_writable_by_others :: bool
  fi_size :: nat
  fi_content :: bytes
  fi_unchanged :: bool
  fi_failed :: bool

definition pinned_snpguest :: "snp_trust \<Rightarrow> file_info option \<Rightarrow> bool" where
  "pinned_snpguest tr candidate = (case candidate of
      None \<Rightarrow> False
    | Some f \<Rightarrow>
        if \<not> fi_regular f \<or> fi_size f = 0 \<or> MAX_SNPGUEST_BYTES < fi_size f \<or> \<not> fi_executable f \<or> fi_writable_by_others f \<or>
          \<not> fi_owner_trusted f then False
        else if fi_failed f \<or> MAX_SNPGUEST_BYTES < length (fi_content f) then False
        else length (fi_content f) = fi_size f \<and> hex_of (sha256 (fi_content f)) = tr_snpguest_pin tr)"

definition read_amd_certificate :: "file_info option \<Rightarrow> bytes option" where
  "read_amd_certificate file = (case file of
      None \<Rightarrow> None
    | Some f \<Rightarrow>
        if fi_failed f then None
        else if \<not> fi_regular f \<or> \<not> fi_owner_trusted f \<or> fi_writable_by_others f \<or>
          \<not> (1 \<le> fi_size f \<and> fi_size f \<le> MAX_AMD_CERTIFICATE_BYTES) then None
        else if MAX_AMD_CERTIFICATE_BYTES < length (fi_content f) then None
        else if \<not> fi_unchanged f then None
        else if length (fi_content f) = fi_size f then Some (fi_content f) else None)"

type_synonym cert_dir = "(string \<times> file_info) list"

definition amd_ark_is_pinned :: "snp_trust \<Rightarrow> cert_dir \<Rightarrow> generation \<Rightarrow> bool" where
  "amd_ark_is_pinned tr dir g = (case read_amd_certificate (map_of dir ''ark.der'') of
      None \<Rightarrow> False
    | Some encoded \<Rightarrow> (case tr_spki_of tr encoded of
        None \<Rightarrow> False
      | Some spki \<Rightarrow> hex_of (sha256 spki) = tr_ark_pin tr g))"

section \<open>A failed fetch\<close>

datatype snp_cmd = FetchVcek | FetchCa | VerifyCerts | VerifyAttestation bool

text \<open>\<^verbatim>\<open>CalledProcessError\<close> with its standard error and output.\<close>

record process_error =
  pe_cmd :: snp_cmd
  pe_stderr :: string
  pe_output :: string

definition called_process_output :: "process_error \<Rightarrow> string" where
  "called_process_output e = take 16384 (pe_stderr e) @ [CHR 0x0A] @ take 16384 (pe_output e)"

definition lower_ascii :: "char \<Rightarrow> char" where
  "lower_ascii c = (if char_in_range 65 90 c then char_of (of_char c + 32 :: nat) else c)"

text \<open>
  \<^verbatim>\<open>str.casefold\<close> on the code points up to U+00FF, as far as a search for ASCII text can see it: of the other letters only the
  sharp s becomes ASCII.
\<close>

definition casefold :: "string \<Rightarrow> string" where
  "casefold s = concat (map (\<lambda>c. if (of_char c :: nat) = 0xDF then ''ss'' else [lower_ascii c]) s)"

text \<open>A character that the pattern \<^verbatim>\<open>\b\<close> counts as part of a word.\<close>

definition is_word_char :: "char \<Rightarrow> bool" where
  "is_word_char c = (is_alnum c \<or> c = CHR ''_'' \<or> (let n = of_char c :: nat in
     n \<in> {0xAA, 0xB2, 0xB3, 0xB5, 0xB9, 0xBA, 0xBC, 0xBD, 0xBE} \<or> (0xC0 \<le> n \<and> n \<noteq> 0xD7 \<and> n \<noteq> 0xF7)))"

text \<open>
  The patterns are a text in any case, white space, and a status of three digits that starts with 4 or 5 and ends a word:
  \<open>status_at\<close> matches at the front, \<open>status_search\<close> finds the first place.
\<close>

definition KDS_HTTP_STATUS_PATTERNS :: "string list" where
  "KDS_HTTP_STATUS_PATTERNS = [''unable to fetch vcek from url:'', ''unable to fetch certificate:'']"

definition status_at :: "string \<Rightarrow> string \<Rightarrow> nat option" where
  "status_at text s =
     (if map lower_ascii (take (length text) s) \<noteq> text then None
      else (case dropWhile is_space (drop (length text) s) of
          a # b # c # rest \<Rightarrow>
            if a \<in> {CHR ''4'', CHR ''5''} \<and> is_digit b \<and> is_digit c \<and> (rest = [] \<or> \<not> is_word_char (hd rest))
            then Some (read_nat [a, b, c]) else None
        | _ \<Rightarrow> None))"

fun status_search :: "string \<Rightarrow> string \<Rightarrow> nat option" where
  "status_search text [] = status_at text []"
| "status_search text (x # s) = (case status_at text (x # s) of Some n \<Rightarrow> Some n | None \<Rightarrow> status_search text s)"

definition TRANSIENT_KDS_CLIENT_STATUSES :: "nat set" where "TRANSIENT_KDS_CLIENT_STATUSES = {408, 425, 429}"

definition INVALID_REPORT_ERROR_MARKERS :: "string list" where
  "INVALID_REPORT_ERROR_MARKERS = [''failed to build report from the raw bytes'', ''report could be malformed'',
     ''hardware id is 0s on attestation report'', ''processor family not supported'', ''processor model not supported'',
     ''missing cpu family id'', ''missing cpu model id'', ''a turin processor must have a fmc value'']"

definition KDS_TRANSPORT_ERROR_MARKERS :: "string list" where
  "KDS_TRANSPORT_ERROR_MARKERS = [''error sending request for url'', ''connection refused'', ''connection reset'',
     ''connection timed out'', ''operation timed out'', ''dns error'', ''failed to lookup address information'',
     ''temporary failure in name resolution'', ''tls error'', ''certificate verify failed'']"

fun first_status :: "string list \<Rightarrow> string \<Rightarrow> nat option" where
  "first_status [] s = None"
| "first_status (p # ps) s = (case status_search p s of Some n \<Rightarrow> Some n | None \<Rightarrow> first_status ps s)"

definition fetch_failure_is_unavailable :: "process_error \<Rightarrow> bool" where
  "fetch_failure_is_unavailable e =
     (if pe_cmd e \<notin> {FetchVcek, FetchCa} then False
      else let diagnostic = called_process_output e in
        case first_status KDS_HTTP_STATUS_PATTERNS diagnostic of
          Some status \<Rightarrow> (500 \<le> status \<and> status \<le> 599) \<or> status \<in> TRANSIENT_KDS_CLIENT_STATUSES
        | None \<Rightarrow>
            let lowered = casefold diagnostic in
            if list_ex (\<lambda>m. occurs_in m lowered) INVALID_REPORT_ERROR_MARKERS then False
            else list_ex (\<lambda>m. occurs_in m lowered) KDS_TRANSPORT_ERROR_MARKERS)"

section \<open>The certificate cache\<close>

definition CERTIFICATE_CACHE_MAX_ENTRIES :: int where "CERTIFICATE_CACHE_MAX_ENTRIES = 256"
definition CERTIFICATE_CACHE_TTL_SECONDS :: seconds where "CERTIFICATE_CACHE_TTL_SECONDS = 24 * 60 * 60"
definition VCEK_CERTIFICATE_FILES :: "string list" where "VCEK_CERTIFICATE_FILES = [''vcek.der'']"
definition CA_CERTIFICATE_FILES :: "string list" where "CA_CERTIFICATE_FILES = [''ark.der'', ''ask.der'']"

datatype cache_key = VcekKey generation string nat | CaKey generation

text \<open>The cached tuple of files, with the identity of the tuple object, which \<^verbatim>\<open>is\<close> compares.\<close>

record cached_certificates =
  cc_id :: nat
  cc_files :: "(string \<times> bytes) list"

text \<open>The entries are an ordered dict: the least recently used first.\<close>

record cert_cache =
  ca_max_entries :: nat
  ca_ttl_seconds :: "seconds option"
  ca_entries :: "(cache_key \<times> seconds \<times> cached_certificates) list"

definition new_cache :: "int \<Rightarrow> seconds option \<Rightarrow> exn + cert_cache" where
  "new_cache max_entries ttl_seconds =
     (if max_entries < 1 then Inl (ValueError ''certificate cache bound must be a positive integer'')
      else if (case ttl_seconds of None \<Rightarrow> False | Some t \<Rightarrow> \<not> 0 < t)
      then Inl (ValueError ''certificate cache TTL must be positive and finite'')
      else Inr \<lparr>ca_max_entries = nat max_entries, ca_ttl_seconds = ttl_seconds, ca_entries = []\<rparr>)"

definition cache_get :: "seconds \<Rightarrow> cache_key \<Rightarrow> cert_cache \<Rightarrow> cached_certificates option \<times> cert_cache" where
  "cache_get now key cache = (case map_of (ca_entries cache) key of
      None \<Rightarrow> (None, cache)
    | Some (stored_at, certificates) \<Rightarrow>
        if (case ca_ttl_seconds cache of None \<Rightarrow> False | Some ttl \<Rightarrow> now - stored_at \<ge> ttl)
        then (None, cache\<lparr>ca_entries := AList.delete key (ca_entries cache)\<rparr>)
        else (Some certificates,
              cache\<lparr>ca_entries := AList.delete key (ca_entries cache) @ [(key, stored_at, certificates)]\<rparr>))"

definition cache_put :: "seconds \<Rightarrow> cache_key \<Rightarrow> cached_certificates \<Rightarrow> cert_cache \<Rightarrow> cert_cache" where
  "cache_put now key certificates cache =
     (let entries = AList.delete key (ca_entries cache) @ [(key, now, certificates)] in
      cache\<lparr>ca_entries := drop (length entries - ca_max_entries cache) entries\<rparr>)"

definition cache_evict :: "cache_key \<Rightarrow> cached_certificates \<Rightarrow> cert_cache \<Rightarrow> cert_cache" where
  "cache_evict key certificates cache = (case map_of (ca_entries cache) key of
      None \<Rightarrow> cache
    | Some (_, held) \<Rightarrow>
        if cc_id held = cc_id certificates then cache\<lparr>ca_entries := AList.delete key (ca_entries cache)\<rparr> else cache)"

definition cache_clear :: "cert_cache \<Rightarrow> cert_cache" where
  "cache_clear cache = cache\<lparr>ca_entries := []\<rparr>"

definition cache_len :: "cert_cache \<Rightarrow> nat" where
  "cache_len cache = length (ca_entries cache)"

definition vcek_cache_key :: "generation \<Rightarrow> SnpReport \<Rightarrow> cache_key" where
  "vcek_cache_key g parsed = VcekKey g (sr_chip_id parsed) (tcb_reported (sr_tcb parsed))"

definition ca_cache_key :: "generation \<Rightarrow> cache_key" where
  "ca_cache_key g = CaKey g"

section \<open>One chain check\<close>

datatype run_result = Ran | Failed string string | Unavailable

text \<open>
  The time bound of a command: the number in the environment (\<open>None\<close> when the text is no number) within its limits, and what is left until
  the deadline.  \<open>None\<close> is \<^verbatim>\<open>TimeoutExpired\<close> before the command starts.
\<close>

definition snpguest_timeout :: "seconds option \<Rightarrow> seconds" where
  "snpguest_timeout configured = (case configured of None \<Rightarrow> 30 | Some t \<Rightarrow> min 300 (max 1 t))"

definition snpguest_command_timeout :: "seconds option \<Rightarrow> seconds option \<Rightarrow> seconds \<Rightarrow> seconds option" where
  "snpguest_command_timeout configured deadline now =
     (let maximum = snpguest_timeout configured in
      case deadline of
        None \<Rightarrow> Some maximum
      | Some d \<Rightarrow> let remaining = d - now in if remaining \<le> 0 then None else Some (min maximum remaining))"

text \<open>
  The world: \<open>wo_run n timeout cmd dir\<close> is the \<open>n\<close>-th external action when it is a command, \<open>wo_files n\<close> whether it succeeds when it is the
  preparation of the private directory or the writing of cached files, \<open>wo_clock n\<close> the clock at that point, and
  \<open>wo_env_timeout\<close> the value of \<^verbatim>\<open>CATHEDRAL_SNPGUEST_TIMEOUT\<close>.
\<close>

record snp_world =
  wo_run :: "nat \<Rightarrow> seconds \<Rightarrow> snp_cmd \<Rightarrow> cert_dir \<Rightarrow> run_result \<times> cert_dir"
  wo_files :: "nat \<Rightarrow> bool"
  wo_clock :: "nat \<Rightarrow> seconds"
  wo_jitter :: "nat \<Rightarrow> rat"
  wo_env_timeout :: "seconds option"

record chain_state =
  ch_cache :: cert_cache
  ch_tick :: nat

definition tick :: "chain_state \<Rightarrow> chain_state" where
  "tick st = st\<lparr>ch_tick := Suc (ch_tick st)\<rparr>"

datatype chain_end = CHAIN_VERIFIED | CHAIN_CERTIFICATES_REFUSED | CHAIN_REPORT_REFUSED

text \<open>\<open>ChainOs\<close>: an \<^verbatim>\<open>OSError\<close> or \<^verbatim>\<open>TimeoutExpired\<close>.\<close>

datatype chain_exn = ChainProcess process_error | ChainOs | ChainValue exn

text \<open>A computation on the cache that may raise; the state is kept when it raises.\<close>

type_synonym 'a chain = "chain_state \<Rightarrow> (chain_exn + 'a) \<times> chain_state"

definition chain_bind :: "'a chain \<Rightarrow> ('a \<Rightarrow> 'b chain) \<Rightarrow> 'b chain" where
  "chain_bind m f st = (case m st of (Inl e, st') \<Rightarrow> (Inl e, st') | (Inr x, st') \<Rightarrow> f x st')"

definition chain_return :: "'a \<Rightarrow> 'a chain" where
  "chain_return x st = (Inr x, st)"

definition run_cmd :: "snp_world \<Rightarrow> seconds option \<Rightarrow> snp_cmd \<Rightarrow> cert_dir \<Rightarrow> (process_error option \<times> cert_dir) chain" where
  "run_cmd w dl cmd dir st = (case snpguest_command_timeout (wo_env_timeout w) dl (wo_clock w (ch_tick st)) of
      None \<Rightarrow> (Inl ChainOs, tick st)
    | Some timeout \<Rightarrow> (case wo_run w (ch_tick st) timeout cmd dir of
        (Ran, dir') \<Rightarrow> (Inr (None, dir'), tick st)
      | (Failed err out, dir') \<Rightarrow> (Inr (Some \<lparr>pe_cmd = cmd, pe_stderr = err, pe_output = out\<rparr>, dir'), tick st)
      | (Unavailable, dir') \<Rightarrow> (Inl ChainOs, tick st)))"

text \<open>New owner-only files with the cached bytes; a name that exists is an error.\<close>

definition private_file :: "bytes \<Rightarrow> file_info" where
  "private_file body = \<lparr>fi_regular = True, fi_owner_trusted = True, fi_executable = False, fi_writable_by_others = False,
     fi_size = length body, fi_content = body, fi_unchanged = True, fi_failed = False\<rparr>"

definition write_cached_certificates :: "snp_world \<Rightarrow> cached_certificates \<Rightarrow> cert_dir \<Rightarrow> cert_dir chain" where
  "write_cached_certificates w certificates dir st =
     (if wo_files w (ch_tick st) \<and> set (map fst dir) \<inter> set (map fst (cc_files certificates)) = {}
      then (Inr (dir @ map (\<lambda>(name, body). (name, private_file body)) (cc_files certificates)), tick st)
      else (Inl ChainOs, tick st))"

text \<open>Certificates from the cache or, with a failure that is raised, from the fetch command.\<close>

definition obtain_certificates ::
  "snp_world \<Rightarrow> seconds option \<Rightarrow> snp_cmd \<Rightarrow> cached_certificates option \<Rightarrow> cert_dir \<Rightarrow> (bool \<times> cert_dir) chain" where
  "obtain_certificates w dl cmd cached dir = (case cached of
      Some certificates \<Rightarrow> chain_bind (write_cached_certificates w certificates dir) (\<lambda>dir'. chain_return (False, dir'))
    | None \<Rightarrow> chain_bind (run_cmd w dl cmd dir) (\<lambda>(failure, dir') st. case failure of
          Some e \<Rightarrow> (Inl (ChainProcess e), st)
        | None \<Rightarrow> (Inr (True, dir'), st)))"

text \<open>The files of one fetched key, when each passes the strict read.\<close>

definition read_files :: "cert_dir \<Rightarrow> string list \<Rightarrow> (string \<times> bytes) list option" where
  "read_files dir names =
     (let bodies = map (\<lambda>name. read_amd_certificate (map_of dir name)) names in
      if None \<in> set bodies then None else Some (zip names (map the bodies)))"

fun put_all :: "snp_world \<Rightarrow> (cache_key \<times> (string \<times> bytes) list) list \<Rightarrow> chain_state \<Rightarrow> chain_state" where
  "put_all w [] st = st"
| "put_all w ((key, files) # rest) st =
     put_all w rest (tick (st\<lparr>ch_cache := cache_put (wo_clock w (ch_tick st)) key \<lparr>cc_id = ch_tick st, cc_files = files\<rparr> (ch_cache st)\<rparr>))"

definition remember_fetched_certificates ::
  "snp_world \<Rightarrow> cert_dir \<Rightarrow> (cache_key \<times> string list) list \<Rightarrow> chain_state \<Rightarrow> chain_state" where
  "remember_fetched_certificates w dir fetched st =
     (if fetched = [] then st
      else if \<not> wo_files w (ch_tick st) then tick st
      else if set (map fst dir) \<noteq> set (VCEK_CERTIFICATE_FILES @ CA_CERTIFICATE_FILES) then tick st
      else let entries = map (\<lambda>(key, names). (key, read_files dir names)) fetched in
        if None \<in> set (map snd entries) then tick st
        else put_all w (map (\<lambda>(key, files). (key, the files)) entries) (tick st))"

text \<open>The commands \<^verbatim>\<open>verify attestation\<close> in both argument orders.\<close>

fun verify_orders ::
  "snp_world \<Rightarrow> seconds option \<Rightarrow> (cache_key \<times> string list) list \<Rightarrow> bool list \<Rightarrow> cert_dir \<Rightarrow> chain_end chain" where
  "verify_orders w dl fetched [] dir st = (Inr CHAIN_REPORT_REFUSED, st)"
| "verify_orders w dl fetched (ord # rest) dir st = (case run_cmd w dl (VerifyAttestation ord) dir st of
      (Inl e, st') \<Rightarrow> (Inl e, st')
    | (Inr (Some _, dir'), st') \<Rightarrow> verify_orders w dl fetched rest dir' st'
    | (Inr (None, dir'), st') \<Rightarrow> (Inr CHAIN_VERIFIED, remember_fetched_certificates w dir' fetched st'))"

text \<open>The root pin and both verifications of the certificates in the directory.\<close>

definition check_certificates ::
  "snp_trust \<Rightarrow> snp_world \<Rightarrow> seconds option \<Rightarrow> generation \<Rightarrow> (cache_key \<times> string list) list \<Rightarrow> cert_dir \<Rightarrow> chain_end chain" where
  "check_certificates tr w dl g fetched dir =
     (if \<not> amd_ark_is_pinned tr dir g then chain_return CHAIN_CERTIFICATES_REFUSED
      else chain_bind (run_cmd w dl VerifyCerts dir) (\<lambda>(failure, dir').
        if failure \<noteq> None then chain_return CHAIN_CERTIFICATES_REFUSED
        else verify_orders w dl fetched [True, False] dir'))"

definition verify_chain_once ::
  "snp_trust \<Rightarrow> snp_world \<Rightarrow> seconds option \<Rightarrow> generation \<Rightarrow> cache_key \<Rightarrow> cache_key \<Rightarrow>
     (cache_key \<times> cached_certificates) list \<Rightarrow> chain_end chain" where
  "verify_chain_once tr w dl g vcek_key ca_key cached st =
     (if \<not> wo_files w (ch_tick st) then (Inl ChainOs, tick st)
      else chain_bind (obtain_certificates w dl FetchVcek (map_of cached vcek_key) []) (\<lambda>(vcek_fetched, dir1).
        chain_bind (obtain_certificates w dl FetchCa (map_of cached ca_key) dir1) (\<lambda>(ca_fetched, dir2).
        check_certificates tr w dl g
          ((if vcek_fetched then [(vcek_key, VCEK_CERTIFICATE_FILES)] else []) @
           (if ca_fetched then [(ca_key, CA_CERTIFICATE_FILES)] else [])) dir2)) (tick st))"

definition cache_lookup :: "snp_world \<Rightarrow> cache_key \<Rightarrow> cached_certificates option chain" where
  "cache_lookup w key st = (case cache_get (wo_clock w (ch_tick st)) key (ch_cache st) of
      (r, cache) \<Rightarrow> (Inr r, tick (st\<lparr>ch_cache := cache\<rparr>)))"

fun evict_all :: "(cache_key \<times> cached_certificates) list \<Rightarrow> chain_state \<Rightarrow> chain_state" where
  "evict_all [] st = st"
| "evict_all ((key, c) # rest) st = evict_all rest (st\<lparr>ch_cache := cache_evict key c (ch_cache st)\<rparr>)"

definition verify_chain_with_snpguest ::
  "snp_trust \<Rightarrow> snp_world \<Rightarrow> seconds option \<Rightarrow> bool \<Rightarrow> bytes \<Rightarrow> bool chain" where
  "verify_chain_with_snpguest tr w dl certs_dir_given report st =
     (if certs_dir_given then (Inr False, st)
      else case parse_snp_report report of
        Inl e \<Rightarrow> (Inl (ChainValue e), st)
      | Inr parsed \<Rightarrow> (case snp_generation parsed of
          None \<Rightarrow> (Inr False, st)
        | Some g \<Rightarrow>
            let vcek_key = vcek_cache_key g parsed; ca_key = ca_cache_key g in
            chain_bind (cache_lookup w vcek_key) (\<lambda>vcek.
            chain_bind (cache_lookup w ca_key) (\<lambda>ca.
            let cached = (case vcek of None \<Rightarrow> [] | Some c \<Rightarrow> [(vcek_key, c)]) @ (case ca of None \<Rightarrow> [] | Some c \<Rightarrow> [(ca_key, c)]) in
            chain_bind (verify_chain_once tr w dl g vcek_key ca_key cached) (\<lambda>outcome.
            if outcome = CHAIN_VERIFIED then chain_return True
            else if outcome = CHAIN_REPORT_REFUSED \<or> cached = [] then chain_return False
            else (\<lambda>st'. chain_bind (verify_chain_once tr w dl g vcek_key ca_key [])
                   (\<lambda>again. chain_return (again = CHAIN_VERIFIED)) (evict_all cached st'))))) st))"

section \<open>Retries\<close>

definition KDS_ATTEMPTS :: nat where "KDS_ATTEMPTS = 3"
definition KDS_BACKOFF_BASE_SECONDS :: seconds where "KDS_BACKOFF_BASE_SECONDS = 2"
definition KDS_BACKOFF_FACTOR :: rat where "KDS_BACKOFF_FACTOR = 5 / 2"
definition KDS_BACKOFF_JITTER :: rat where "KDS_BACKOFF_JITTER = 1 / 4"

text \<open>\<^verbatim>\<open>random.uniform(a, b)\<close> with the random fraction of the world.\<close>

definition kds_backoff_seconds :: "rat \<Rightarrow> nat \<Rightarrow> seconds" where
  "kds_backoff_seconds fraction retry = KDS_BACKOFF_BASE_SECONDS * KDS_BACKOFF_FACTOR ^ retry *
     ((1 - KDS_BACKOFF_JITTER) + (1 + KDS_BACKOFF_JITTER - (1 - KDS_BACKOFF_JITTER)) * fraction)"

datatype snp_error = SnpValueError exn | SnpVerifierUnavailable string

text \<open>\<open>Some b\<close>: the chain was checked with this answer; \<open>None\<close>: the report is refused.\<close>

definition refuses :: "chain_exn \<Rightarrow> bool" where
  "refuses e = (case e of ChainProcess p \<Rightarrow> \<not> fetch_failure_is_unavailable p | _ \<Rightarrow> False)"

definition give_up :: "bool \<Rightarrow> string \<Rightarrow> snp_error + bool option" where
  "give_up raise message = (if raise then Inl (SnpVerifierUnavailable message) else Inr None)"

fun chain_attempts ::
  "snp_trust \<Rightarrow> snp_world \<Rightarrow> bool \<Rightarrow> bytes \<Rightarrow> seconds option \<Rightarrow> bool \<Rightarrow> nat \<Rightarrow> nat \<Rightarrow> chain_state \<Rightarrow>
     (snp_error + bool option) \<times> chain_state" where
  "chain_attempts tr w dirs report deadline raise attempt 0 st = (Inr (Some False), st)"
| "chain_attempts tr w dirs report deadline raise attempt (Suc left) st =
     (case verify_chain_with_snpguest tr w deadline dirs report st of
        (Inr b, st1) \<Rightarrow> (Inr (Some b), st1)
      | (Inl e, st1) \<Rightarrow>
          (case e of ChainValue x \<Rightarrow> (Inl (SnpValueError x), st1)
           | _ \<Rightarrow>
             if refuses e then (Inr None, st1)
             else if left = 0 then (give_up raise ''AMD certificate or verifier infrastructure is unavailable'', st1)
             else let delay = kds_backoff_seconds (wo_jitter w (ch_tick st1)) attempt in
               if (case deadline of None \<Rightarrow> False | Some d \<Rightarrow> d - wo_clock w (ch_tick st1) \<le> delay)
               then (give_up raise ''AMD verifier deadline expired'', tick st1)
               else chain_attempts tr w dirs report deadline raise (Suc attempt) left (tick st1)))"

definition chain_check ::
  "snp_trust \<Rightarrow> snp_world \<Rightarrow> file_info option \<Rightarrow> bool \<Rightarrow> bytes \<Rightarrow> seconds option \<Rightarrow> bool \<Rightarrow> chain_state \<Rightarrow>
     (snp_error + bool option) \<times> chain_state" where
  "chain_check tr w snpguest dirs report deadline raise st =
     (if \<not> pinned_snpguest tr snpguest
      then (if raise then Inl (SnpVerifierUnavailable ''pinned SNP verifier is unavailable'') else Inr (Some False), st)
      else chain_attempts tr w dirs report deadline raise 0 KDS_ATTEMPTS st)"

section \<open>Verification\<close>

definition VERIFIED :: string where "VERIFIED = ''VERIFIED''"
definition STRUCTURE_OK_CHAIN_UNVERIFIED :: string where "STRUCTURE_OK_CHAIN_UNVERIFIED = ''STRUCTURE_OK_CHAIN_UNVERIFIED''"

text \<open>
  The verdict of \<^verbatim>\<open>cathedral/common.py\<close>.  Its last field, the assurance claims, is left out: no code of this
  development reads it.
\<close>

record Attested =
  at_tier :: Tier
  at_chip_id :: string
  at_measurement :: string
  at_tcb :: nat
  at_verification_status :: string
  at_chain_verified :: bool
  at_tcb_status :: "string option"
  at_advisory_ids :: "string list"
  at_debug_enabled :: "bool option"
  at_collateral_current :: "bool option"
  at_platform_identity_kind :: "string option"
  at_tcb_svn :: "string option"
  at_pck_cert_id :: "string option"
  at_attestation_key_id :: "string option"
  at_policy_mode :: "string option"
  at_launch_measurement :: "string option"
  at_image_measurement :: "string option"

definition snp_verdict :: "SnpReport \<Rightarrow> bool \<Rightarrow> Attested" where
  "snp_verdict p chain_verified = \<lparr>at_tier = CC_CPU_SNP, at_chip_id = sr_chip_id p, at_measurement = sr_measurement p,
     at_tcb = tcb_reported (sr_tcb p),
     at_verification_status = (if chain_verified then VERIFIED else STRUCTURE_OK_CHAIN_UNVERIFIED),
     at_chain_verified = chain_verified, at_tcb_status = None, at_advisory_ids = [], at_debug_enabled = None,
     at_collateral_current = None, at_platform_identity_kind = None, at_tcb_svn = None, at_pck_cert_id = None, at_attestation_key_id = None,
     at_policy_mode = None, at_launch_measurement = None, at_image_measurement = None\<rparr>"

text \<open>The keyword arguments, and the world of the call.\<close>

record snp_call =
  sc_snpguest :: "file_info option"
  sc_certs_dir_given :: bool
  sc_require_chain :: bool
  sc_raise_on_verifier_unavailable :: bool
  sc_deadline_monotonic :: "seconds option"

definition verify_snp_report_data ::
  "snp_trust \<Rightarrow> snp_world \<Rightarrow> bytes \<Rightarrow> bytes \<Rightarrow> Policy \<Rightarrow> snp_call \<Rightarrow> chain_state \<Rightarrow>
     (snp_error + Attested option) \<times> chain_state" where
  "verify_snp_report_data tr w report expected_report_data policy c st =
     (if length expected_report_data \<noteq> REPORT_DATA_SIZE
      then (Inl (SnpValueError (ValueError ''expected REPORT_DATA must be exactly 64 bytes'')), st)
      else case parse_snp_report report of
        Inl e \<Rightarrow> (Inl (SnpValueError e), st)
      | Inr parsed \<Rightarrow>
          if \<not> snp_report_is_admissible report parsed then (Inr None, st)
          else if sr_report_data parsed \<noteq> expected_report_data then (Inr None, st)
          else if sr_measurement parsed \<notin> allowed_measurements policy then (Inr None, st)
          else (case snp_generation parsed of
              None \<Rightarrow> (Inr None, st)
            | Some g \<Rightarrow>
                if \<not> tcb_meets_minimum (tcb_reported (sr_tcb parsed)) (min_tcb policy) g then (Inr None, st)
                else (case chain_check tr w (sc_snpguest c) (sc_certs_dir_given c) report (sc_deadline_monotonic c)
                    (sc_raise_on_verifier_unavailable c) st of
                    (Inl e, st') \<Rightarrow> (Inl e, st')
                  | (Inr None, st') \<Rightarrow> (Inr None, st')
                  | (Inr (Some chain_verified), st') \<Rightarrow>
                      (if sc_require_chain c \<and> \<not> chain_verified then Inr None else Inr (Some (snp_verdict parsed chain_verified)), st'))))"

definition verify_snp ::
  "snp_trust \<Rightarrow> snp_world \<Rightarrow> Evidence \<Rightarrow> bytes \<Rightarrow> Policy \<Rightarrow> snp_call \<Rightarrow> chain_state \<Rightarrow>
     (snp_error + Attested option) \<times> chain_state" where
  "verify_snp tr w e n policy c st = (case evidence_report_data e n of
      Inl x \<Rightarrow> (Inl (SnpValueError x), st)
    | Inr expected \<Rightarrow> verify_snp_report_data tr w (ev_quote e) expected policy (c\<lparr>sc_require_chain := True\<rparr>) st)"

section \<open>The cache\<close>

text \<open>The cache with the puts that it was ever given.\<close>

record cache_run =
  cr_cache :: cert_cache
  cr_puts :: "(cache_key \<times> seconds \<times> cached_certificates) list"

inductive cache_step :: "cache_run \<Rightarrow> cache_run \<Rightarrow> bool" where
  step_get: "cache_step s (s\<lparr>cr_cache := snd (cache_get now key (cr_cache s))\<rparr>)"
| step_put: "cache_step s \<lparr>cr_cache = cache_put now key c (cr_cache s), cr_puts = (key, now, c) # cr_puts s\<rparr>"
| step_evict: "cache_step s (s\<lparr>cr_cache := cache_evict key c (cr_cache s)\<rparr>)"
| step_clear: "cache_step s (s\<lparr>cr_cache := cache_clear (cr_cache s)\<rparr>)"

definition cache_start :: "int \<Rightarrow> seconds option \<Rightarrow> cache_run \<Rightarrow> bool" where
  "cache_start bound ttl s = (new_cache bound ttl = Inr (cr_cache s) \<and> cr_puts s = [])"

definition entries_ok :: "nat \<Rightarrow> ('k \<times> 'v) list \<Rightarrow> ('k \<times> 'v) list \<Rightarrow> bool" where
  "entries_ok n puts es = (length es \<le> n \<and> distinct (map fst es) \<and> set es \<subseteq> set puts)"

definition cache_inv :: "int \<Rightarrow> seconds option \<Rightarrow> cache_run \<Rightarrow> bool" where
  "cache_inv bound ttl s = (let c = cr_cache s in
     int (ca_max_entries c) = bound \<and> 1 \<le> bound \<and> ca_ttl_seconds c = ttl \<and> entries_ok (ca_max_entries c) (cr_puts s) (ca_entries c))"

lemma delete_facts:
  "set (AList.delete k xs) \<subseteq> set xs" "k \<notin> set (map fst (AList.delete k xs))" "length (AList.delete k xs) \<le> length xs"
  by (auto simp: AList.delete_eq)

lemma length_delete_present: "map_of xs k = Some v \<Longrightarrow> length (AList.delete k xs) < length xs"
  using length_filter_less [OF map_of_SomeD, of xs k v "\<lambda>(k', _). k \<noteq> k'"] by (simp add: AList.delete_eq)

lemma entries_ok_delete: "entries_ok n puts es \<Longrightarrow> entries_ok n puts (AList.delete k es)"
  using delete_facts [of k es] distinct_delete [of es k] unfolding entries_ok_def by (meson le_trans subset_trans)

lemma entries_ok_requeue:
  assumes "entries_ok n puts es" "map_of es k = Some v"
  shows "entries_ok n puts (AList.delete k es @ [(k, v)])"
proof -
  have "(k, v) \<in> set puts" using map_of_SomeD [OF assms(2)] assms(1) by (auto simp: entries_ok_def)
  then show ?thesis
    using entries_ok_delete [OF assms(1), of k] delete_facts(2) [of k es] length_delete_present [OF assms(2)] assms(1)
    by (auto simp: entries_ok_def)
qed

lemma entries_ok_put:
  assumes "entries_ok n puts es"
  shows "entries_ok n ((k, v) # puts) (drop (length (AList.delete k es @ [(k, v)]) - n) (AList.delete k es @ [(k, v)]))"
proof -
  define xs where "xs = AList.delete k es @ [(k, v)]"
  have xs: "distinct (map fst xs)" "set xs \<subseteq> set ((k, v) # puts)"
    using entries_ok_delete [OF assms, of k] delete_facts(2) [of k es] by (auto simp: entries_ok_def xs_def)
  have "distinct (map fst (drop m xs))" for m using xs(1) by (simp add: drop_map [symmetric] distinct_drop)
  moreover have "set (drop m xs) \<subseteq> set ((k, v) # puts)" for m using set_drop_subset [of m xs] xs(2) by blast
  ultimately show ?thesis unfolding xs_def [symmetric] entries_ok_def by simp
qed

lemma cache_inv_step:
  assumes "cache_inv bound ttl s" "cache_step s s'"
  shows "cache_inv bound ttl s'"
proof -
  have e: "entries_ok (ca_max_entries (cr_cache s)) (cr_puts s) (ca_entries (cr_cache s))"
    using assms(1) by (simp add: cache_inv_def Let_def)
  from assms(2) show ?thesis
  proof cases
    case (step_get now key)
    then show ?thesis
      using assms(1) entries_ok_delete [OF e, of key] entries_ok_requeue [OF e, of key]
      by (auto simp: cache_inv_def cache_get_def Let_def split: option.splits)
  next
    case (step_put now key c)
    then show ?thesis
      using assms(1) entries_ok_put [OF e, of key "(now, c)"] by (simp add: cache_inv_def cache_put_def Let_def)
  next
    case (step_evict key c)
    then show ?thesis
      using assms(1) entries_ok_delete [OF e, of key] by (auto simp: cache_inv_def cache_evict_def Let_def split: option.splits)
  next
    case step_clear
    then show ?thesis using assms(1) by (simp add: cache_inv_def cache_clear_def Let_def entries_ok_def)
  qed
qed

lemma new_cache_Inr: "new_cache bound ttl = Inr c \<Longrightarrow> c = \<lparr>ca_max_entries = nat bound, ca_ttl_seconds = ttl, ca_entries = []\<rparr> \<and> 1 \<le> bound"
  by (auto simp: new_cache_def split: if_splits)

interpretation cache: invariant_system "cache_start bound ttl" cache_step "cache_inv bound ttl" for bound ttl
proof unfold_locales
  show "cache_inv bound ttl s" if "cache_start bound ttl s" for s
    using that new_cache_Inr [of bound ttl "cr_cache s"] by (simp add: cache_start_def cache_inv_def Let_def entries_ok_def)
qed (rule cache_inv_step)

text \<open>
  C22: what the certificate cache returns.  Over any sequence of lookups, puts, evictions and clears the cache never holds more
  entries than its bound, and a lookup returns only certificates that were put under exactly that key (the same chip, generation and TCB) less
  than the time to live before.
\<close>

theorem cache_returns_recent_put:
  assumes "reach (cache_start bound ttl) cache_step s"
  shows "int (cache_len (cr_cache s)) \<le> bound \<and>
    (\<forall>now key c. fst (cache_get now key (cr_cache s)) = Some c \<longrightarrow>
       (\<exists>stored. (key, stored, c) \<in> set (cr_puts s) \<and> (\<forall>t. ttl = Some t \<longrightarrow> now - stored < t)))"
proof -
  have inv: "cache_inv bound ttl s" by (rule cache.reach_inv [OF assms])
  have "\<exists>stored. (key, stored, c) \<in> set (cr_puts s) \<and> (\<forall>t. ttl = Some t \<longrightarrow> now - stored < t)"
    if got: "fst (cache_get now key (cr_cache s)) = Some c" for now key c
  proof -
    obtain stored where m: "map_of (ca_entries (cr_cache s)) key = Some (stored, c)"
      and young: "\<forall>t. ca_ttl_seconds (cr_cache s) = Some t \<longrightarrow> now - stored < t"
      using got by (cases "map_of (ca_entries (cr_cache s)) key") (auto simp: cache_get_def split: option.splits if_splits)
    have "(key, stored, c) \<in> set (cr_puts s)"
      using map_of_SomeD [OF m] inv by (auto simp: cache_inv_def Let_def entries_ok_def)
    then show ?thesis using young inv by (auto simp: cache_inv_def Let_def)
  qed
  then show ?thesis using inv by (auto simp: cache_inv_def cache_len_def Let_def entries_ok_def)
qed

theorem cache_returns_recent_put_witness:
  "\<exists>s c. reach (cache_start 2 (Some 100)) cache_step s \<and> fst (cache_get 50 (CaKey MILAN) (cr_cache s)) = Some c \<and>
     cr_puts s = [(CaKey MILAN, 7, c)] \<and> int (cache_len (cr_cache s)) \<le> 2"
proof -
  let ?c = "\<lparr>cc_id = 1, cc_files = [(''ark.der'', [1])]\<rparr>" and ?e = "\<lparr>ca_max_entries = 2, ca_ttl_seconds = Some 100, ca_entries = []\<rparr>"
  let ?s0 = "\<lparr>cr_cache = ?e, cr_puts = []\<rparr>"
  let ?s1 = "\<lparr>cr_cache = cache_put 7 (CaKey MILAN) ?c (cr_cache ?s0), cr_puts = (CaKey MILAN, 7, ?c) # cr_puts ?s0\<rparr>"
  have "reach (cache_start 2 (Some 100)) cache_step ?s0"
    by (rule reach_start) (simp add: cache_start_def new_cache_def)
  then have r: "reach (cache_start 2 (Some 100)) cache_step ?s1" by (rule reach_step) (rule step_put)
  have "fst (cache_get 50 (CaKey MILAN) (cr_cache ?s1)) = Some ?c" by (simp add: cache_put_def cache_get_def)
  with r cache_returns_recent_put [OF r] show ?thesis by (intro exI [of _ ?s1] exI [of _ ?c]) simp
qed

section \<open>The chain check\<close>

lemma chain_bind_Inr: "chain_bind m f st = (Inr y, st') \<longleftrightarrow> (\<exists>x st1. m st = (Inr x, st1) \<and> f x st1 = (Inr y, st'))"
  by (auto simp: chain_bind_def split: prod.splits sum.splits)

lemma run_cmd_Ran: "run_cmd w dl cmd dir st = (Inr (None, dir'), st') \<Longrightarrow> \<exists>t. wo_run w (ch_tick st) t cmd dir = (Ran, dir') \<and> st' = tick st"
  by (auto simp: run_cmd_def split: prod.splits run_result.splits option.splits)

lemma run_cmd_tick: "run_cmd w dl cmd dir st = (r, st') \<Longrightarrow> st' = tick st"
  by (auto simp: run_cmd_def split: prod.splits run_result.splits option.splits)

text \<open>
  The evidence of one complete check: the pinned root, the verification of the certificates beside it, and directly after
  that the verification of the report, in the first argument order or, when that command fails, in the second.
\<close>

definition chain_evidence :: "snp_trust \<Rightarrow> snp_world \<Rightarrow> generation \<Rightarrow> bool" where
  "chain_evidence tr w g = (\<exists>dir i t dir' u d. amd_ark_is_pinned tr dir g \<and> wo_run w i t VerifyCerts dir = (Ran, dir') \<and>
     (wo_run w (i + 1) u (VerifyAttestation True) dir' = (Ran, d) \<or>
      (\<exists>err out v d'. wo_run w (i + 1) u (VerifyAttestation True) dir' = (Failed err out, d) \<and>
         wo_run w (i + 2) v (VerifyAttestation False) d = (Ran, d'))))"

lemma verify_orders_verified:
  assumes "verify_orders w dl fetched [True, False] dir st = (Inr CHAIN_VERIFIED, st')"
  shows "\<exists>u d. wo_run w (ch_tick st) u (VerifyAttestation True) dir = (Ran, d) \<or>
      (\<exists>err out v d'. wo_run w (ch_tick st) u (VerifyAttestation True) dir = (Failed err out, d) \<and>
         wo_run w (ch_tick st + 1) v (VerifyAttestation False) d = (Ran, d'))"
  using assms
  by (auto simp: run_cmd_def tick_def split: prod.split_asm run_result.split_asm option.split_asm sum.split_asm)

lemma check_certificates_verified:
  assumes "check_certificates tr w dl g fetched dir st = (Inr CHAIN_VERIFIED, st')"
  shows "chain_evidence tr w g"
proof -
  have pin: "amd_ark_is_pinned tr dir g" using assms by (simp add: check_certificates_def chain_return_def split: if_splits)
  obtain failure dir' st1 where r: "run_cmd w dl VerifyCerts dir st = (Inr (failure, dir'), st1)"
    and rest: "(if failure \<noteq> None then chain_return CHAIN_CERTIFICATES_REFUSED else verify_orders w dl fetched [True, False] dir') st1 =
      (Inr CHAIN_VERIFIED, st')"
    using assms pin by (auto simp: check_certificates_def chain_bind_Inr)
  have f: "failure = None" using rest by (cases failure) (simp_all add: chain_return_def)
  have t: "ch_tick st1 = ch_tick st + 1" using run_cmd_tick [OF r] by (simp add: tick_def)
  from rest f have "verify_orders w dl fetched [True, False] dir' st1 = (Inr CHAIN_VERIFIED, st')" by (simp only: simp_thms if_False)
  then have att: "\<exists>u d. wo_run w (ch_tick st + 1) u (VerifyAttestation True) dir' = (Ran, d) \<or>
      (\<exists>err out v d'. wo_run w (ch_tick st + 1) u (VerifyAttestation True) dir' = (Failed err out, d) \<and>
         wo_run w (ch_tick st + 2) v (VerifyAttestation False) d = (Ran, d'))"
    using verify_orders_verified t by fastforce
  obtain t' where "wo_run w (ch_tick st) t' VerifyCerts dir = (Ran, dir')" using run_cmd_Ran r f by blast
  with pin att show ?thesis unfolding chain_evidence_def by blast
qed

lemma verify_chain_once_verified:
  assumes "verify_chain_once tr w dl g vk ck cached st = (Inr CHAIN_VERIFIED, st')"
  shows "chain_evidence tr w g"
proof -
  obtain fetched dir st1 where "check_certificates tr w dl g fetched dir st1 = (Inr CHAIN_VERIFIED, st')"
    using assms by (auto simp: verify_chain_once_def chain_bind_Inr split: if_split_asm)
  then show ?thesis by (rule check_certificates_verified)
qed

lemma verify_chain_True:
  assumes "verify_chain_with_snpguest tr w dl dirs report st = (Inr True, st')"
  shows "\<exists>p g. parse_snp_report report = Inr p \<and> snp_generation p = Some g \<and> chain_evidence tr w g"
proof -
  obtain p where p: "parse_snp_report report = Inr p"
    using assms by (auto simp: verify_chain_with_snpguest_def split: if_split_asm sum.split_asm)
  obtain g where g: "snp_generation p = Some g"
    using assms p by (auto simp: verify_chain_with_snpguest_def split: if_split_asm option.split_asm)
  let ?vk = "vcek_cache_key g p" and ?ck = "ca_cache_key g"
  have d: "\<not> dirs" using assms by (auto simp: verify_chain_with_snpguest_def)
  obtain cached outcome st1 st2 where o: "verify_chain_once tr w dl g ?vk ?ck cached st1 = (Inr outcome, st2)"
    and rest: "(if outcome = CHAIN_VERIFIED then chain_return True
            else if outcome = CHAIN_REPORT_REFUSED \<or> cached = [] then chain_return False
            else (\<lambda>st'. chain_bind (verify_chain_once tr w dl g ?vk ?ck [])
                   (\<lambda>again. chain_return (again = CHAIN_VERIFIED)) (evict_all cached st'))) st2 = (Inr True, st')"
    using assms d p g unfolding verify_chain_with_snpguest_def chain_bind_Inr Let_def
    by (simp only: if_False sum.case option.case chain_bind_Inr) blast
  have "\<exists>cached st1 st2. verify_chain_once tr w dl g ?vk ?ck cached st1 = (Inr CHAIN_VERIFIED, st2)"
  proof (cases "outcome = CHAIN_VERIFIED")
    case True
    then show ?thesis using o by blast
  next
    case False
    then show ?thesis using rest by (auto simp: chain_bind_Inr chain_return_def split: if_split_asm)
  qed
  then have "chain_evidence tr w g" using verify_chain_once_verified by blast
  with p g show ?thesis by blast
qed

lemma chain_attempts_True:
  "chain_attempts tr w dirs report deadline raise attempt k st = (Inr (Some True), st') \<Longrightarrow>
     \<exists>p g. parse_snp_report report = Inr p \<and> snp_generation p = Some g \<and> chain_evidence tr w g"
proof (induction k arbitrary: attempt st)
  case (Suc k)
  obtain r st1 where r: "verify_chain_with_snpguest tr w deadline dirs report st = (r, st1)"
    by (cases "verify_chain_with_snpguest tr w deadline dirs report st")
  show ?case
  proof (cases r)
    case (Inr b)
    then show ?thesis using Suc.prems r verify_chain_True by simp
  next
    case (Inl e)
    then show ?thesis
      using Suc.prems r Suc.IH by (auto simp: Let_def give_up_def split: chain_exn.split_asm if_split_asm)
  qed
qed simp

lemma chain_check_True:
  assumes "chain_check tr w snpguest dirs report deadline raise st = (Inr (Some True), st')"
  shows "pinned_snpguest tr snpguest \<and> (\<exists>p g. parse_snp_report report = Inr p \<and> snp_generation p = Some g \<and> chain_evidence tr w g)"
  using assms chain_attempts_True by (fastforce simp: chain_check_def split: if_split_asm)

text \<open>A check that does not verify the whole chain leaves the cache as it was, so nothing unverified is ever remembered.\<close>

lemma run_cmd_cache: "run_cmd w dl cmd dir st = (r, st') \<Longrightarrow> ch_cache st' = ch_cache st"
  using run_cmd_tick by (fastforce simp: tick_def)

lemma obtain_certificates_cache: "obtain_certificates w dl cmd cached dir st = (r, st') \<Longrightarrow> ch_cache st' = ch_cache st"
proof (cases cached)
  case None
  then show "obtain_certificates w dl cmd cached dir st = (r, st') \<Longrightarrow> ch_cache st' = ch_cache st"
    by (auto simp: obtain_certificates_def chain_bind_def split: prod.split_asm sum.split_asm option.split_asm dest: run_cmd_cache)
next
  case (Some c)
  then show "obtain_certificates w dl cmd cached dir st = (r, st') \<Longrightarrow> ch_cache st' = ch_cache st"
    by (auto simp: obtain_certificates_def chain_bind_def chain_return_def write_cached_certificates_def tick_def
        split: prod.split_asm sum.split_asm if_split_asm)
qed

lemma verify_orders_cache:
  "verify_orders w dl fetched ords dir st = (r, st') \<Longrightarrow> r \<noteq> Inr CHAIN_VERIFIED \<Longrightarrow> ch_cache st' = ch_cache st"
proof (induction ords arbitrary: dir st)
  case (Cons ord rest)
  obtain q st1 where q: "run_cmd w dl (VerifyAttestation ord) dir st = (q, st1)" by (cases "run_cmd w dl (VerifyAttestation ord) dir st")
  show ?case
    using Cons.prems Cons.IH [of _ st1] run_cmd_cache [OF q] q by (auto split: sum.split_asm option.split_asm)
qed simp

lemma check_certificates_cache:
  assumes "check_certificates tr w dl g fetched dir st = (r, st')" "r \<noteq> Inr CHAIN_VERIFIED"
  shows "ch_cache st' = ch_cache st"
proof (cases "amd_ark_is_pinned tr dir g")
  case True
  obtain q st1 where q: "run_cmd w dl VerifyCerts dir st = (q, st1)" by (cases "run_cmd w dl VerifyCerts dir st")
  show ?thesis
  proof (cases q)
    case (Inl e)
    then show ?thesis using assms(1) True q run_cmd_cache [OF q] by (simp add: check_certificates_def chain_bind_def)
  next
    case (Inr fd)
    obtain f d where fd: "fd = (f, d)" by (cases fd)
    show ?thesis
    proof (cases f)
      case None
      then have "verify_orders w dl fetched [True, False] d st1 = (r, st')"
        using assms(1) True q Inr fd by (simp add: check_certificates_def chain_bind_def del: verify_orders.simps)
      then show ?thesis using verify_orders_cache assms(2) run_cmd_cache [OF q] by metis
    next
      case (Some e)
      then show ?thesis using assms(1) True q Inr fd run_cmd_cache [OF q] by (simp add: check_certificates_def chain_bind_def chain_return_def)
    qed
  qed
qed (use assms(1) in \<open>simp add: check_certificates_def chain_return_def\<close>)

lemma verify_chain_once_cache:
  assumes "verify_chain_once tr w dl g vk ck cached st = (r, st')" "r \<noteq> Inr CHAIN_VERIFIED"
  shows "ch_cache st' = ch_cache st"
proof (cases "wo_files w (ch_tick st)")
  case True
  obtain q1 s1 where q1: "obtain_certificates w dl FetchVcek (map_of cached vk) [] (tick st) = (q1, s1)"
    by (cases "obtain_certificates w dl FetchVcek (map_of cached vk) [] (tick st)")
  have c1: "ch_cache s1 = ch_cache st" using obtain_certificates_cache [OF q1] by (simp add: tick_def)
  show ?thesis
  proof (cases q1)
    case (Inl e)
    then show ?thesis using assms(1) True q1 c1 by (simp add: verify_chain_once_def chain_bind_def)
  next
    case (Inr x)
    obtain f1 d1 where x: "x = (f1, d1)" by (cases x)
    obtain q2 s2 where q2: "obtain_certificates w dl FetchCa (map_of cached ck) d1 s1 = (q2, s2)"
      by (cases "obtain_certificates w dl FetchCa (map_of cached ck) d1 s1")
    have c2: "ch_cache s2 = ch_cache st" using obtain_certificates_cache [OF q2] c1 by simp
    show ?thesis
    proof (cases q2)
      case Inl': (Inl e)
      then show ?thesis using assms(1) True q1 q2 Inr x c2 by (simp add: verify_chain_once_def chain_bind_def)
    next
      case Inr': (Inr y)
      obtain f2 d2 where y: "y = (f2, d2)" by (cases y)
      show ?thesis
        using assms True q1 q2 Inr x Inr' y c2
          check_certificates_cache [of tr w dl g "(if f1 then [(vk, VCEK_CERTIFICATE_FILES)] else []) @
           (if f2 then [(ck, CA_CERTIFICATE_FILES)] else [])" d2 s2 r st']
        by (simp add: verify_chain_once_def chain_bind_def)
    qed
  qed
qed (use assms(1) in \<open>auto simp: verify_chain_once_def tick_def\<close>)

section \<open>Verified reports\<close>

lemma verify_snp_report_data_Some:
  assumes "verify_snp_report_data tr w r ex pol c st = (Inr (Some a), st')"
  shows "\<exists>p g b. parse_snp_report r = Inr p \<and> snp_report_is_admissible r p \<and> sr_report_data p = ex \<and>
    sr_measurement p \<in> allowed_measurements pol \<and> snp_generation p = Some g \<and>
    tcb_meets_minimum (tcb_reported (sr_tcb p)) (min_tcb pol) g \<and> a = snp_verdict p b \<and> (sc_require_chain c \<longrightarrow> b) \<and>
    (b \<longrightarrow> pinned_snpguest tr (sc_snpguest c) \<and> chain_evidence tr w g)"
proof -
  obtain p where p: "parse_snp_report r = Inr p"
    using assms by (cases "parse_snp_report r") (auto simp: verify_snp_report_data_def split: if_split_asm)
  obtain g where g: "snp_generation p = Some g"
    using assms p by (cases "snp_generation p") (auto simp: verify_snp_report_data_def split: if_split_asm)
  obtain q st1 where q: "chain_check tr w (sc_snpguest c) (sc_certs_dir_given c) r (sc_deadline_monotonic c)
      (sc_raise_on_verifier_unavailable c) st = (q, st1)"
    by (cases "chain_check tr w (sc_snpguest c) (sc_certs_dir_given c) r (sc_deadline_monotonic c) (sc_raise_on_verifier_unavailable c) st")
  have guards: "snp_report_is_admissible r p" "sr_report_data p = ex" "sr_measurement p \<in> allowed_measurements pol"
    "tcb_meets_minimum (tcb_reported (sr_tcb p)) (min_tcb pol) g"
    using assms p g by (auto simp: verify_snp_report_data_def split: if_split_asm)
  obtain b where b: "q = Inr (Some b)" "a = snp_verdict p b" "sc_require_chain c \<longrightarrow> b"
    using assms p g q guards by (auto simp: verify_snp_report_data_def split: if_split_asm sum.split_asm option.split_asm)
  have "b \<longrightarrow> pinned_snpguest tr (sc_snpguest c) \<and> chain_evidence tr w g"
    using chain_check_True q b(1) p g by fastforce
  then show ?thesis using p g guards b by blast
qed


section \<open>A verified report\<close>

definition snp_sample_policy :: "string \<Rightarrow> Policy" where
  "snp_sample_policy m = \<lparr>allowed_measurements = {m}, min_tcb = 1, allowed_firmware = {}, tdx_strict = False,
     tdx_allowed_tcb_statuses = {}, tdx_allowed_advisories = {}, registry_release = None, registry_digest = None,
     registry_profile_ids = [], registry_verified = False, registry_valid_from = None, registry_valid_until = None\<rparr>"

text \<open>The first fetch of the sample world times out; the second attempt fetches the certificates and verifies the chain.\<close>

definition sample_trust :: snp_trust where
  "sample_trust = \<lparr>tr_snpguest_pin = hex_of (sha256 [1, 2, 3]), tr_ark_pin = (\<lambda>_. hex_of (sha256 [4])), tr_spki_of = (\<lambda>_. Some [4])\<rparr>"

definition sample_world :: snp_world where
  "sample_world = \<lparr>wo_run = (\<lambda>n timeout cmd dir. if n \<le> 3 then (Unavailable, dir) else (Ran, case cmd of
       FetchVcek \<Rightarrow> dir @ [(''vcek.der'', private_file [5])]
     | FetchCa \<Rightarrow> dir @ [(''ark.der'', private_file [6]), (''ask.der'', private_file [7])]
     | _ \<Rightarrow> dir)), wo_files = (\<lambda>_. True), wo_clock = (\<lambda>_. 0), wo_jitter = (\<lambda>_. 1), wo_env_timeout = None\<rparr>"

definition sample_snp_call :: snp_call where
  "sample_snp_call = \<lparr>sc_snpguest = Some ((private_file [1, 2, 3])\<lparr>fi_executable := True\<rparr>), sc_certs_dir_given = False,
     sc_require_chain = True, sc_raise_on_verifier_unavailable = False, sc_deadline_monotonic = Some 30\<rparr>"

definition sample_chain_state :: chain_state where
  "sample_chain_state = \<lparr>ch_cache = \<lparr>ca_max_entries = 256, ca_ttl_seconds = Some 86400, ca_entries = []\<rparr>, ch_tick = 0\<rparr>"

definition sample_snp_evidence :: "bytes \<Rightarrow> string \<Rightarrow> bytes \<Rightarrow> Evidence" where
  "sample_snp_evidence n hotkey host = \<lparr>ev_kind = SEV_SNP,
     ev_quote = snp_report_bytes (report_data n hotkey None) (replicate 48 7) host (replicate 64 9),
     ev_nonce = n, ev_miner_hotkey = hotkey, ev_cert_chain = [], ev_ssh_host_key = None, ev_composite_jwt = None,
     report_data_version = 1, channel_binding = None\<rparr>"

lemma sample_ark_pinned: "map_of dir ''ark.der'' = Some (private_file [6]) \<Longrightarrow> amd_ark_is_pinned sample_trust dir g"
  by (simp add: amd_ark_is_pinned_def sample_trust_def read_amd_certificate_def private_file_def MAX_AMD_CERTIFICATE_BYTES_def)

lemma sample_snpguest_pinned: "pinned_snpguest sample_trust (sc_snpguest sample_snp_call)"
  by (simp add: pinned_snpguest_def sample_snp_call_def sample_trust_def private_file_def MAX_SNPGUEST_BYTES_def)

lemma sample_chain_verifies:
  assumes "parse_snp_report r = Inr p" "snp_generation p = Some g"
  shows "\<exists>st. chain_check sample_trust sample_world (sc_snpguest sample_snp_call) False r (Some 30) False sample_chain_state =
    (Inr (Some True), st)"
proof -
  let ?vk = "vcek_cache_key g p" and ?ck = "ca_cache_key g"
  let ?c = "ch_cache sample_chain_state"
  have miss: "cache_lookup sample_world k \<lparr>ch_cache = ?c, ch_tick = t\<rparr> = (Inr None, \<lparr>ch_cache = ?c, ch_tick = Suc t\<rparr>)" for k t
    by (simp add: cache_lookup_def cache_get_def sample_chain_state_def tick_def)
  have one: "verify_chain_once sample_trust sample_world (Some 30) g ?vk ?ck [] \<lparr>ch_cache = ?c, ch_tick = 2\<rparr> =
      (Inl ChainOs, \<lparr>ch_cache = ?c, ch_tick = 4\<rparr>)"
    by (simp add: verify_chain_once_def chain_bind_def obtain_certificates_def run_cmd_def sample_world_def tick_def
        snpguest_command_timeout_def snpguest_timeout_def)
  have two: "\<exists>st. verify_chain_once sample_trust sample_world (Some 30) g ?vk ?ck [] \<lparr>ch_cache = ?c, ch_tick = 7\<rparr> = (Inr CHAIN_VERIFIED, st)"
    by (simp add: verify_chain_once_def chain_bind_def obtain_certificates_def run_cmd_def check_certificates_def sample_ark_pinned
        sample_world_def tick_def snpguest_command_timeout_def snpguest_timeout_def)
  have first: "verify_chain_with_snpguest sample_trust sample_world (Some 30) False r sample_chain_state = (Inl ChainOs, \<lparr>ch_cache = ?c, ch_tick = 4\<rparr>)"
    using assms one miss [of ?vk 0] miss [of ?ck 1]
    by (simp add: verify_chain_with_snpguest_def chain_bind_def sample_chain_state_def numeral_2_eq_2)
  have second: "\<exists>st. verify_chain_with_snpguest sample_trust sample_world (Some 30) False r \<lparr>ch_cache = ?c, ch_tick = 5\<rparr> = (Inr True, st)"
    using assms two miss [of ?vk 5] miss [of ?ck 6]
    by (auto simp: verify_chain_with_snpguest_def chain_bind_def chain_return_def)
  show ?thesis
    using first second sample_snpguest_pinned
    by (auto simp: chain_check_def KDS_ATTEMPTS_def numeral_3_eq_3 refuses_def kds_backoff_seconds_def KDS_BACKOFF_BASE_SECONDS_def
        KDS_BACKOFF_JITTER_def sample_world_def tick_def)
qed

lemma sample_snp_verified:
  assumes "length rd = 64" "length meas = 48" "length host = 32" "length chip = 64" "\<not> all_zero meas" "\<not> all_zero chip"
  shows "\<exists>st. verify_snp_report_data sample_trust sample_world (snp_report_bytes rd meas host chip) rd
      (snp_sample_policy (hex_of meas)) sample_snp_call sample_chain_state =
    (Inr (Some (snp_verdict (snp_report_fields rd meas host chip) True)), st)"
proof -
  let ?p = "snp_report_fields rd meas host chip"
  have f: "sr_report_data ?p = rd" "sr_measurement ?p = hex_of meas" "tcb_reported (sr_tcb ?p) = 1"
    "allowed_measurements (snp_sample_policy (hex_of meas)) = {hex_of meas}" "min_tcb (snp_sample_policy (hex_of meas)) = 1"
    by (simp_all add: snp_report_fields_def snp_sample_policy_def)
  have call: "sc_certs_dir_given sample_snp_call = False" "sc_deadline_monotonic sample_snp_call = Some 30"
    "sc_raise_on_verifier_unavailable sample_snp_call = False" by (simp_all add: sample_snp_call_def)
  have p: "parse_snp_report (snp_report_bytes rd meas host chip) = Inr ?p" by (rule parse_sample_report [OF assms(1-4)])
  obtain g where g: "snp_generation ?p = Some g" "tcb_meets_minimum 1 1 g"
    using sample_report_admissible [OF assms, simplified] by auto
  obtain st where st: "chain_check sample_trust sample_world (sc_snpguest sample_snp_call) False (snp_report_bytes rd meas host chip)
      (Some 30) False sample_chain_state = (Inr (Some True), st)"
    using sample_chain_verifies [OF p g(1)] by blast
  show ?thesis
    unfolding verify_snp_report_data_def p call st
    by (simp add: assms(1) sample_report_admissible [OF assms, simplified] f snp_layout g)
qed


end
