(* ===== verification/Admission.thy ===== *)
theory Admission
  imports ReceiptProbe Channel RootBinding SnpChain "HOL-Library.AList"
begin

text \<open>
  \<^verbatim>\<open>src/cathedral/capacity/admission.py\<close>: the measurement policy, and the decision whether a whole-host
  confidential VM may serve sandboxes.  A policy document is what \<^verbatim>\<open>json.loads\<close> reads before its
  \<^verbatim>\<open>object_pairs_hook\<close>, \<open>None\<close> for bytes that it refuses; the registry of admitted boxes is a dict.  The keyword
  arguments of \<^verbatim>\<open>admit\<close> are a record.
\<close>

section \<open>Policies\<close>

definition TEE_KINDS :: "string list" where "TEE_KINDS = [''tdx'', ''sev_snp'']"

fun TIER_KINDS :: "Tier \<Rightarrow> string option" where
  "TIER_KINDS CC_CPU_TDX = Some ''tdx''"
| "TIER_KINDS CC_CPU_SNP = Some ''sev_snp''"
| "TIER_KINDS CC_GPU = None"

definition MODES :: "string list" where "MODES = [''shadow'', ''enforce'']"

definition POLICY_SCHEMAS :: "(string \<times> string) list" where
  "POLICY_SCHEMAS = [(''tdx'', ''cathedral_tdx_measurement_policy_v1''), (''sev_snp'', ''cathedral_snp_measurement_policy_v1'')]"

definition POLICY_KEYS :: "string set" where "POLICY_KEYS = {''schema'', ''mode'', ''allowed_measurements''}"

definition POLICY_MEASUREMENT :: "string \<Rightarrow> string \<Rightarrow> bool" where
  "POLICY_MEASUREMENT kind s =
     (if kind = ''tdx''
      then is_prefixed_hex64 ''tdx-measurement-sha256:'' s \<or> is_prefixed_hex64 ''tdx-image-sha256:'' s
      else length s = 96 \<and> is_lower_hex s)"

definition MAX_POLICY_BYTES :: nat where "MAX_POLICY_BYTES = 128 * 1024"
definition NONCE_BYTES :: nat where "NONCE_BYTES = 32"
definition MAX_QUOTE_BYTES :: nat where "MAX_QUOTE_BYTES = 64 * 1024"

definition VERIFICATION_INCOMPLETE :: string where "VERIFICATION_INCOMPLETE = ''verification_incomplete''"
definition REPORT_DATA_MISMATCH :: string where "REPORT_DATA_MISMATCH = ''report_data_mismatch''"
definition MEASUREMENT_NOT_ALLOWED :: string where "MEASUREMENT_NOT_ALLOWED = ''measurement_not_allowed''"
definition HARDWARE_ID_CLAIMED :: string where "HARDWARE_ID_CLAIMED = ''hardware_id_admitted_to_another_box''"
definition ATTESTATION_PREDATES_RELEASE :: string where "ATTESTATION_PREDATES_RELEASE = ''attestation_predates_release''"
definition BOOT_CONSUMED :: string where "BOOT_CONSUMED = ''boot_consumed''"
definition RTMR_ZERO :: bytes where "RTMR_ZERO = replicate 48 0"

text \<open>\<open>Escaped\<close> and \<open>Raised\<close> are exceptions that \<^verbatim>\<open>admit\<close> would not convert.\<close>

datatype AdmissionError = AdmissionError string | Escaped ReceiptError | Raised exn

record MeasurementPolicy =
  mp_kind :: string
  mp_mode :: string
  mp_allowed_measurements :: "string set"
  mp_digest :: string

definition allows :: "MeasurementPolicy \<Rightarrow> string \<Rightarrow> bool" where
  "allows p m = (m \<in> mp_allowed_measurements p)"

record AdmittedBox =
  ab_box_id :: string
  ab_miner_hotkey :: string

record Admission =
  ad_admitted :: bool
  ad_reasons :: "string list"
  ad_box_id :: string
  ad_miner_hotkey :: string
  ad_hardware_id :: string
  ad_hardware_id_kind :: string
  ad_measurement :: string
  ad_measurement_allowed :: bool
  ad_mode :: string
  ad_policy_digest :: string
  ad_evidence :: "ReceiptEvidence option"
  ad_launch_measurement :: "string option"
  ad_image_measurement :: "string option"

text \<open>The hook builds the dict of one object; \<^verbatim>\<open>json.loads\<close> calls it for the inner objects first.\<close>

fun strict_pairs :: "(string \<times> 'a) list \<Rightarrow> (string \<times> 'a) list \<Rightarrow> AdmissionError + (string \<times> 'a) list" where
  "strict_pairs value [] = Inr value"
| "strict_pairs value ((key, item) # pairs) =
     (if key \<in> set (map fst value) then Inl (AdmissionError ''measurement policy repeats a JSON key'')
      else strict_pairs (value @ [(key, item)]) pairs)"

definition strict_object :: "(string \<times> 'a) list \<Rightarrow> AdmissionError + (string \<times> 'a) list" where
  "strict_object pairs = strict_pairs [] pairs"

fun strict_json :: "json \<Rightarrow> AdmissionError + json"
  and strict_items :: "json list \<Rightarrow> AdmissionError + json list"
  and strict_members :: "(string \<times> json) list \<Rightarrow> AdmissionError + (string \<times> json) list" where
  "strict_json (JArr xs) = bindE (strict_items xs) (\<lambda>ys. Inr (JArr ys))"
| "strict_json (JObj kvs) = bindE (strict_members kvs) (\<lambda>ms. bindE (strict_object ms) (\<lambda>d. Inr (JObj d)))"
| "strict_json v = Inr v"
| "strict_items [] = Inr []"
| "strict_items (x # xs) = bindE (strict_json x) (\<lambda>y. bindE (strict_items xs) (\<lambda>ys. Inr (y # ys)))"
| "strict_members [] = Inr []"
| "strict_members ((k, v) # kvs) = bindE (strict_json v) (\<lambda>w. bindE (strict_members kvs) (\<lambda>ms. Inr ((k, w) # ms)))"

text \<open>\<^verbatim>\<open>sorted\<close> on strings.\<close>

definition sorted_texts :: "string list \<Rightarrow> string list" where
  "sorted_texts ms = map fst (sort_members (map (\<lambda>m. (m, ())) ms))"

text \<open>The list of measurements, when every item is a string of the kind's syntax.\<close>

fun policy_items :: "string \<Rightarrow> json list \<Rightarrow> string list option" where
  "policy_items kind [] = Some []"
| "policy_items kind (x # xs) = (case x of
      JStr m \<Rightarrow> if POLICY_MEASUREMENT kind m then map_option ((#) m) (policy_items kind xs) else None
    | _ \<Rightarrow> None)"

definition policy_measurements :: "string \<Rightarrow> json \<Rightarrow> AdmissionError + string list" where
  "policy_measurements kind v =
     (let bad = Inl (AdmissionError (''allowed_measurements must be a sorted, unique list of '' @
        (if kind = ''tdx'' then ''tdx-measurement-sha256:<64 hex> or tdx-image-sha256:<64 hex>'' else ''96 lowercase hex''))) in
      case v of
        JArr xs \<Rightarrow> (case policy_items kind xs of
            None \<Rightarrow> bad
          | Some ms \<Rightarrow> if ms \<noteq> sorted_texts ms \<or> \<not> distinct ms then bad else Inr ms)
      | _ \<Rightarrow> bad)"

definition policy_object :: "json \<Rightarrow> AdmissionError + (string \<times> json) list" where
  "policy_object document = (case document of
      JObj kvs \<Rightarrow> if obj_keys kvs = POLICY_KEYS then Inr kvs
        else Inl (AdmissionError ''measurement policy must contain exactly schema, mode and allowed_measurements'')
    | _ \<Rightarrow> Inl (AdmissionError ''measurement policy must contain exactly schema, mode and allowed_measurements''))"

definition policy_kind :: "json \<Rightarrow> AdmissionError + string" where
  "policy_kind schema = (case filter (\<lambda>(kind, name). schema = JStr name) POLICY_SCHEMAS of
      [] \<Rightarrow> Inl (AdmissionError (''measurement policy schema must be one of ['' @ [CHR 0x27] @ ''cathedral_snp_measurement_policy_v1'' @
        [CHR 0x27] @ '', '' @ [CHR 0x27] @ ''cathedral_tdx_measurement_policy_v1'' @ [CHR 0x27] @ '']''))
    | (kind, name) # _ \<Rightarrow> Inr kind)"

definition policy_mode :: "json \<Rightarrow> AdmissionError + string" where
  "policy_mode mode = (case mode of
      JStr m \<Rightarrow> if m \<in> set MODES then Inr m else Inl (AdmissionError ''measurement policy mode must be shadow or enforce'')
    | _ \<Rightarrow> Inl (AdmissionError ''measurement policy mode must be shadow or enforce''))"

definition parse_policy :: "bytes \<Rightarrow> json option \<Rightarrow> AdmissionError + MeasurementPolicy" where
  "parse_policy raw loaded =
     bindE (ensure (1 \<le> length raw \<and> length raw \<le> MAX_POLICY_BYTES)
              (AdmissionError ''measurement policy must be 1 byte to 128 KiB'')) (\<lambda>_.
     bindE (of_option (AdmissionError ''measurement policy is not strict UTF-8 JSON'') loaded) (\<lambda>tree.
     bindE (strict_json tree) (\<lambda>strict.
     bindE (policy_object strict) (\<lambda>document.
     bindE (policy_kind (obj_at document ''schema'')) (\<lambda>kind.
     bindE (policy_mode (obj_at document ''mode'')) (\<lambda>mode.
     bindE (policy_measurements kind (obj_at document ''allowed_measurements'')) (\<lambda>measurements.
     bindE (ensure (\<not> (mode = ''enforce'' \<and> measurements = []))
              (AdmissionError ''an enforcing measurement policy must allow at least one measurement'')) (\<lambda>_.
       Inr \<lparr>mp_kind = kind, mp_mode = mode, mp_allowed_measurements = set measurements,
         mp_digest = ''sha256:'' @ hex_of (sha256 raw)\<rparr>))))))))"

section \<open>The verdict and the quote\<close>

definition complete :: "Attested \<Rightarrow> string \<Rightarrow> bool" where
  "complete attested kind =
     (if at_verification_status attested \<noteq> VERIFIED \<or> \<not> at_chain_verified attested then False
      else if kind = ''tdx''
      then at_policy_mode attested = Some ''strict'' \<and> at_collateral_current attested = Some True \<and>
        at_debug_enabled attested = Some False
      else True)"

record quote_facts =
  qf_report_data :: bytes
  qf_measurement :: string
  qf_debug :: bool
  qf_chip_id :: "bytes option"
  qf_rtmr3 :: "bytes option"
  qf_image_measurement :: "string option"

definition parse_quote :: "bytes \<Rightarrow> string \<Rightarrow> AdmissionError + quote_facts" where
  "parse_quote quote kind =
     (if kind = ''tdx'' then (case parse_tdx_quote quote of
          Inl (TdxQuoteParseError m) \<Rightarrow> Inl (AdmissionError (''quote: '' @ m))
        | Inr parsed \<Rightarrow> Inr \<lparr>qf_report_data = quote_report_data parsed, qf_measurement = measurement parsed,
            qf_debug = debug_enabled parsed, qf_chip_id = None, qf_rtmr3 = Some (rtmr3 (q_body parsed)),
            qf_image_measurement = Some (image_measurement parsed)\<rparr>)
      else (case parse_snp_report quote of
          Inl (ValueError m) \<Rightarrow> Inl (AdmissionError (''quote: '' @ m))
        | Inl e \<Rightarrow> Inl (Raised e)
        | Inr report \<Rightarrow> Inr \<lparr>qf_report_data = sr_report_data report, qf_measurement = sr_measurement report,
            qf_debug = False, qf_chip_id = Some (hex_bytes (sr_chip_id report)), qf_rtmr3 = None,
            qf_image_measurement = None\<rparr>))"

definition from_channel :: "ChannelBindingError + 'a \<Rightarrow> AdmissionError + 'a" where
  "from_channel r = (case r of
      Inl (ChannelBindingError m) \<Rightarrow> Inl (AdmissionError (''TLS peer key: '' @ m))
    | Inr x \<Rightarrow> Inr x)"

definition tls_binding :: "bytes option \<Rightarrow> bytes option \<Rightarrow> AdmissionError + ChannelBinding" where
  "tls_binding certificate_der spki_der = (case (certificate_der, spki_der) of
      (Some cert, None) \<Rightarrow> from_channel (tls_spki_binding cert)
    | (None, Some spki) \<Rightarrow>
        if spki = [] then Inl (AdmissionError ''tls_spki_der must be non-empty bytes'')
        else bindE (from_channel (der_tlv spki 0)) (\<lambda>(tag, body, stop).
          if tag \<noteq> 0x30 \<or> stop \<noteq> length spki then Inl (AdmissionError ''tls_spki_der is not one DER sequence'')
          else bindE (from_channel (der_tlv spki body)) (\<lambda>(algorithm_tag, _, algorithm_end).
          bindE (from_channel (der_tlv spki algorithm_end)) (\<lambda>(key_tag, _, key_end).
          if algorithm_tag \<noteq> 0x30 \<or> key_tag \<noteq> 0x03 \<or> key_end \<noteq> stop
          then Inl (AdmissionError ''tls_spki_der is not a SubjectPublicKeyInfo'')
          else Inr \<lparr>binding_type = TLS_SPKI_SHA256, cb_digest = sha256 spki\<rparr>)))
    | _ \<Rightarrow> Inl (AdmissionError ''pass exactly one of tls_certificate_der and tls_spki_der''))"

fun check_admitted :: "(string \<times> AdmittedBox) list \<Rightarrow> AdmissionError + unit" where
  "check_admitted [] = Inr ()"
| "check_admitted ((hardware_id, box) # rest) =
     (if \<not> is_hex64 hardware_id then Inl (AdmissionError ''admitted hardware ids must be 64 lowercase hex characters'')
      else if \<not> is_box_id (ab_box_id box) \<or> \<not> is_ss58 (ab_miner_hotkey box)
      then Inl (AdmissionError ''each admitted entry must be an AdmittedBox with a valid box_id and hotkey'')
      else check_admitted rest)"

section \<open>Admitting a box\<close>

record admit_call =
  ac_verifier_digest :: string
  ac_box_id :: string
  ac_miner_hotkey :: string
  ac_nonce :: bytes
  ac_attested_at :: civil
  ac_policy :: MeasurementPolicy
  ac_admitted :: "(string \<times> AdmittedBox) list"
  ac_tls_certificate_der :: "bytes option"
  ac_tls_spki_der :: "bytes option"
  ac_last_released_at :: "civil option"
  ac_require_fresh_boot :: bool
  ac_expected_root_digest :: "string option"

text \<open>The checks of the arguments: the kind of the box and the text of the attestation time.\<close>

definition admit_inputs :: "Attested \<Rightarrow> bytes \<Rightarrow> admit_call \<Rightarrow> AdmissionError + string \<times> string" where
  "admit_inputs attested quote c =
     bindE (ensure (mp_kind (ac_policy c) \<in> set TEE_KINDS \<and> mp_mode (ac_policy c) \<in> set MODES)
              (AdmissionError ''policy must be a MeasurementPolicy from parse_policy'')) (\<lambda>_.
     bindE (of_option (AdmissionError ''attested tier must be cc_cpu_tdx or cc_cpu_snp'') (TIER_KINDS (at_tier attested))) (\<lambda>kind.
     bindE (ensure (mp_kind (ac_policy c) = kind)
              (AdmissionError (''a '' @ kind @ '' attestation needs a '' @ kind @ '' measurement policy''))) (\<lambda>_.
     bindE (ensure (1 \<le> length quote \<and> length quote \<le> MAX_QUOTE_BYTES)
              (AdmissionError ''quote must be the raw quote or report, 1 byte to 64 KiB'')) (\<lambda>_.
     bindE (ensure (is_box_id (ac_box_id c)) (AdmissionError ''box_id must be 1-128 of A-Z a-z 0-9 . _ : -'')) (\<lambda>_.
     bindE (ensure (is_ss58 (ac_miner_hotkey c)) (AdmissionError ''miner_hotkey must be an SS58 address'')) (\<lambda>_.
     bindE (ensure (length (ac_nonce c) = NONCE_BYTES) (AdmissionError ''nonce must be exactly 32 bytes'')) (\<lambda>_.
     bindE (ensure (\<not> all_zero (ac_nonce c)) (AdmissionError ''nonce is all zeros'')) (\<lambda>_.
     bindE (ensure (utc_offset (ac_attested_at c) \<noteq> None)
              (AdmissionError ''attested_at must be a timezone-aware datetime'')) (\<lambda>_.
     bindE (case iso (instant (ac_attested_at c)) of
                Inl _ \<Rightarrow> Inl (AdmissionError ''attested_at is out of range'') | Inr t \<Rightarrow> Inr t) (\<lambda>attested_iso.
     bindE (ensure (case ac_last_released_at c of None \<Rightarrow> True | Some r \<Rightarrow> utc_offset r \<noteq> None)
              (AdmissionError ''last_released_at must be a timezone-aware datetime or None'')) (\<lambda>_.
     bindE (ensure (\<not> (ac_require_fresh_boot c \<and> kind \<noteq> ''tdx''))
              (AdmissionError ''require_fresh_boot needs a TDX quote: SEV-SNP has no RTMR3-class register in the attestation report (issue #274 B.d BLOCKED)'')) (\<lambda>_.
       Inr (kind, attested_iso)))))))))))))"

text \<open>Whether the verdict is for this quote.\<close>

definition verdict_matches :: "Attested \<Rightarrow> quote_facts \<Rightarrow> bool" where
  "verdict_matches attested q =
     (\<not> (at_measurement attested \<noteq> qf_measurement q \<and>
         (qf_image_measurement q = None \<or> Some (at_measurement attested) \<noteq> qf_image_measurement q)) \<and>
      \<not> (at_launch_measurement attested \<noteq> None \<and> at_launch_measurement attested \<noteq> Some (qf_measurement q) \<or>
         at_image_measurement attested \<noteq> None \<and> at_image_measurement attested \<noteq> qf_image_measurement q))"

definition judged_measurement :: "MeasurementPolicy \<Rightarrow> quote_facts \<Rightarrow> string" where
  "judged_measurement policy q = (case qf_image_measurement q of
      Some im \<Rightarrow> if \<not> allows policy (qf_measurement q) \<and> allows policy im then im else qf_measurement q
    | None \<Rightarrow> qf_measurement q)"

definition from_receipt :: "ReceiptError + 'a \<Rightarrow> AdmissionError + 'a" where
  "from_receipt r = (case r of
      Inl (ReceiptError m) \<Rightarrow> Inl (AdmissionError m)
    | Inl e \<Rightarrow> Inl (Escaped e)
    | Inr x \<Rightarrow> Inr x)"

definition hardware_id_kind_of :: "string \<Rightarrow> string" where
  "hardware_id_kind_of kind = (case HARDWARE_ID_KINDS (''tee'', Some kind) of None \<Rightarrow> [] | Some k \<Rightarrow> k)"

definition admit_hardware_id :: "Attested \<Rightarrow> string \<Rightarrow> quote_facts \<Rightarrow> AdmissionError + string" where
  "admit_hardware_id attested kind q =
     (if kind = ''tdx'' then from_receipt (tdx_hardware_id (at_chip_id attested))
      else (case qf_chip_id q of
          None \<Rightarrow> Inl (Raised AssertionError)
        | Some chip \<Rightarrow>
            if at_chip_id attested \<noteq> hex_of chip then Inl (AdmissionError ''the verdict's chip_id is not the report's'')
            else from_receipt (derive_hardware_id (hardware_id_kind_of kind) chip)))"

definition evidence_dict :: "string \<Rightarrow> bytes \<Rightarrow> string \<Rightarrow> string \<Rightarrow> ChannelBinding \<Rightarrow> bytes \<Rightarrow> string \<Rightarrow> json" where
  "evidence_dict kind quote judged verifier_digest binding n attested_iso = JObj [(''evidence_kind'', JStr kind),
     (''evidence_sha256'', JStr (hex_of (sha256 quote))), (''measurement'', JStr judged),
     (''verifier_digest'', JStr verifier_digest), (''tls_spki_sha256'', JStr (hex_of (cb_digest binding))),
     (''attestation_nonce'', JStr (hex_of n)), (''attested_at'', JStr attested_iso)]"

text \<open>The refusal reasons, in the order of the checks; the root check is last.\<close>

definition admit_reasons ::
  "Attested \<Rightarrow> string \<Rightarrow> admit_call \<Rightarrow> quote_facts \<Rightarrow> bytes \<Rightarrow> string \<Rightarrow> bool \<Rightarrow> string list" where
  "admit_reasons attested kind c q expected hardware_id measurement_allowed =
     (if \<not> complete attested kind \<or> qf_debug q then [VERIFICATION_INCOMPLETE] else []) @
     (if expected \<noteq> qf_report_data q then [REPORT_DATA_MISMATCH] else []) @
     (if \<not> measurement_allowed \<and> mp_mode (ac_policy c) = ''enforce'' then [MEASUREMENT_NOT_ALLOWED] else []) @
     (case map_of (ac_admitted c) hardware_id of
        None \<Rightarrow> []
      | Some holder \<Rightarrow>
          if (ab_box_id holder, ab_miner_hotkey holder) \<noteq> (ac_box_id c, ac_miner_hotkey c) then [HARDWARE_ID_CLAIMED] else []) @
     (case ac_last_released_at c of
        None \<Rightarrow> []
      | Some released \<Rightarrow> if instant (ac_attested_at c) \<le> instant released then [ATTESTATION_PREDATES_RELEASE] else []) @
     (if ac_require_fresh_boot c \<and> qf_rtmr3 q \<noteq> Some RTMR_ZERO then [BOOT_CONSUMED] else [])"

definition value_error_text :: "exn + 'a \<Rightarrow> AdmissionError + 'a" where
  "value_error_text r = (case r of
      Inl (ValueError m) \<Rightarrow> Inl (AdmissionError m)
    | Inl e \<Rightarrow> Inl (Raised e)
    | Inr x \<Rightarrow> Inr x)"

definition admit :: "Attested \<Rightarrow> bytes \<Rightarrow> admit_call \<Rightarrow> AdmissionError + Admission" where
  "admit attested quote c =
     bindE (admit_inputs attested quote c) (\<lambda>(kind, attested_iso).
     bindE (check_admitted (ac_admitted c)) (\<lambda>_.
     bindE (tls_binding (ac_tls_certificate_der c) (ac_tls_spki_der c)) (\<lambda>binding.
     bindE (parse_quote quote kind) (\<lambda>q.
     bindE (ensure (verdict_matches attested q) (AdmissionError ''the verdict's measurement is not the quote's'')) (\<lambda>_.
     bindE (admit_hardware_id attested kind q) (\<lambda>hardware_id.
     bindE (from_receipt (check_evidence (evidence_dict kind quote (judged_measurement (ac_policy c) q) (ac_verifier_digest c)
              binding (ac_nonce c) attested_iso) (Some kind) None)) (\<lambda>checked.
     bindE (of_option (Raised AssertionError) checked) (\<lambda>evidence.
     bindE (value_error_text (report_data_v2 (ac_nonce c) (ac_miner_hotkey c) binding)) (\<lambda>expected.
     let measurement_allowed = allows (ac_policy c) (re_measurement evidence);
         reasons = admit_reasons attested kind c q expected hardware_id measurement_allowed in
     bindE (value_error_text (check_root_binding kind quote (ac_expected_root_digest c))) (\<lambda>root_reason.
     let reasons = reasons @ (case root_reason of None \<Rightarrow> [] | Some r \<Rightarrow> [r]) in
       Inr \<lparr>ad_admitted = (reasons = []), ad_reasons = reasons, ad_box_id = ac_box_id c, ad_miner_hotkey = ac_miner_hotkey c,
         ad_hardware_id = hardware_id, ad_hardware_id_kind = hardware_id_kind_of kind, ad_measurement = re_measurement evidence,
         ad_measurement_allowed = measurement_allowed, ad_mode = mp_mode (ac_policy c), ad_policy_digest = mp_digest (ac_policy c),
         ad_evidence = (if reasons = [] \<and> measurement_allowed then Some evidence else None),
         ad_launch_measurement = (if kind = ''tdx'' then Some (qf_measurement q) else None),
         ad_image_measurement = qf_image_measurement q\<rparr>))))))))))"

section \<open>Lemmas\<close>

lemma from_channel_Inr [simp]: "from_channel r = Inr x \<longleftrightarrow> r = Inr x"
  by (auto simp: from_channel_def split: sum.splits ChannelBindingError.splits)

lemma from_receipt_Inr [simp]: "from_receipt r = Inr x \<longleftrightarrow> r = Inr x"
  by (auto simp: from_receipt_def split: sum.splits ReceiptError.splits)

lemma value_error_text_Inr [simp]: "value_error_text r = Inr x \<longleftrightarrow> r = Inr x"
  by (auto simp: value_error_text_def split: sum.splits exn.splits)

lemma from_value [simp]: "from_receipt (Inr x) = Inr x" "value_error_text (Inr x) = Inr x" "from_channel (Inr x) = Inr x"
  by (simp_all add: from_receipt_def value_error_text_def from_channel_def)

lemma policy_items_Some: "policy_items kind xs = Some ms \<Longrightarrow> xs = map JStr ms \<and> list_all (POLICY_MEASUREMENT kind) ms"
  by (induction xs arbitrary: ms) (auto split: json.splits if_splits)

text \<open>A policy that was parsed passes the checks of \<^verbatim>\<open>admit\<close>, and its measurements are texts that evidence may carry.\<close>

lemma parse_policy_Inr:
  assumes "parse_policy raw loaded = Inr p"
  shows "mp_kind p \<in> set TEE_KINDS" "mp_mode p \<in> set MODES" "\<forall>m \<in> mp_allowed_measurements p. is_measurement (mp_kind p) m"
    "mp_mode p = ''enforce'' \<Longrightarrow> mp_allowed_measurements p \<noteq> {}"
proof -
  obtain kind mode ms kvs where p: "policy_mode (obj_at kvs ''mode'') = Inr mode" "mode = ''enforce'' \<longrightarrow> ms \<noteq> []"
      "policy_kind (obj_at kvs ''schema'') = Inr kind" "policy_measurements kind (obj_at kvs ''allowed_measurements'') = Inr ms"
      "p = \<lparr>mp_kind = kind, mp_mode = mode, mp_allowed_measurements = set ms, mp_digest = ''sha256:'' @ hex_of (sha256 raw)\<rparr>"
    using assms by (clarsimp simp: parse_policy_def)
  have "kind \<in> fst ` set POLICY_SCHEMAS"
    using p(3) by (auto simp: policy_kind_def POLICY_SCHEMAS_def split: if_splits)
  then show "mp_kind p \<in> set TEE_KINDS" by (auto simp: p(5) POLICY_SCHEMAS_def TEE_KINDS_def)
  obtain xs where "policy_items kind xs = Some ms"
    using p(4) by (auto simp: policy_measurements_def Let_def split: json.splits option.splits if_splits)
  from policy_items_Some [OF this] show "\<forall>m \<in> mp_allowed_measurements p. is_measurement (mp_kind p) m"
    by (auto simp: p(5) list_all_iff POLICY_MEASUREMENT_def is_measurement_def)
  show "mp_mode p \<in> set MODES" "mp_mode p = ''enforce'' \<Longrightarrow> mp_allowed_measurements p \<noteq> {}"
    using p(1,2) by (auto simp: p(5) policy_mode_def split: json.splits if_splits)
qed

lemma admit_inputs_Inr:
  assumes "admit_inputs att quote c = Inr (kind, t)"
  shows "TIER_KINDS (at_tier att) = Some kind" "mp_kind (ac_policy c) = kind" "mp_mode (ac_policy c) \<in> set MODES"
    "is_box_id (ac_box_id c)" "is_ss58 (ac_miner_hotkey c)" "length (ac_nonce c) = 32" "\<not> all_zero (ac_nonce c)"
    "iso (instant (ac_attested_at c)) = Inr t" "ac_require_fresh_boot c \<Longrightarrow> kind = ''tdx''" "length quote \<le> 64 * 1024"
  using assms by (auto simp: admit_inputs_def NONCE_BYTES_def MAX_QUOTE_BYTES_def split: sum.splits)

lemma admit_Inr:
  assumes "admit att quote c = Inr a"
  obtains kind t binding q ev expected root where
    "admit_inputs att quote c = Inr (kind, t)" "check_admitted (ac_admitted c) = Inr ()"
    "tls_binding (ac_tls_certificate_der c) (ac_tls_spki_der c) = Inr binding" "parse_quote quote kind = Inr q"
    "verdict_matches att q" "admit_hardware_id att kind q = Inr (ad_hardware_id a)"
    "check_evidence (evidence_dict kind quote (judged_measurement (ac_policy c) q) (ac_verifier_digest c) binding (ac_nonce c) t)
       (Some kind) None = Inr (Some ev)"
    "report_data_v2 (ac_nonce c) (ac_miner_hotkey c) binding = Inr expected"
    "check_root_binding kind quote (ac_expected_root_digest c) = Inr root"
    "ad_reasons a = admit_reasons att kind c q expected (ad_hardware_id a) (ad_measurement_allowed a) @ (case root of None \<Rightarrow> [] | Some r \<Rightarrow> [r])"
    "ad_admitted a \<longleftrightarrow> ad_reasons a = []" "ad_measurement a = re_measurement ev"
    "ad_measurement_allowed a \<longleftrightarrow> allows (ac_policy c) (re_measurement ev)"
    "ad_evidence a = (if ad_admitted a \<and> ad_measurement_allowed a then Some ev else None)"
    "ad_box_id a = ac_box_id c" "ad_miner_hotkey a = ac_miner_hotkey c"
  using assms by (clarsimp simp: admit_def Let_def case_prod_unfold)

lemma admit_reasons_Nil:
  "admit_reasons att kind c q expected hw allowed = [] \<longleftrightarrow>
     complete att kind \<and> \<not> qf_debug q \<and> qf_report_data q = expected \<and>
     (mp_mode (ac_policy c) = ''enforce'' \<longrightarrow> allowed) \<and>
     (\<forall>h. map_of (ac_admitted c) hw = Some h \<longrightarrow> ab_box_id h = ac_box_id c \<and> ab_miner_hotkey h = ac_miner_hotkey c) \<and>
     (\<forall>r. ac_last_released_at c = Some r \<longrightarrow> instant r < instant (ac_attested_at c)) \<and>
     (ac_require_fresh_boot c \<longrightarrow> qf_rtmr3 q = Some RTMR_ZERO)"
  by (auto simp: admit_reasons_def split: option.splits)

lemma admit_decision:
  assumes "admit att quote c = Inr a" "TIER_KINDS (at_tier att) = Some kind" "parse_quote quote kind = Inr q"
    and "tls_binding (ac_tls_certificate_der c) (ac_tls_spki_der c) = Inr binding"
    and "report_data_v2 (ac_nonce c) (ac_miner_hotkey c) binding = Inr rd"
  shows "ad_admitted a \<longleftrightarrow>
     complete att kind \<and> \<not> qf_debug q \<and> qf_report_data q = rd \<and>
     (mp_mode (ac_policy c) = ''enforce'' \<longrightarrow> ad_measurement a \<in> mp_allowed_measurements (ac_policy c)) \<and>
     (\<forall>h. map_of (ac_admitted c) (ad_hardware_id a) = Some h \<longrightarrow>
        ab_box_id h = ac_box_id c \<and> ab_miner_hotkey h = ac_miner_hotkey c) \<and>
     (\<forall>r. ac_last_released_at c = Some r \<longrightarrow> instant r < instant (ac_attested_at c)) \<and>
     (ac_require_fresh_boot c \<longrightarrow> qf_rtmr3 q = Some RTMR_ZERO) \<and>
     check_root_binding kind quote (ac_expected_root_digest c) = Inr None"
  using assms(1)
proof (rule admit_Inr)
  fix kind' t binding' q' ev expected root
  assume i: "admit_inputs att quote c = Inr (kind', t)"
    and tb: "tls_binding (ac_tls_certificate_der c) (ac_tls_spki_der c) = Inr binding'"
    and pq: "parse_quote quote kind' = Inr q'"
    and rd': "report_data_v2 (ac_nonce c) (ac_miner_hotkey c) binding' = Inr expected"
    and rt: "check_root_binding kind' quote (ac_expected_root_digest c) = Inr root"
    and rs: "ad_reasons a = admit_reasons att kind' c q' expected (ad_hardware_id a) (ad_measurement_allowed a) @ (case root of None \<Rightarrow> [] | Some r \<Rightarrow> [r])"
    and ok: "ad_admitted a \<longleftrightarrow> ad_reasons a = []" "ad_measurement a = re_measurement ev"
      "ad_measurement_allowed a \<longleftrightarrow> allows (ac_policy c) (re_measurement ev)"
  have "kind' = kind" using admit_inputs_Inr(1) [OF i] assms(2) by simp
  moreover from this have "q' = q" "binding' = binding" "expected = rd" using tb pq rd' assms(3-5) by simp_all
  ultimately show ?thesis
    unfolding ok(1) rs append_is_Nil_conv admit_reasons_Nil using rt ok(2,3)
    by (auto simp: allows_def split: option.splits)
qed

lemma evidence_dict_at:
  "check_evidence (evidence_dict kind quote judged vd b n t) (Some kind) i = Inr (Some ev) \<longleftrightarrow>
     is_measurement kind judged \<and> \<not> all_zero (hex_bytes (last_part judged)) \<and> is_prefixed_hex64 ''sha256:'' vd \<and>
     is_hex64 (hex_of n) \<and> \<not> all_zero n \<and> is_hex64 (hex_of (cb_digest b)) \<and>
     (\<exists>att. parse_time (JStr t) ''attested_at'' = Inr att \<and> (\<forall>c. i = Some c \<longrightarrow> instant att \<le> instant c)) \<and>
     ev = \<lparr>re_evidence_kind = kind, re_evidence_sha256 = hex_of (sha256 quote), re_measurement = judged, re_verifier_digest = vd,
       re_tls_spki_sha256 = hex_of (cb_digest b), re_attestation_nonce = hex_of n, re_attested_at = t\<rparr>"
proof -
  let ?kvs = "[(''evidence_kind'', JStr kind), (''evidence_sha256'', JStr (hex_of (sha256 quote))), (''measurement'', JStr judged),
     (''verifier_digest'', JStr vd), (''tls_spki_sha256'', JStr (hex_of (cb_digest b))),
     (''attestation_nonce'', JStr (hex_of n)), (''attested_at'', JStr t)]"
  have dict: "evidence_dict kind quote judged vd b n t = JObj ?kvs" by (simp only: evidence_dict_def)
  have keys: "obj_keys ?kvs = EVIDENCE_KEYS" by (auto simp: obj_keys_def EVIDENCE_KEYS_def)
  have at': "obj_at ?kvs ''evidence_kind'' = JStr kind" "obj_at ?kvs ''evidence_sha256'' = JStr (hex_of (sha256 quote))"
    "obj_at ?kvs ''measurement'' = JStr judged" "obj_at ?kvs ''verifier_digest'' = JStr vd"
    "obj_at ?kvs ''tls_spki_sha256'' = JStr (hex_of (cb_digest b))" "obj_at ?kvs ''attestation_nonce'' = JStr (hex_of n)"
    "obj_at ?kvs ''attested_at'' = JStr t"
    by (simp_all add: obj_at_def obj_at_simps)
  have h: "is_hex64 (hex_of (sha256 quote))" by (auto simp: is_hex64_iff)
  show ?thesis
    unfolding check_evidence_def dict option.case bindE_Inr_iff object_field_Inr text_field_Inr hex64_Inr
    by (auto simp: keys at' h not_less split: option.splits)
qed

lemma tls_binding_Inr:
  "tls_binding cert spki = Inr b \<Longrightarrow> \<exists>key. b = \<lparr>binding_type = TLS_SPKI_SHA256, cb_digest = sha256 key\<rparr>"
  by (auto simp: tls_binding_def tls_spki_binding_def split: option.splits if_splits)

lemma last_part_hex: "is_lower_hex s \<Longrightarrow> last_part s = s"
proof -
  assume "is_lower_hex s"
  then have "\<forall>c \<in> set (rev s). c \<noteq> CHR '':''" by (auto simp: is_lower_hex_def hex_value_def list_all_iff)
  then have "takeWhile (\<lambda>c. c \<noteq> CHR '':'') (rev s) = rev s" by (rule takeWhile_eq_all_conv [THEN iffD2])
  then show ?thesis by (simp only: last_part_def rev_rev_ident)
qed

lemma iso_text_parses:
  assumes "iso w = Inr t" "FOUR_DIGIT_YEARS \<le> w"
  shows "\<exists>att. parse_time (JStr t) name = Inr att \<and> instant att = w - w mod 1000000"
proof -
  have "w < MAX_WALL" using assms(1) by (simp add: iso_def split: if_splits)
  from iso_parses [OF assms(2) this, of name] assms(1) show ?thesis by auto
qed

text \<open>
  C4: the decision.  When a call is well formed, the box is admitted if and only if the verdict is a complete verification of a quote
  without debugging, the REPORT\_DATA that the quote itself carries is the one for this nonce, this hotkey and the TLS key of this
  connection, an enforcing policy lists the measurement, no other box holds the hardware id, the evidence is later than the last
  release, a demanded fresh boot is fresh, and a pinned root matches.
\<close>

theorem admission_exact:
  assumes "admit att quote c = Inr a" "TIER_KINDS (at_tier att) = Some kind" "parse_quote quote kind = Inr q"
    and "tls_binding (ac_tls_certificate_der c) (ac_tls_spki_der c) = Inr binding"
    and "report_data_v2 (ac_nonce c) (ac_miner_hotkey c) binding = Inr rd"
  shows "ad_admitted a \<longleftrightarrow>
     complete att kind \<and> \<not> qf_debug q \<and> qf_report_data q = rd \<and>
     (mp_mode (ac_policy c) = ''enforce'' \<longrightarrow> ad_measurement a \<in> mp_allowed_measurements (ac_policy c)) \<and>
     (\<forall>h. map_of (ac_admitted c) (ad_hardware_id a) = Some h \<longrightarrow>
        ab_box_id h = ac_box_id c \<and> ab_miner_hotkey h = ac_miner_hotkey c) \<and>
     (\<forall>r. ac_last_released_at c = Some r \<longrightarrow> instant r < instant (ac_attested_at c)) \<and>
     (ac_require_fresh_boot c \<longrightarrow> qf_rtmr3 q = Some RTMR_ZERO) \<and>
     check_root_binding kind quote (ac_expected_root_digest c) = Inr None"
  using assms by (rule admit_decision)

text \<open>
  C9: the evidence of an admission can be audited.  Receipt evidence comes only from an admission whose measurement the policy lists.
  It names the quote by its hash, and a receipt for the same hotkey that carries it makes a validator expect exactly the
  REPORT\_DATA that the admitted quote holds.
\<close>

theorem admission_evidence_audits:
  assumes "admit att quote c = Inr a" "ad_evidence a = Some ev" "vr_evidence v = Some ev" "vr_miner_hotkey v = ad_miner_hotkey a"
  shows "ad_admitted a \<and> re_measurement ev \<in> mp_allowed_measurements (ac_policy c) \<and>
    re_evidence_sha256 ev = hex_of (sha256 quote) \<and>
    (\<exists>q. parse_quote quote (re_evidence_kind ev) = Inr q \<and> expected_report_data v = Inr (qf_report_data q))"
  using assms(1)
proof (rule admit_Inr)
  fix kind t binding q ev' expected root
  assume i: "admit_inputs att quote c = Inr (kind, t)"
    and tb: "tls_binding (ac_tls_certificate_der c) (ac_tls_spki_der c) = Inr binding" and pq: "parse_quote quote kind = Inr q"
    and ce: "check_evidence (evidence_dict kind quote (judged_measurement (ac_policy c) q) (ac_verifier_digest c) binding (ac_nonce c) t)
       (Some kind) None = Inr (Some ev')"
    and rd: "report_data_v2 (ac_nonce c) (ac_miner_hotkey c) binding = Inr expected"
    and rs: "ad_reasons a = admit_reasons att kind c q expected (ad_hardware_id a) (ad_measurement_allowed a) @ (case root of None \<Rightarrow> [] | Some r \<Rightarrow> [r])"
    and ok: "ad_admitted a \<longleftrightarrow> ad_reasons a = []" "ad_measurement_allowed a \<longleftrightarrow> allows (ac_policy c) (re_measurement ev')"
      "ad_evidence a = (if ad_admitted a \<and> ad_measurement_allowed a then Some ev' else None)" "ad_miner_hotkey a = ac_miner_hotkey c"
  have e: "ad_admitted a" "ad_measurement_allowed a" "ev' = ev" using ok(3) assms(2) by (simp_all split: if_splits)
  have ev: "re_evidence_kind ev = kind" "re_evidence_sha256 ev = hex_of (sha256 quote)"
      "hex_bytes (re_tls_spki_sha256 ev) = cb_digest binding" "hex_bytes (re_attestation_nonce ev) = ac_nonce c"
    using ce unfolding evidence_dict_at e(3) by simp_all
  obtain key where b: "binding = \<lparr>binding_type = TLS_SPKI_SHA256, cb_digest = sha256 key\<rparr>" using tls_binding_Inr [OF tb] by blast
  have "expected = qf_report_data q" using e(1) unfolding ok(1) rs append_is_Nil_conv admit_reasons_Nil by simp
  moreover have "expected_report_data v = Inr expected"
    using assms(3,4) rd ok(4) by (simp add: expected_report_data_def mk_ChannelBinding_def ev b)
  ultimately show ?thesis using e ok(2) ev(1,2) pq by (simp add: allows_def)
qed

text \<open>A call whose parts are all well formed gets a decision.\<close>

lemma admit_total:
  assumes "admit_inputs att quote c = Inr (kind, t)" "check_admitted (ac_admitted c) = Inr ()"
    "tls_binding (ac_tls_certificate_der c) (ac_tls_spki_der c) = Inr binding" "parse_quote quote kind = Inr q" "verdict_matches att q"
    "admit_hardware_id att kind q = Inr hw"
    "check_evidence (evidence_dict kind quote (judged_measurement (ac_policy c) q) (ac_verifier_digest c) binding (ac_nonce c) t)
       (Some kind) None = Inr (Some ev)"
    "report_data_v2 (ac_nonce c) (ac_miner_hotkey c) binding = Inr expected"
    "check_root_binding kind quote (ac_expected_root_digest c) = Inr rt"
  shows "\<exists>a. admit att quote c = Inr a \<and> ad_hardware_id a = hw \<and> ad_measurement a = re_measurement ev"
  unfolding admit_def assms(1-4) bindE.simps prod.case by (simp add: assms(5-9) ensure_def of_option_def Let_def)

section \<open>From a verified report to an admission\<close>

lemma sev_snp_kind: "hardware_id_kind_of ''sev_snp'' = ''chip_id''" "RAW_ID_BYTES ''chip_id'' = Some 64"
  by (simp_all add: hardware_id_kind_of_def HARDWARE_ID_KINDS.simps RAW_ID_BYTES_def)

text \<open>What the verifier's verdict and the quote say to each other on SEV-SNP.\<close>

lemma verified_snp_facts:
  assumes "verify_snp tr wd e n pol call st = (Inr (Some att), st')"
  obtains q chip m where "parse_quote (ev_quote e) ''sev_snp'' = Inr q" "TIER_KINDS (at_tier att) = Some ''sev_snp''"
    "complete att ''sev_snp''" "\<not> qf_debug q" "verdict_matches att q" "qf_chip_id q = Some chip" "at_chip_id att = hex_of chip"
    "length chip = 64" "\<not> all_zero chip" "qf_measurement q = hex_of m" "length m = 48" "\<not> all_zero m"
    "qf_image_measurement q = None" "evidence_report_data e n = Inr (qf_report_data q)"
proof -
  obtain ex where ex: "evidence_report_data e n = Inr ex"
    "verify_snp_report_data tr wd (ev_quote e) ex pol (call\<lparr>sc_require_chain := True\<rparr>) st = (Inr (Some att), st')"
    using assms by (auto simp: verify_snp_def split: sum.splits)
  obtain p where p: "parse_snp_report (ev_quote e) = Inr p" "snp_report_is_admissible (ev_quote e) p" "sr_report_data p = ex"
    "att = snp_verdict p True"
    using verify_snp_report_data_Some [OF ex(2)] by auto
  obtain m chip where id: "length m = 48" "\<not> all_zero m" "sr_measurement p = hex_of m" "length chip = 64" "\<not> all_zero chip"
    "sr_chip_id p = hex_of chip" using admissible_identities [OF p(1,2)] by blast
  let ?q = "\<lparr>qf_report_data = sr_report_data p, qf_measurement = sr_measurement p, qf_debug = False,
     qf_chip_id = Some (hex_bytes (sr_chip_id p)), qf_rtmr3 = None, qf_image_measurement = None\<rparr>"
  show thesis
  proof (rule that [of ?q chip m])
    show "parse_quote (ev_quote e) ''sev_snp'' = Inr ?q" by (simp add: parse_quote_def p(1))
  qed (use id ex(1) p(3) in \<open>simp_all add: p(4) snp_verdict_def complete_def verdict_matches_def VERIFIED_def\<close>)
qed

lemma snp_admission:
  assumes v: "verify_snp tr wd e (ac_nonce c) pol call st = (Inr (Some att), st')"
    and e: "report_data_version e = 2" "channel_binding e = Some binding" "ev_miner_hotkey e = ac_miner_hotkey c"
    and i: "admit_inputs att (ev_quote e) c = Inr (kind, t)" "check_admitted (ac_admitted c) = Inr ()"
      "tls_binding (ac_tls_certificate_der c) (ac_tls_spki_der c) = Inr binding"
    and w: "is_prefixed_hex64 ''sha256:'' (ac_verifier_digest c)" "FOUR_DIGIT_YEARS \<le> instant (ac_attested_at c)"
      "check_root_binding ''sev_snp'' (ev_quote e) (ac_expected_root_digest c) = Inr rt"
  shows "\<exists>a. admit att (ev_quote e) c = Inr a \<and>
    derive_hardware_id ''chip_id'' (hex_bytes (at_chip_id att)) = Inr (ad_hardware_id a) \<and> (ad_admitted a \<longleftrightarrow>
    (mp_mode (ac_policy c) = ''enforce'' \<longrightarrow> at_measurement att \<in> mp_allowed_measurements (ac_policy c)) \<and>
    (\<forall>h. map_of (ac_admitted c) (ad_hardware_id a) = Some h \<longrightarrow>
       ab_box_id h = ac_box_id c \<and> ab_miner_hotkey h = ac_miner_hotkey c) \<and>
    (\<forall>r. ac_last_released_at c = Some r \<longrightarrow> instant r < instant (ac_attested_at c)) \<and> rt = None)"
  using v
proof (rule verified_snp_facts)
  fix q chip m
  assume q: "parse_quote (ev_quote e) ''sev_snp'' = Inr q" "TIER_KINDS (at_tier att) = Some ''sev_snp''" "complete att ''sev_snp''"
    "\<not> qf_debug q" "verdict_matches att q" "qf_chip_id q = Some chip" "at_chip_id att = hex_of chip" "length chip = 64"
    "\<not> all_zero chip" "qf_measurement q = hex_of m" "length m = 48" "\<not> all_zero m" "qf_image_measurement q = None"
    "evidence_report_data e (ac_nonce c) = Inr (qf_report_data q)"
  note c = admit_inputs_Inr [OF i(1)]
  have kind: "kind = ''sev_snp''" using c(1) q(2) by simp
  obtain key where b: "binding = \<lparr>binding_type = TLS_SPKI_SHA256, cb_digest = sha256 key\<rparr>" using tls_binding_Inr [OF i(3)] by blast
  have rd: "report_data_v2 (ac_nonce c) (ac_miner_hotkey c) binding = Inr (qf_report_data q)"
    using q(14) e by (simp add: evidence_report_data_def)
  obtain hw where hw: "derive_hardware_id ''chip_id'' chip = Inr hw" using q(8,9) by (auto simp: derive_hardware_id_def sev_snp_kind)
  have hid: "admit_hardware_id att kind q = Inr hw"
    by (simp add: admit_hardware_id_def kind q(6,7) sev_snp_kind(1) hw)
  have judged: "judged_measurement (ac_policy c) q = hex_of m" by (simp add: judged_measurement_def q(10,13))
  obtain tm where tm: "parse_time (JStr t) ''attested_at'' = Inr tm" using iso_text_parses [OF c(8) w(2)] by blast
  let ?ev = "\<lparr>re_evidence_kind = ''sev_snp'', re_evidence_sha256 = hex_of (sha256 (ev_quote e)), re_measurement = hex_of m,
    re_verifier_digest = ac_verifier_digest c, re_tls_spki_sha256 = hex_of (cb_digest binding),
    re_attestation_nonce = hex_of (ac_nonce c), re_attested_at = t\<rparr>"
  have ev: "check_evidence (evidence_dict ''sev_snp'' (ev_quote e) (hex_of m) (ac_verifier_digest c) binding (ac_nonce c) t)
      (Some ''sev_snp'') None = Inr (Some ?ev)"
    unfolding evidence_dict_at using c(6,7) w(1) q(11,12) tm
    by (auto simp: is_measurement_def last_part_hex is_hex64_iff b)
  obtain a where a: "admit att (ev_quote e) c = Inr a" "ad_hardware_id a = hw" "ad_measurement a = hex_of m"
    using admit_total [OF i(1-3), of q hw ?ev "qf_report_data q" rt] q(1,5) hid ev rd w(3) judged by (auto simp: kind)
  have "at_measurement att = hex_of m" using q(5,10,13) by (auto simp: verdict_matches_def)
  moreover have "\<not> ac_require_fresh_boot c" using c(9) kind by auto
  ultimately show ?thesis
    using admit_decision [OF a(1) q(2,1) i(3) rd] a w(3) q(3,4) hw q(7) by auto
qed

text \<open>
  C12: a report that the verifier accepted on this connection is judged only by the policy, the registry, the release time and the root
  pin.  On a well-formed call with the nonce, the hotkey and the channel binding of the verified evidence, admission returns a decision,
  and the box is admitted exactly when an enforcing policy lists the measurement, no other box holds the hardware id, the
  evidence is later than the last release and the pinned root matches.
\<close>

theorem verified_snp_admission:
  assumes v: "verify_snp tr wd e (ac_nonce c) pol call st = (Inr (Some att), st')"
    and e: "report_data_version e = 2" "channel_binding e = Some binding" "ev_miner_hotkey e = ac_miner_hotkey c"
    and i: "admit_inputs att (ev_quote e) c = Inr (kind, t)" "check_admitted (ac_admitted c) = Inr ()"
      "tls_binding (ac_tls_certificate_der c) (ac_tls_spki_der c) = Inr binding"
    and w: "is_prefixed_hex64 ''sha256:'' (ac_verifier_digest c)" "FOUR_DIGIT_YEARS \<le> instant (ac_attested_at c)"
      "check_root_binding ''sev_snp'' (ev_quote e) (ac_expected_root_digest c) = Inr rt"
  shows "\<exists>a. admit att (ev_quote e) c = Inr a \<and>
    derive_hardware_id ''chip_id'' (hex_bytes (at_chip_id att)) = Inr (ad_hardware_id a) \<and> (ad_admitted a \<longleftrightarrow>
    (mp_mode (ac_policy c) = ''enforce'' \<longrightarrow> at_measurement att \<in> mp_allowed_measurements (ac_policy c)) \<and>
    (\<forall>h. map_of (ac_admitted c) (ad_hardware_id a) = Some h \<longrightarrow>
       ab_box_id h = ac_box_id c \<and> ab_miner_hotkey h = ac_miner_hotkey c) \<and>
    (\<forall>r. ac_last_released_at c = Some r \<longrightarrow> instant r < instant (ac_attested_at c)) \<and> rt = None)"
  using assms by (rule snp_admission)

section \<open>The registry of admitted boxes\<close>

text \<open>
  The contract that the code states for its caller: a claim is checked and recorded in one step, and an entry leaves the registry only
  when the caller removes it.  The registry keeps one entry per hardware id; \<open>removed\<close> collects the ids that were removed.
\<close>

record claims =
  cl_registry :: "(string \<times> AdmittedBox) list"
  cl_removed :: "string set"

inductive claim_step :: "claims \<Rightarrow> claims \<Rightarrow> bool" where
  admit_box: "admit att quote c = Inr a \<Longrightarrow> ad_admitted a \<Longrightarrow> ac_admitted c = cl_registry s \<Longrightarrow>
    claim_step s (s\<lparr>cl_registry := AList.update (ad_hardware_id a)
      \<lparr>ab_box_id = ad_box_id a, ab_miner_hotkey = ad_miner_hotkey a\<rparr> (cl_registry s)\<rparr>)"
| remove_box: "claim_step s \<lparr>cl_registry = AList.delete hw (cl_registry s), cl_removed = insert hw (cl_removed s)\<rparr>"

lemma admitted_holder:
  assumes "admit att quote c = Inr a" "ad_admitted a" "map_of (ac_admitted c) (ad_hardware_id a) = Some h"
  shows "h = \<lparr>ab_box_id = ad_box_id a, ab_miner_hotkey = ad_miner_hotkey a\<rparr>"
  using assms(1)
proof (rule admit_Inr)
  fix kind t binding q ev expected root'
  assume rs: "ad_reasons a = admit_reasons att kind c q expected (ad_hardware_id a) (ad_measurement_allowed a) @
      (case root' of None \<Rightarrow> [] | Some r \<Rightarrow> [r])"
    and ok: "ad_admitted a \<longleftrightarrow> ad_reasons a = []" "ad_box_id a = ac_box_id c" "ad_miner_hotkey a = ac_miner_hotkey c"
  have "ab_box_id h = ad_box_id a" "ab_miner_hotkey h = ad_miner_hotkey a"
    using assms(2,3) ok(2,3) unfolding ok(1) rs append_is_Nil_conv admit_reasons_Nil by simp_all
  then show ?thesis by simp
qed

text \<open>A fixed claim of one hardware id: as long as it was not removed, the registry holds it.\<close>

definition claim_start :: "string \<Rightarrow> AdmittedBox \<Rightarrow> claims \<Rightarrow> bool" where
  "claim_start hw box s = (map_of (cl_registry s) hw = Some box \<and> distinct (map fst (cl_registry s)))"

definition claim_held :: "string \<Rightarrow> AdmittedBox \<Rightarrow> claims \<Rightarrow> bool" where
  "claim_held hw box s = ((hw \<notin> cl_removed s \<longrightarrow> map_of (cl_registry s) hw = Some box) \<and> distinct (map fst (cl_registry s)))"

lemma claim_held_step:
  assumes "claim_held hw box s" "claim_step s s'"
  shows "claim_held hw box s'"
  using assms(2,1)
proof cases
  case (admit_box att quote c a)
  have "\<lparr>ab_box_id = ad_box_id a, ab_miner_hotkey = ad_miner_hotkey a\<rparr> = box"
    if "hw \<notin> cl_removed s" "hw = ad_hardware_id a"
    using admitted_holder [OF admit_box(2,3), of box] assms(1) admit_box(4) that by (simp add: claim_held_def)
  then show ?thesis using assms(1) unfolding admit_box(1) by (auto simp: claim_held_def update_conv' distinct_update)
next
  case (remove_box hw')
  then show ?thesis using assms(1) by (auto simp: claim_held_def delete_conv' distinct_delete)
qed

interpretation claim: invariant_system "claim_start hw box" claim_step "claim_held hw box" for hw box
  by unfold_locales (simp add: claim_start_def claim_held_def, rule claim_held_step)

text \<open>
  C7: the first claim wins.  Once a hardware id is recorded for a box, no sequence of admissions, whatever quotes, verdicts and
  policies they use, gives that hardware to another box or another hotkey, until the caller removes the entry.
\<close>

theorem first_claim_wins:
  assumes "claim_start hw box s0" "rtranclp claim_step s0 s" "hw \<notin> cl_removed s"
    and "admit att quote c = Inr a" "ad_admitted a" "ac_admitted c = cl_registry s" "ad_hardware_id a = hw"
  shows "ad_box_id a = ab_box_id box \<and> ad_miner_hotkey a = ab_miner_hotkey box"
proof -
  have "claim_held hw box s"
    using claim.run_inv [OF assms(2)] claim.inv_start [OF assms(1)] by blast
  then have "map_of (ac_admitted c) (ad_hardware_id a) = Some box" using assms(3,6,7) by (simp add: claim_held_def)
  from admitted_holder [OF assms(4,5) this] show ?thesis by simp
qed

section \<open>A concrete admission\<close>

definition sample_binding :: ChannelBinding where
  "sample_binding = \<lparr>binding_type = TLS_SPKI_SHA256, cb_digest = sha256 (spki_element [6] [7])\<rparr>"

definition sample_hotkey :: string where "sample_hotkey = replicate 48 (CHR ''5'')"

definition sample_report_data :: bytes where
  "sample_report_data = (case report_data_v2 (replicate 32 1) sample_hotkey sample_binding of Inr d \<Rightarrow> d | Inl _ \<Rightarrow> [])"

definition sample_v2_evidence :: Evidence where
  "sample_v2_evidence = \<lparr>ev_kind = SEV_SNP,
     ev_quote = snp_report_bytes sample_report_data (replicate 48 7) (replicate 32 3) (replicate 64 9),
     ev_nonce = replicate 32 1, ev_miner_hotkey = sample_hotkey, ev_cert_chain = [], ev_ssh_host_key = None, ev_composite_jwt = None,
     report_data_version = 2, channel_binding = Some sample_binding\<rparr>"

definition sample_call :: admit_call where
  "sample_call = \<lparr>ac_verifier_digest = ''sha256:'' @ hex_of (replicate 32 5), ac_box_id = ''box-1'', ac_miner_hotkey = sample_hotkey,
     ac_nonce = replicate 32 1, ac_attested_at = sample_now,
     ac_policy = \<lparr>mp_kind = ''sev_snp'', mp_mode = ''enforce'', mp_allowed_measurements = {hex_of (replicate 48 7)}, mp_digest = []\<rparr>,
     ac_admitted = [], ac_tls_certificate_der = Some sample_certificate, ac_tls_spki_der = None, ac_last_released_at = None,
     ac_require_fresh_boot = False, ac_expected_root_digest = Some (''sha256:'' @ hex_of (replicate 32 3))\<rparr>"

definition sample_verdict :: Attested where
  "sample_verdict = snp_verdict (snp_report_fields sample_report_data (replicate 48 7) (replicate 32 3) (replicate 64 9)) True"

lemma sample_report_data:
  "report_data_v2 (replicate 32 1) sample_hotkey sample_binding = Inr sample_report_data" "length sample_report_data = 64"
proof -
  have "length (utf8 sample_hotkey) \<le> 512" using length_utf8_le [of sample_hotkey] by (simp add: sample_hotkey_def)
  then obtain d where "report_data_v2 (replicate 32 1) sample_hotkey sample_binding = Inr d" "length d = 64"
    using report_data_v2_total [of "replicate 32 1" sample_hotkey sample_binding]
    by (auto simp: wf_binding_def sample_binding_def sample_hotkey_def)
  then show "report_data_v2 (replicate 32 1) sample_hotkey sample_binding = Inr sample_report_data" "length sample_report_data = 64"
    by (simp_all add: sample_report_data_def)
qed

definition sample_after :: chain_state where
  "sample_after = snd (verify_snp sample_trust sample_world sample_v2_evidence (replicate 32 1)
     (snp_sample_policy (hex_of (replicate 48 7))) sample_snp_call sample_chain_state)"

lemma sample_v2_verified:
  "verify_snp sample_trust sample_world sample_v2_evidence (replicate 32 1) (snp_sample_policy (hex_of (replicate 48 7))) sample_snp_call
    sample_chain_state = (Inr (Some sample_verdict), sample_after)"
proof -
  have rd: "evidence_report_data sample_v2_evidence (replicate 32 1) = Inr sample_report_data"
    "ev_quote sample_v2_evidence = snp_report_bytes sample_report_data (replicate 48 7) (replicate 32 3) (replicate 64 9)"
    using sample_report_data(1) by (simp_all add: evidence_report_data_def sample_v2_evidence_def)
  have call: "sample_snp_call\<lparr>sc_require_chain := True\<rparr> = sample_snp_call" by (simp add: sample_snp_call_def)
  have "\<exists>st. verify_snp sample_trust sample_world sample_v2_evidence (replicate 32 1) (snp_sample_policy (hex_of (replicate 48 7)))
      sample_snp_call sample_chain_state = (Inr (Some sample_verdict), st)"
    unfolding verify_snp_def rd sum.case sample_verdict_def call
    by (rule sample_snp_verified) (simp_all add: sample_report_data(2) all_zero_def list_all_iff)
  then show ?thesis by (auto simp: sample_after_def)
qed

lemma sample_inputs: "\<exists>t. admit_inputs sample_verdict (ev_quote sample_v2_evidence) sample_call = Inr (''sev_snp'', t)"
proof -
  obtain t where t: "iso (instant sample_now) = Inr t"
    using iso_parses [of "instant sample_now"] sample_instant by auto
  have len: "length (ev_quote sample_v2_evidence) = 1184"
    using sample_report_data(2) by (simp add: sample_v2_evidence_def snp_report_bytes_def)
  have "is_box_id ''box-1''" "is_ss58 sample_hotkey"
    using sample_names by (simp_all add: probe_names_ok_def sample_probe_def sample_hotkey_def)
  then show ?thesis
    using t len by (simp add: admit_inputs_def sample_call_def sample_verdict_def snp_verdict_def TEE_KINDS_def MODES_def ensure_def
        of_option_def MAX_QUOTE_BYTES_def NONCE_BYTES_def all_zero_def list_all_iff sample_now_def)
qed

lemma sample_root: "check_root_binding ''sev_snp'' (ev_quote sample_v2_evidence) (ac_expected_root_digest sample_call) = Inr None"
proof -
  have p: "parse_snp_report (ev_quote sample_v2_evidence) = Inr (snp_report_fields sample_report_data (replicate 48 7) (replicate 32 3) (replicate 64 9))"
    using parse_sample_report sample_report_data(2) by (simp add: sample_v2_evidence_def)
  have "quote_root_digest ''sev_snp'' (ev_quote sample_v2_evidence) = Inr (''sha256:'' @ hex_of (replicate 32 3))"
    unfolding quote_root_digest_Inr root_digest_from_host_data_Inr
    by (simp add: p snp_report_fields_def all_zero_def list_all_iff)
  moreover have "is_sha256_label (''sha256:'' @ hex_of (replicate 32 3))" by (rule is_sha256_label_hex) simp
  ultimately show ?thesis
    by (simp add: check_root_binding_def normalize_expected_root_digest_def sample_call_def)
qed

lemma sample_setup:
  "report_data_version sample_v2_evidence = 2" "channel_binding sample_v2_evidence = Some sample_binding"
  "ev_miner_hotkey sample_v2_evidence = ac_miner_hotkey sample_call" "check_admitted (ac_admitted sample_call) = Inr ()"
  "tls_binding (ac_tls_certificate_der sample_call) (ac_tls_spki_der sample_call) = Inr sample_binding"
  "is_prefixed_hex64 ''sha256:'' (ac_verifier_digest sample_call)" "FOUR_DIGIT_YEARS \<le> instant (ac_attested_at sample_call)"
  "at_measurement sample_verdict = hex_of (replicate 48 7)"
  using tls_spki_binding_sample
  by (simp_all add: sample_v2_evidence_def sample_call_def sample_binding_def tls_binding_def from_channel_def is_prefixed_hex64_def
      starts_with_def is_hex64_def sample_instant sample_verdict_def snp_verdict_def snp_report_fields_def)

lemma sample_v2_verified': "verify_snp sample_trust sample_world sample_v2_evidence (ac_nonce sample_call) (snp_sample_policy (hex_of (replicate 48 7))) sample_snp_call
    sample_chain_state = (Inr (Some sample_verdict), sample_after)"
  using sample_v2_verified by (simp add: sample_call_def)

lemma sample_admitted:
  "\<exists>a ev. admit sample_verdict (ev_quote sample_v2_evidence) sample_call = Inr a \<and> ad_admitted a \<and> ad_evidence a = Some ev"
proof -
  obtain t where t: "admit_inputs sample_verdict (ev_quote sample_v2_evidence) sample_call = Inr (''sev_snp'', t)"
    using sample_inputs by blast
  obtain a where a: "admit sample_verdict (ev_quote sample_v2_evidence) sample_call = Inr a" "ad_admitted a"
    using snp_admission [OF sample_v2_verified' sample_setup(1-3) t sample_setup(4-7) sample_root]
    by (auto simp: sample_call_def sample_setup(8))
  from a(1) have "ad_measurement_allowed a"
  proof (rule admit_Inr)
    fix kind t binding q ev expected root'
    assume "ad_reasons a = admit_reasons sample_verdict kind sample_call q expected (ad_hardware_id a) (ad_measurement_allowed a) @
        (case root' of None \<Rightarrow> [] | Some r \<Rightarrow> [r])" "ad_admitted a \<longleftrightarrow> ad_reasons a = []"
    then have "admit_reasons sample_verdict kind sample_call q expected (ad_hardware_id a) (ad_measurement_allowed a) = []"
      using a(2) by simp
    then show ?thesis unfolding admit_reasons_Nil by (simp add: sample_call_def)
  qed
  with a(1) have "\<exists>ev. ad_evidence a = Some ev" using a(2) by (elim admit_Inr) auto
  with a show ?thesis by blast
qed

theorem verified_snp_admission_witness:
  "\<exists>a. admit sample_verdict (ev_quote sample_v2_evidence) sample_call = Inr a \<and> ad_admitted a"
proof -
  obtain t where t: "admit_inputs sample_verdict (ev_quote sample_v2_evidence) sample_call = Inr (''sev_snp'', t)"
    using sample_inputs by blast
  show ?thesis
    using verified_snp_admission [OF sample_v2_verified' sample_setup(1-3) t sample_setup(4-7) sample_root]
    by (auto simp: sample_call_def sample_setup(8))
qed

theorem admission_exact_witness:
  "\<exists>a q. admit sample_verdict (ev_quote sample_v2_evidence) sample_call = Inr a \<and> ad_admitted a \<and>
     parse_quote (ev_quote sample_v2_evidence) ''sev_snp'' = Inr q \<and> qf_report_data q = sample_report_data"
proof -
  obtain a where a: "admit sample_verdict (ev_quote sample_v2_evidence) sample_call = Inr a" "ad_admitted a"
    using sample_admitted by blast
  obtain q where q: "parse_quote (ev_quote sample_v2_evidence) ''sev_snp'' = Inr q" "TIER_KINDS (at_tier sample_verdict) = Some ''sev_snp''"
    using verified_snp_facts [OF sample_v2_verified] by metis
  have rd: "report_data_v2 (ac_nonce sample_call) (ac_miner_hotkey sample_call) sample_binding = Inr sample_report_data"
    using sample_report_data(1) by (simp add: sample_call_def)
  show ?thesis using admission_exact [OF a(1) q(2,1) sample_setup(5) rd] a q(1) by blast
qed

theorem admission_evidence_audits_witness:
  "\<exists>a ev v. admit sample_verdict (ev_quote sample_v2_evidence) sample_call = Inr a \<and> ad_evidence a = Some ev \<and>
     re_evidence_sha256 ev = hex_of (sha256 (ev_quote sample_v2_evidence)) \<and> is_ok (expected_report_data v)"
proof -
  obtain a ev where a: "admit sample_verdict (ev_quote sample_v2_evidence) sample_call = Inr a" "ad_evidence a = Some ev"
    using sample_admitted by blast
  obtain r v where "verify_receipt (\<lambda>_ s m. s = m) [''prober-1'' \<mapsto> ()] 94 (replicate 64 (CHR ''a'')) sample_now 7 None r = Inr v"
    using sample_accepted by blast
  define w where "w = v\<lparr>vr_evidence := Some ev, vr_miner_hotkey := ad_miner_hotkey a\<rparr>"
  have "vr_evidence w = Some ev" "vr_miner_hotkey w = ad_miner_hotkey a" by (simp_all add: w_def)
  from admission_evidence_audits [OF a this] a show ?thesis by (auto simp: is_ok_iff)
qed

definition sample_box :: AdmittedBox where
  "sample_box = \<lparr>ab_box_id = ''box-1'', ab_miner_hotkey = sample_hotkey\<rparr>"

theorem first_claim_wins_witness:
  "\<exists>hw a s. claim_start hw sample_box s \<and>
     admit sample_verdict (ev_quote sample_v2_evidence) (sample_call\<lparr>ac_admitted := cl_registry s\<rparr>) = Inr a \<and> ad_admitted a \<and>
     ad_hardware_id a = hw \<and> ad_box_id a = ''box-1''"
proof -
  have "at_chip_id sample_verdict = hex_of (replicate 64 9)" by (simp add: sample_verdict_def snp_verdict_def snp_report_fields_def)
  then obtain hw where hw: "derive_hardware_id ''chip_id'' (hex_bytes (at_chip_id sample_verdict)) = Inr hw" "is_hex64 hw"
    by (auto simp: derive_hardware_id_def sev_snp_kind all_zero_def list_all_iff is_hex64_iff)
  define s where "s = \<lparr>cl_registry = [(hw, sample_box)], cl_removed = {}\<rparr>"
  let ?c = "sample_call\<lparr>ac_admitted := cl_registry s\<rparr>"
  obtain t where t: "admit_inputs sample_verdict (ev_quote sample_v2_evidence) ?c = Inr (''sev_snp'', t)"
    using sample_inputs by (auto simp: admit_inputs_def)
  have names: "is_box_id ''box-1''" "is_ss58 sample_hotkey"
    using sample_names by (simp_all add: probe_names_ok_def sample_probe_def sample_hotkey_def)
  have reg: "check_admitted (ac_admitted ?c) = Inr ()" using hw(2) names by (simp add: s_def sample_box_def)
  have v: "verify_snp sample_trust sample_world sample_v2_evidence (ac_nonce ?c) (snp_sample_policy (hex_of (replicate 48 7))) sample_snp_call
    sample_chain_state = (Inr (Some sample_verdict), sample_after)" using sample_v2_verified' by simp
  have c: "ev_miner_hotkey sample_v2_evidence = ac_miner_hotkey ?c"
    "tls_binding (ac_tls_certificate_der ?c) (ac_tls_spki_der ?c) = Inr sample_binding"
    "is_prefixed_hex64 ''sha256:'' (ac_verifier_digest ?c)" "FOUR_DIGIT_YEARS \<le> instant (ac_attested_at ?c)"
    "check_root_binding ''sev_snp'' (ev_quote sample_v2_evidence) (ac_expected_root_digest ?c) = Inr None"
    using sample_setup sample_root by simp_all
  from snp_admission [OF v sample_setup(1,2) c(1) t reg c(2-5)]
  obtain a where a: "admit sample_verdict (ev_quote sample_v2_evidence) ?c = Inr a" "ad_hardware_id a = hw"
    and ok: "ad_admitted a" using hw(1) by (auto simp: sample_setup(8) sample_call_def s_def sample_box_def)
  note a = a(1) ok a(2)
  have "claim_start hw sample_box s" by (simp add: claim_start_def s_def)
  moreover from first_claim_wins [OF this rtranclp.rtrancl_refl _ a(1,2) _ a(3)] have "ad_box_id a = ''box-1''"
    by (simp add: s_def sample_box_def)
  ultimately show ?thesis using a by blast
qed

end
