(* ===== verification/Spec2Isabelle.thy ===== *)
theory Spec2Isabelle
  imports Sha2_Vectors Relaunch Lease SatLane Pricing Admission
begin

text \<open>
  Cathedral rents confidential virtual machines.  A \<^emph>\<open>miner\<close> offers a whole-host box, a \<^emph>\<open>prober\<close> measures what the
  box can do and signs a receipt, and \<^emph>\<open>validators\<close> pay for the receipts they can verify.  A box serves one customer per boot, and
  its launch is proved by a TDX quote or a SEV-SNP report.  This development models, as Isabelle functions that read like the
  Python code under \<^verbatim>\<open>src/cathedral\<close>, the code that decides these things, and proves what the decisions guarantee.

  \<^bold>\<open>The path of one box\<close> crosses the theories in this order.

  \<^item> The box boots.  \<open>Boot\<close> (\<^verbatim>\<open>tee_box/boot.py\<close>) guards the boot with RTMR3 or a software register, whose values
    are in \<open>Rtmr\<close>; \<open>Lease\<close> (\<^verbatim>\<open>tee_box/lease.py\<close>) gives the box to one customer at a time; \<open>Relaunch\<close>
    (\<^verbatim>\<open>tee_box/relaunch.py\<close>) is the control plane's state between customers.
  \<^item> The launch is proved.  \<open>TdxQuote\<close> (\<^verbatim>\<open>verify/tdx_quote.py\<close>) and \<open>SnpReport\<close> (\<^verbatim>\<open>verify/snp.py\<close>) read the
    evidence; \<open>SnpChain\<close> (the rest of \<^verbatim>\<open>verify/snp.py\<close>) checks the vendor chain of a report with the pinned
    \<^verbatim>\<open>snpguest\<close> binary, caches certificates, retries, and gives the verdict; \<open>Channel\<close> (\<^verbatim>\<open>channel.py\<close>) reads the TLS key of the connection, \<open>Common\<close> (\<^verbatim>\<open>common.py\<close>) binds
    nonce, hotkey and TLS key into REPORT\_DATA, and \<open>RootBinding\<close> (\<^verbatim>\<open>tee_box/measured_root.py\<close>,
    \<^verbatim>\<open>capacity/tee_honesty.py\<close>) reads the root digest that the launch measured.
  \<^item> The box is admitted.  \<open>Admission\<close> (\<^verbatim>\<open>capacity/admission.py\<close>) composes all of these into one decision.
  \<^item> Its capacity is proved.  \<open>CapChallenge\<close> (\<^verbatim>\<open>capacity/challenge.py\<close>) is the memory-hard challenge, \<open>Receipt\<close> and
    \<open>ReceiptProbe\<close> (\<^verbatim>\<open>capacity/receipt.py\<close>) are the signed receipt, \<open>Pricing\<close> (\<^verbatim>\<open>capacity/pricing.py\<close>) the
    signed prices.
  \<^item> Work is dispatched.  \<open>Lifecycle\<close> (\<^verbatim>\<open>lifecycle.py\<close>) holds a worker's eligibility and its refreshes; \<open>Dpll\<close> and
    \<open>SatLane\<close> (\<^verbatim>\<open>lanes/sat.py\<close>, \<^verbatim>\<open>lanes/sat_types.py\<close>) are the SAT work lane with its solver and credit.

  \<^bold>\<open>The library below them.\<close>  \<open>Prelude\<close> has bytes, slices, hex, UTF-8, results as sums, the locale \<open>prefix_code\<close> of
  encodings that can be read back, and the locale \<open>invariant_system\<close> of step relations with an invariant.  \<open>Pytext\<close>, \<open>Json\<close>,
  \<open>Base64\<close>, \<open>Calendar\<close>, \<open>PyRandom\<close> and \<open>Sha2\<close> model what the code uses of Python: decimal text, JSON documents and their
  canonical text, strict base64, aware datetimes, the Mersenne Twister, and SHA-256, SHA-384 and SHA-512 (\<open>Sha2_Vectors\<close> evaluates the
  standard's test vectors).  The locale \<open>lease_register\<close> of \<open>Boot\<close> is the contract of a lease register, interpreted on both
  registers of the program; \<open>string_literal\<close> of \<open>Json\<close> is the contract of an escaping, interpreted on both forms that are
  hashed and signed; \<open>invariant_system\<close> is interpreted on the boot guard, the lease, the relaunch state, the SAT lane, the
  single-flight control, the price tables, the registry of admitted boxes and the certificate cache.

  \<^bold>\<open>Conventions.\<close>  A function is named after the Python function it models, without a leading underscore, and keeps the order of its
  checks; the fields of a dataclass are those of a record with a short prefix.  An exception is an \<open>Inl\<close>.  Whatever comes from
  outside is an argument: the clock, random bytes, the outcome of each system call, the documents that
  \<^verbatim>\<open>json.loads\<close> reads, the answers of the \<^verbatim>\<open>snpguest\<close> binary, and Ed25519 (\<open>ed_sign\<close>, \<open>ed_verify\<close>), whose only assumed law, where one is needed,
  is that a signature verifies under its own key.  Hash functions are computed, never assumed to be injective: a binding theorem says that two
  inputs agree or that these two payloads collide.

  \<^bold>\<open>What is shown.\<close>
  \<^item> One customer per boot on both registers, over all failures and restarts; no hand-over without a clean sweep; every interleaving of
    the lease refines a four-phase automaton; a released box can be leased again.
  \<^item> An admission is granted exactly under the documented conditions; it demands the REPORT\_DATA of this nonce, hotkey and TLS key; an
    admission that demands a fresh boot is for a boot that nobody used; hardware stays with its first claimant; a report that the verifier
    accepted is judged only by policy, registry, release time and root pin; the evidence handed to receipts can be audited.
  \<^item> The quote parser accepts exactly the layout of its result; a verified SEV-SNP report means that the pinned verifier accepted
    the chain beside the pinned root, the expected REPORT\_DATA and a sufficient TCB; the certificate cache is bounded and
    returns only recent certificates of the same chip and TCB; the extracted TLS key is exactly the key element of the certificate.
  \<^item> A verified receipt pays exactly the proven capacity, for one validator, round and period, and is well formed; an honest probe
    gives a receipt that is accepted; prices never roll back, and every verified receipt has a bounded price.
  \<^item> The solver is correct and its depth is bounded; accepted work is credited once; refreshes are single-flight; withdrawn workers are not
    eligible.  Findings: a job that is dispatched again moves its credit, an enormous time in a boot marker raises, and a badly padded
    MRCONFIGID is reported with the wrong reason.

  \<^bold>\<open>Bounds.\<close>  Loops are structural recursion or have a termination proof.  The solver's search takes a fuel that the depth bound shows to be
  enough; the rejection loop of \<^verbatim>\<open>random\<close> is a partial function whose \<open>None\<close> means that it does not end; the sampling loop of a
  challenge ends because its counter has four bytes.  The chain check makes at most three attempts, as the code does.

  \<^bold>\<open>Not modelled.\<close>  The HTTP and TLS servers, the sandbox and container runtimes, the command line, installation and updates, the SQLite
  ledgers, the network clients of the subnet, GPU attestation by vendor tools, the Go broker and the Go TDX verifier, shell scripts and images: they
  are I/O around the decisions above, or code in other languages.  Rounding of floats is not modelled: seconds are rationals.
  Strings carry the code points up to U+00FF.  The round constants of SHA-2 are written in decimal.
\<close>

section \<open>A receipt and its price\<close>

text \<open>
  C18: every verified receipt has a price.  For a receipt that a validator accepts and a price table that it loads, the value of the
  box is defined: it is never negative, is bounded by the capacity and the largest rate, and is zero when the box fits no consumer
  profile.  The capacity that is priced is at most 1024 vCPUs and at most 10 GiB for each of them, the most that a
  challenge can prove.
\<close>

theorem verified_receipt_priced:
  assumes "verify_receipt ed_verify prober_keys netuid nonce now rnd age receipt = Inr v"
    and "load_price_table ed_verify owner_keys table then_now lo pin = Inr t"
  shows "\<exists>n. table_value t (vr_kind v) (vr_vcpus v) (vr_memory_gib v) = Inr n \<and>
    0 \<le> n \<and> n \<le> (vr_vcpus v + vr_memory_gib v) * MAX_MICRO \<and> (n \<noteq> 0 \<longrightarrow> fits_any_profile t (vr_vcpus v) (vr_memory_gib v)) \<and>
    vr_vcpus v \<le> 1024 \<and> vr_memory_gib v \<le> 10 * vr_vcpus v"
proof -
  obtain body where b: "check_body body = Inr v" using verify_receipt_Inr [OF assms(1)] by blast
  obtain kvs where p: "price_body kvs = Inr t" using load_price_table_Inr [OF assms(2)] by blast
  note vm = check_body_Inr(4,5) [OF b]
  have k: "vr_kind v \<in> set BOX_KINDS" using check_box_Inr(5) [OF check_body_Inr(2) [OF b]] .
  note c = check_challenge_Inr [OF check_body_Inr(6) [OF b]]
  have "is_ok (spec_for (cs_seed (vr_challenge v)) (vr_vcpus v) (vr_memory_gib v))" using c(1) by (simp add: is_ok_iff)
  then have "provable_vcpus (vr_vcpus v) (vr_memory_gib v) = vr_vcpus v \<and> provable_memory_gib (vr_vcpus v) (vr_memory_gib v) = vr_memory_gib v"
    using spec_for_claim [OF c(2) vm] by blast
  then show ?thesis using table_value_total [OF p k vm] provable_limits [OF vm] by auto
qed

theorem verified_receipt_priced_witness:
  "\<exists>r v n. verify_receipt (\<lambda>_ s m. s = m) [''prober-1'' \<mapsto> ()] 94 (replicate 64 (CHR ''a'')) sample_now 7 None r = Inr v \<and>
     table_value (sample_prices 2) (vr_kind v) (vr_vcpus v) (vr_memory_gib v) = Inr n \<and> 0 \<le> n"
proof -
  obtain r v where v: "verify_receipt (\<lambda>_ s m. s = m) [''prober-1'' \<mapsto> ()] 94 (replicate 64 (CHR ''a'')) sample_now 7 None r = Inr v"
    using sample_accepted by blast
  obtain d where d: "load_price_table (\<lambda>_ s m. s = m) [''owner-1'' \<mapsto> ()] (Some d) price_now 1 None = Inr (sample_prices 2)"
    using sample_table_loads [of 1 2 None] by (auto simp: MAX_SEQUENCE_def)
  show ?thesis using verified_receipt_priced [OF v d] v by blast
qed

section \<open>A fresh admission and the boot guard\<close>

text \<open>
  C5: an admission that demands a fresh boot is for an unused boot.  If the admitted TDX quote carries the RTMR3 of a box at some point
  of a run of its boot guard, then at that point no caller had consumed the boot.
\<close>

theorem fresh_admission_unused_boot:
  assumes "reach (box_start (\<lambda>hw. hw) SysfsRtmr3 b) (box_step SysfsRtmr3 b) s"
    and "admit att quote c = Inr a" "ad_admitted a" "ac_require_fresh_boot c"
    and "parse_tdx_quote quote = Inr q" "rtmr3 (q_body q) = g_reg (bx_guard s)"
  shows "bx_customers s = []"
  using assms(2)
proof (rule admit_Inr)
  fix kind t binding q' ev expected root'
  assume i: "admit_inputs att quote c = Inr (kind, t)" and pq: "parse_quote quote kind = Inr q'"
    and rs: "ad_reasons a = admit_reasons att kind c q' expected (ad_hardware_id a) (ad_measurement_allowed a) @
      (case root' of None \<Rightarrow> [] | Some r \<Rightarrow> [r])" and ok: "ad_admitted a \<longleftrightarrow> ad_reasons a = []"
  have "kind = ''tdx''" using admit_inputs_Inr(9) [OF i assms(4)] .
  then have "qf_rtmr3 q' = Some (rtmr3 (q_body q))" using pq assms(5) by (auto simp: parse_quote_def)
  moreover have "qf_rtmr3 q' = Some RTMR_ZERO"
    using assms(3,4) unfolding ok rs append_is_Nil_conv admit_reasons_Nil by simp
  ultimately have "g_reg (bx_guard s) = RTMR3_FRESH" using assms(6) by (simp add: RTMR_ZERO_def RTMR3_FRESH_def RTMR_BYTES_def)
  then have "c' \<notin> set (bx_customers s)" for c'
    using boot_inv_customers [OF tdx.boot_run.reach_inv [OF assms(1)], of c' c'] consumed_not_fresh by auto
  then show ?thesis by (cases "bx_customers s") auto
qed

text \<open>A TDX quote of a boot that has served nobody, and the verdict of a strict verifier for it.\<close>

definition tdx_parsed :: ParsedTdxQuote where
  "tdx_parsed = bound_quote (replicate 48 0) RTMR3_FRESH sample_report_data"

definition tdx_sample :: bytes where
  "tdx_sample = bound_quote_bytes (replicate 48 0) RTMR3_FRESH sample_report_data"

definition tdx_verdict :: Attested where
  "tdx_verdict = \<lparr>at_tier = CC_CPU_TDX, at_chip_id = STABLE_PLATFORM_PREFIX @ hex_of (replicate 32 4), at_measurement = measurement tdx_parsed,
     at_tcb = 1, at_verification_status = VERIFIED, at_chain_verified = True, at_tcb_status = Some ''UpToDate'', at_advisory_ids = [],
     at_debug_enabled = Some False, at_collateral_current = Some True, at_platform_identity_kind = None, at_tcb_svn = None,
     at_pck_cert_id = None, at_attestation_key_id = None, at_policy_mode = Some ''strict'', at_launch_measurement = None,
     at_image_measurement = None\<rparr>"

definition tdx_call :: admit_call where
  "tdx_call = sample_call\<lparr>ac_policy := \<lparr>mp_kind = ''tdx'', mp_mode = ''shadow'', mp_allowed_measurements = {}, mp_digest = []\<rparr>,
     ac_require_fresh_boot := True, ac_expected_root_digest := None\<rparr>"

lemma parse_tdx_sample: "parse_tdx_quote tdx_sample = Inr tdx_parsed"
  unfolding tdx_sample_def tdx_parsed_def
  by (rule parse_bound_quote) (simp_all add: RTMR3_FRESH_def RTMR_BYTES_def sample_report_data(2))

lemma tdx_body:
  "measurement_payload (q_body tdx_parsed) = measurement_payload (sample_body 1)" "td_attributes (q_body tdx_parsed) = replicate 8 0"
  "rtmr3 (q_body tdx_parsed) = RTMR3_FRESH" "TdxQuote.report_data (q_body tdx_parsed) = sample_report_data"
  by (simp_all add: tdx_parsed_def bound_quote_def measurement_payload_def rtmrs_def sample_body_def RTMR3_FRESH_def RTMR_BYTES_def)

lemma last_part_prefix: "CHR '':'' \<notin> set s \<Longrightarrow> last_part (p @ CHR '':'' # s) = s"
proof -
  assume a: "CHR '':'' \<notin> set s"
  have "takeWhile (\<lambda>c. c \<noteq> CHR '':'') (rev s @ CHR '':'' # rev p) = rev s" by (rule takeWhile_field) (use a in simp)
  then show ?thesis by (simp add: last_part_def)
qed

lemma tdx_admitted: "\<exists>a. admit tdx_verdict tdx_sample tdx_call = Inr a \<and> ad_admitted a"
proof -
  define q where "q = \<lparr>qf_report_data = sample_report_data, qf_measurement = measurement tdx_parsed, qf_debug = False, qf_chip_id = None,
    qf_rtmr3 = Some RTMR3_FRESH, qf_image_measurement = Some (image_measurement tdx_parsed)\<rparr>"
  have "nat_of_le (replicate n 0) = 0" for n by (induction n) simp_all
  then have pq: "parse_quote tdx_sample ''tdx'' = Inr q"
    by (simp add: parse_quote_def parse_tdx_sample q_def quote_report_data_def tdx_body debug_enabled_def)
  obtain t where t: "iso (instant sample_now) = Inr t" using iso_parses [of "instant sample_now"] sample_instant by auto
  obtain tm where tm: "parse_time (JStr t) ''attested_at'' = Inr tm" using iso_text_parses [OF t, of "''attested_at''"] sample_instant by auto
  have "length sample_cert = 59" by (simp add: sample_cert_def PEM_BEGIN_def PEM_END_def)
  then have len: "length tdx_sample = 829"
    by (simp add: tdx_sample_def bound_quote_bytes_def bound_quote_def quote_bytes_def header_bytes_def body_bytes_def signature_bytes_def
        sample_quote_def sample_body_def RTMR3_FRESH_def RTMR_BYTES_def sample_report_data(2))
  have names: "is_box_id ''box-1''" "is_ss58 sample_hotkey"
    using sample_names by (simp_all add: probe_names_ok_def sample_probe_def sample_hotkey_def)
  have i: "admit_inputs tdx_verdict tdx_sample tdx_call = Inr (''tdx'', t)"
    using t len names by (simp add: admit_inputs_def tdx_call_def sample_call_def tdx_verdict_def TEE_KINDS_def MODES_def ensure_def
        of_option_def MAX_QUOTE_BYTES_def NONCE_BYTES_def all_zero_def list_all_iff sample_now_def)
  have call: "check_admitted (ac_admitted tdx_call) = Inr ()"
    "tls_binding (ac_tls_certificate_der tdx_call) (ac_tls_spki_der tdx_call) = Inr sample_binding"
    "report_data_v2 (ac_nonce tdx_call) (ac_miner_hotkey tdx_call) sample_binding = Inr sample_report_data"
    "check_root_binding ''tdx'' tdx_sample (ac_expected_root_digest tdx_call) = Inr None"
    "is_prefixed_hex64 ''sha256:'' (ac_verifier_digest tdx_call)" "ac_nonce tdx_call = replicate 32 1"
    using sample_setup sample_report_data(1)
    by (simp_all add: tdx_call_def sample_call_def check_root_binding_def normalize_expected_root_digest_def)
  have vm: "verdict_matches tdx_verdict q" by (simp add: verdict_matches_def tdx_verdict_def q_def)
  obtain hw where hw: "admit_hardware_id tdx_verdict ''tdx'' q = Inr hw"
    by (auto simp: admit_hardware_id_def tdx_verdict_def tdx_hardware_id_def is_prefixed_hex64_def starts_with_def is_hex64_def
        STABLE_PLATFORM_PREFIX_def derive_hardware_id_def RAW_ID_BYTES_def all_zero_def list_all_iff)
  have judged: "judged_measurement (ac_policy tdx_call) q = measurement tdx_parsed"
    by (simp add: judged_measurement_def q_def tdx_call_def allows_def)
  let ?h = "hex_of (sha256 (measurement_payload (sample_body 1)))"
  have m: "measurement tdx_parsed = ''tdx-measurement-sha256'' @ CHR '':'' # ?h"
    by (simp add: measurement_def tdx_body MEASUREMENT_PREFIX_def)
  have "CHR '':'' \<notin> set ?h" using is_lower_hex_hex_of [of "sha256 (measurement_payload (sample_body 1))"]
    by (auto simp: is_lower_hex_def hex_value_def list_all_iff)
  then have lp: "last_part (measurement tdx_parsed) = ?h" unfolding m by (rule last_part_prefix)
  have im: "is_measurement ''tdx'' (measurement tdx_parsed)" by (simp add: is_measurement_def m is_prefixed_hex64_def starts_with_def is_hex64_def)
  obtain ev where ev: "check_evidence (evidence_dict ''tdx'' tdx_sample (measurement tdx_parsed) (ac_verifier_digest tdx_call) sample_binding
      (ac_nonce tdx_call) t) (Some ''tdx'') None = Inr (Some ev)"
    unfolding evidence_dict_at using lp im tm call(5,6) tdx_measurement_nonzero
    by (auto simp: is_hex64_iff sample_binding_def all_zero_def list_all_iff)
  obtain a where a: "admit tdx_verdict tdx_sample tdx_call = Inr a"
    using admit_total [OF i call(1,2) pq vm hw _ call(3,4)] ev judged by auto
  have "ad_admitted a"
    using admit_decision [OF a _ pq call(2,3)] call(4)
    by (simp add: tdx_verdict_def complete_def q_def tdx_call_def sample_call_def RTMR_ZERO_def RTMR3_FRESH_def RTMR_BYTES_def)
  with a show ?thesis by blast
qed

theorem fresh_admission_unused_boot_witness:
  "\<exists>s. reach (box_start (\<lambda>hw. hw) SysfsRtmr3 sample_boot_id) (box_step SysfsRtmr3 sample_boot_id) s \<and>
     rtmr3 (q_body tdx_parsed) = g_reg (bx_guard s) \<and> bx_customers s = []"
proof -
  let ?s = "\<lparr>bx_guard = started_guard RTMR3_FRESH, bx_customers = []\<rparr>"
  have r: "reach (box_start (\<lambda>hw. hw) SysfsRtmr3 sample_boot_id) (box_step SysfsRtmr3 sample_boot_id) ?s"
    by (rule sample_started [where f = NoFault]) (simp_all add: SysfsRtmr3_def sysfs_read_def RTMR3_FRESH_def RTMR_BYTES_def)
  obtain a where a: "admit tdx_verdict tdx_sample tdx_call = Inr a" "ad_admitted a" using tdx_admitted by blast
  have reg: "rtmr3 (q_body tdx_parsed) = g_reg (bx_guard ?s)" by (simp add: tdx_body started_guard_def)
  have fresh: "ac_require_fresh_boot tdx_call" by (simp add: tdx_call_def)
  from fresh_admission_unused_boot [OF r a fresh parse_tdx_sample reg] r reg show ?thesis by blast
qed

end
